(* ===== verification/Prelude.thy ===== *)
theory Prelude
  imports
    Complex_Main
    "HOL-Library.Word"
    "HOL-Library.Finite_Map"
    "HOL-Library.List_Lexorder"
    "HOL-Library.Char_ord"
    "HOL-Library.Product_Lexorder"
    "HOL-Library.Multiset"
begin

text \<open>
  What the components share: the pieces of the Go runtime the agent relies on (64-bit durations
  with wrap-around, monotonic clock readings, \<^verbatim>\<open>float64\<close> comparisons, decimal printing), the
  state-and-error procedures in which effectful Go functions are written, and a calculus of weakest
  preconditions for reasoning about them.
\<close>

named_theorems go_arith \<open>definitions of Go integer, duration and time arithmetic\<close>
named_theorems proc_defs \<open>definitions of the procedure combinators\<close>

section \<open>Text\<close>

text \<open>Text on which every encoding of the program agrees.\<close>

definition ascii :: "string \<Rightarrow> bool" where
  "ascii s \<longleftrightarrow> (\<forall>c \<in> set s. of_char c < (128::nat))"

section \<open>64-bit integers, durations, instants\<close>

text \<open>Go's \<^verbatim>\<open>int64\<close> as an \<open>int\<close>, with the two's-complement wrap-around written out.\<close>

definition int64 :: "int \<Rightarrow> int" where
  "int64 x = (x + 2 ^ 63) mod 2 ^ 64 - 2 ^ 63"

text \<open>\<^verbatim>\<open>time.Duration\<close> counts nanoseconds in an \<^verbatim>\<open>int64\<close>.\<close>

type_synonym duration = int

definition Second :: duration where
  "Second = 1000000000"

definition Millisecond :: duration where
  "Millisecond = 1000000"

definition Minute :: duration where
  "Minute = 60 * Second"

text \<open>\<^verbatim>\<open>time.Duration(n) * time.Second\<close>: the product wraps.\<close>

definition seconds :: "int \<Rightarrow> duration" where
  "seconds n = int64 (n * Second)"

text \<open>Integer division truncates towards zero.\<close>

definition go_div :: "int \<Rightarrow> int \<Rightarrow> int" where
  "go_div a b = sgn a * sgn b * (\<bar>a\<bar> div \<bar>b\<bar>)"

text \<open>
  A \<^verbatim>\<open>time.Time\<close> variable: \<open>None\<close> is the zero value \<^verbatim>\<open>time.Time{}\<close> (for which \<^verbatim>\<open>IsZero\<close>
  holds), \<open>Some t\<close> a reading of the clock in nanoseconds. \<^verbatim>\<open>now\<close> is always a reading.
\<close>

type_synonym instant = int
type_synonym gtime = "instant option"

definition sat64 :: "int \<Rightarrow> int" where
  "sat64 x = max (- (2 ^ 63)) (min (2 ^ 63 - 1) x)"

text \<open>
  \<^verbatim>\<open>now.Sub(t)\<close> saturates at the ends of the \<^verbatim>\<open>int64\<close> range; from the zero value (year 1) it is
  the largest duration. \<^verbatim>\<open>now.Add(d)\<close> and \<^verbatim>\<open>now.Before(t)\<close> follow.
\<close>

definition time_Sub :: "instant \<Rightarrow> gtime \<Rightarrow> duration" where
  "time_Sub now t = (case t of None \<Rightarrow> 2 ^ 63 - 1 | Some t0 \<Rightarrow> sat64 (now - t0))"

definition time_Add :: "instant \<Rightarrow> duration \<Rightarrow> gtime" where
  "time_Add now d = Some (now + d)"

definition time_Before :: "instant \<Rightarrow> gtime \<Rightarrow> bool" where
  "time_Before now t = (case t of None \<Rightarrow> False | Some t0 \<Rightarrow> now < t0)"

declare int64_def [go_arith] Second_def [go_arith] Millisecond_def [go_arith] Minute_def [go_arith]
  seconds_def [go_arith] go_div_def [go_arith] sat64_def [go_arith] time_Sub_def [go_arith]
  time_Add_def [go_arith] time_Before_def [go_arith]

section \<open>Floating point\<close>

text \<open>
  A \<^verbatim>\<open>float64\<close> is compared, never computed with: a finite value (a rational; the two zeros compare
  equal), an infinity, or not a number, which compares false with everything.
\<close>

datatype float64 = Finite rat | PosInf | NegInf | NaN

fun f64_le :: "float64 \<Rightarrow> float64 \<Rightarrow> bool" where
  "f64_le (Finite x) (Finite y) = (x \<le> y)"
| "f64_le NaN _ = False"
| "f64_le _ NaN = False"
| "f64_le NegInf _ = True"
| "f64_le _ PosInf = True"
| "f64_le _ _ = False"

fun f64_is_finite :: "float64 \<Rightarrow> bool" where
  "f64_is_finite (Finite _) = True"
| "f64_is_finite _ = False"

section \<open>Decimal printing\<close>

fun digit_char :: "nat \<Rightarrow> char" where
  "digit_char n = char_of (48 + n mod 10)"

fun utoa :: "nat \<Rightarrow> string" where
  "utoa n = (if n < 10 then [digit_char n] else utoa (n div 10) @ [digit_char n])"

declare utoa.simps [simp del]

definition itoa :: "int \<Rightarrow> string" where
  "itoa n = (if n < 0 then ''-'' @ utoa (nat (- n)) else utoa (nat n))"

section \<open>Procedures with state and errors\<close>

text \<open>
  A Go function that mutates its receiver and may return an error is a procedure: from a state to
  an error (\<open>Inl\<close>) or a result (\<open>Inr\<close>), with the state left behind in either case. State
  changes made before an error stay, as they do in Go.
\<close>

type_synonym ('s, 'e, 'a) proc = "'s \<Rightarrow> ('e + 'a) \<times> 's"

definition return :: "'a \<Rightarrow> ('s, 'e, 'a) proc" where
  "return x = (\<lambda>s. (Inr x, s))"

definition throw :: "'e \<Rightarrow> ('s, 'e, 'a) proc" where
  "throw e = (\<lambda>s. (Inl e, s))"

text \<open>\<open>seqE m f\<close>: \<^verbatim>\<open>x, err := m; if err != nil { return err }; f(x)\<close>.\<close>

definition seqE :: "('s, 'e, 'a) proc \<Rightarrow> ('a \<Rightarrow> ('s, 'e, 'b) proc) \<Rightarrow> ('s, 'e, 'b) proc" where
  "seqE m f = (\<lambda>s. case m s of (Inl e, s') \<Rightarrow> (Inl e, s') | (Inr x, s') \<Rightarrow> f x s')"

text \<open>\<open>tryE m h f\<close>: \<^verbatim>\<open>x, err := m; if err != nil { h(err) } else { f(x) }\<close>.\<close>

definition tryE ::
  "('s, 'e, 'a) proc \<Rightarrow> ('e \<Rightarrow> ('s, 'f, 'b) proc) \<Rightarrow> ('a \<Rightarrow> ('s, 'f, 'b) proc) \<Rightarrow> ('s, 'f, 'b) proc"
  where
  "tryE m h f = (\<lambda>s. case m s of (Inl e, s') \<Rightarrow> h e s' | (Inr x, s') \<Rightarrow> f x s')"

definition liftR :: "'e + 'a \<Rightarrow> ('s, 'e, 'a) proc" where
  "liftR r = (\<lambda>s. (r, s))"

definition getS :: "('s \<Rightarrow> 'a) \<Rightarrow> ('s, 'e, 'a) proc" where
  "getS f = (\<lambda>s. (Inr (f s), s))"

definition modifyS :: "('s \<Rightarrow> 's) \<Rightarrow> ('s, 'e, unit) proc" where
  "modifyS f = (\<lambda>s. (Inr (), f s))"

text \<open>A \<^verbatim>\<open>for\<close> loop over a slice that stops at the first error.\<close>

fun forE :: "'a list \<Rightarrow> ('a \<Rightarrow> ('s, 'e, unit) proc) \<Rightarrow> ('s, 'e, unit) proc" where
  "forE [] f = return ()"
| "forE (x # xs) f = seqE (f x) (\<lambda>_. forE xs f)"

declare return_def [proc_defs] throw_def [proc_defs] seqE_def [proc_defs] tryE_def [proc_defs]
  getS_def [proc_defs] modifyS_def [proc_defs]

text \<open>A loop that goes on after an error and returns the errors joined, as \<^verbatim>\<open>errors.Join\<close> does.\<close>

fun forJoin :: "'a list \<Rightarrow> ('a \<Rightarrow> ('s, 'e, unit) proc) \<Rightarrow> ('s, 'f, 'e list) proc" where
  "forJoin [] f = return []"
| "forJoin (x # xs) f =
     tryE (f x) (\<lambda>e. seqE (forJoin xs f) (\<lambda>es. return (e # es))) (\<lambda>_. forJoin xs f)"

section \<open>Weakest preconditions\<close>

text \<open>
  \<open>wp m Q E s\<close>: started in \<open>s\<close>, \<open>m\<close> ends in a state satisfying \<open>Q x\<close> when it returns \<open>x\<close>, and
  \<open>E e\<close> when it returns the error \<open>e\<close>. Procedures are total functions, so there is no question of
  termination. The rules follow the program text.
\<close>

definition wp :: "('s, 'e, 'a) proc \<Rightarrow> ('a \<Rightarrow> 's \<Rightarrow> bool) \<Rightarrow> ('e \<Rightarrow> 's \<Rightarrow> bool) \<Rightarrow> 's \<Rightarrow> bool" where
  "wp m Q E s = (case m s of (Inl e, s') \<Rightarrow> E e s' | (Inr x, s') \<Rightarrow> Q x s')"

lemma wp_return [simp]: "wp (return x) Q E = Q x"
  by (rule ext) (simp add: wp_def return_def)

lemma wp_throw [simp]: "wp (throw e) Q E = E e"
  by (rule ext) (simp add: wp_def throw_def)

lemma wp_getS [simp]: "wp (getS f) Q E = (\<lambda>s. Q (f s) s)"
  by (rule ext) (simp add: wp_def getS_def)

lemma wp_modifyS [simp]: "wp (modifyS g) Q E = (\<lambda>s. Q () (g s))"
  by (rule ext) (simp add: wp_def modifyS_def)

lemma wp_seqE [simp]: "wp (seqE m f) Q E = wp m (\<lambda>x. wp (f x) Q E) E"
  by (rule ext) (simp add: wp_def seqE_def split: prod.split sum.split)

lemma wp_tryE [simp]: "wp (tryE m h f) Q E = wp m (\<lambda>x. wp (f x) Q E) (\<lambda>e. wp (h e) Q E)"
  by (rule ext) (simp add: wp_def tryE_def split: prod.split sum.split)

lemma wp_conseq:
  assumes "wp m Q E s" "\<And>x s. Q x s \<Longrightarrow> Q' x s" "\<And>e s. E e s \<Longrightarrow> E' e s"
  shows "wp m Q' E' s"
  using assms by (auto simp: wp_def split: prod.splits sum.splits)

lemma wpD:
  assumes "wp m Q E s"
  shows "m s = (Inr x, s') \<Longrightarrow> Q x s'" and "m s = (Inl e, s') \<Longrightarrow> E e s'"
  using assms by (auto simp: wp_def)

text \<open>The loop rules: an invariant that may speak of the elements already processed.\<close>

lemma wp_forE:
  assumes "I [] s"
    and "\<And>pre x post s. xs = pre @ x # post \<Longrightarrow> I pre s \<Longrightarrow> wp (f x) (\<lambda>_. I (pre @ [x])) E s"
  shows "wp (forE xs f) (\<lambda>_. I xs) E s"
proof -
  have "xs = pre @ post \<Longrightarrow> I pre s \<Longrightarrow> wp (forE post f) (\<lambda>_. I xs) E s" for pre post s
  proof (induction post arbitrary: pre s)
    case (Cons x post)
    then have "wp (f x) (\<lambda>_. I (pre @ [x])) E s" using assms(2) by blast
    then show ?case
      unfolding forE.simps wp_seqE using Cons.IH [of "pre @ [x]"] Cons.prems(1)
      by (elim wp_conseq) simp_all
  qed simp
  from this [of "[]" xs] assms(1) show ?thesis by simp
qed

lemma wp_forJoin:
  assumes "I s" and "\<And>x s. x \<in> set xs \<Longrightarrow> I s \<Longrightarrow> wp (f x) (\<lambda>_. I) (\<lambda>_. I) s"
  shows "wp (forJoin xs f) (\<lambda>_. I) E s"
  using assms
proof (induction xs arbitrary: s)
  case (Cons x xs)
  have "wp (f x) (\<lambda>_. I) (\<lambda>_. I) s" using Cons.prems by simp
  moreover have "wp (forJoin xs f) (\<lambda>_. I) E s" if "I s" for s
    using Cons.IH [OF that] Cons.prems(2) by simp
  ultimately show ?case
    by simp (elim wp_conseq; simp)
qed simp

text \<open>When a joined loop reports no error, every iteration went through.\<close>

lemma wp_forJoin_none:
  assumes "I [] s" "J s" and IJ: "\<And>pre s. I pre s \<Longrightarrow> J s"
    and step: "\<And>pre x post s. xs = pre @ x # post \<Longrightarrow> I pre s \<Longrightarrow> wp (f x) (\<lambda>_. I (pre @ [x])) (\<lambda>_. J) s"
    and rest: "\<And>x s. x \<in> set xs \<Longrightarrow> J s \<Longrightarrow> wp (f x) (\<lambda>_. J) (\<lambda>_. J) s"
  shows "wp (forJoin xs f) (\<lambda>es s. J s \<and> (es = [] \<longrightarrow> I xs s)) E s"
proof -
  have fail: "set post \<subseteq> set xs \<Longrightarrow> J s \<Longrightarrow> wp (forJoin post f) (\<lambda>_. J) E s" for post s
    using rest by (intro wp_forJoin) auto
  have "xs = pre @ post \<Longrightarrow> I pre s \<Longrightarrow>
      wp (forJoin post f) (\<lambda>es s. J s \<and> (es = [] \<longrightarrow> I xs s)) E s" for pre post s
  proof (induction post arbitrary: pre s)
    case Nil
    then show ?case using IJ by simp
  next
    case (Cons x post)
    have "wp (f x) (\<lambda>_. I (pre @ [x])) (\<lambda>_. J) s" using step Cons.prems by blast
    moreover have "wp (forJoin post f) (\<lambda>es s. J s) E s" if "J s" for s
      using fail [of post] that Cons.prems(1) by auto
    ultimately show ?case
      using Cons.IH [of "pre @ [x]"] Cons.prems(1) by simp (elim wp_conseq; simp)
  qed
  from this [of "[]" xs] assms(1) show ?thesis by simp
qed

lemma seqE_elim:
  assumes "seqE m f s = (r, s')"
  obtains (fails) e where "m s = (Inl e, s')" "r = Inl e"
  | (passes) x s1 where "m s = (Inr x, s1)" "f x s1 = (r, s')"
  using assms by (auto simp: seqE_def split: prod.splits sum.splits)

section \<open>Arithmetic lemmas\<close>

lemma int64_id: "- (2 ^ 63) \<le> x \<Longrightarrow> x < 2 ^ 63 \<Longrightarrow> int64 x = x"
  by (simp add: int64_def)

lemma int64_range: "- (2 ^ 63) \<le> int64 x" "int64 x < 2 ^ 63"
  by (simp_all add: int64_def)

lemma sat64_range: "- (2 ^ 63) \<le> sat64 x" "sat64 x < 2 ^ 63"
  by (simp_all add: sat64_def)

text \<open>Up to about 292 years, whole seconds convert to a duration without wrap-around.\<close>

lemma seconds_exact: "\<bar>n\<bar> \<le> 9223372036 \<Longrightarrow> seconds n = n * Second"
  by (simp add: seconds_def Second_def int64_id)

lemma time_Sub_None: "time_Sub now None = 2 ^ 63 - 1"
  by (simp add: time_Sub_def)

text \<open>A measured duration reaches a threshold exactly when the clock has advanced by it.\<close>

lemma le_time_Sub_iff: "d < 2 ^ 63 \<Longrightarrow> - (2 ^ 63) < d \<Longrightarrow> d \<le> time_Sub now (Some t) \<longleftrightarrow> t + d \<le> now"
  by (auto simp: time_Sub_def sat64_def max_def min_def)

lemma time_Sub_mono: "a \<le> b \<Longrightarrow> time_Sub a t \<le> time_Sub b t"
  by (auto simp: time_Sub_def sat64_def max_def min_def split: option.splits)

lemma f64_le_finite: "f64_le x (Finite y) \<longleftrightarrow> x = NegInf \<or> (\<exists>q. x = Finite q \<and> q \<le> y)"
  by (cases x) auto

end
