(* ===== verification/Go_Strings.thy ===== *)
theory Go_Strings
  imports Prelude "HOL-Library.Log_Nat"
begin

text \<open>
  The parts of Go's \<^verbatim>\<open>strings\<close>, \<^verbatim>\<open>bufio\<close> and \<^verbatim>\<open>strconv\<close> packages the agent parses its input with. A Go
  string is its byte sequence, a list of characters.
\<close>

section \<open>White space\<close>

text \<open>
  The UTF-8 encodings of the runes for which \<^verbatim>\<open>unicode.IsSpace\<close> holds. No encoding is a proper prefix or
  suffix of another and none starts inside the encoding of a different rune, so matching them byte by
  byte finds the same white space as decoding runes.
\<close>

definition ascii_space :: "char \<Rightarrow> bool" where
  "ascii_space c \<longleftrightarrow> (let n = (of_char c :: nat) in n = 32 \<or> 9 \<le> n \<and> n \<le> 13)"

definition wide_spaces :: "string list" where
  "wide_spaces = map (map char_of)
     ([[0xC2, 0x85], [0xC2, 0xA0], [0xE1, 0x9A, 0x80]]
      @ map (\<lambda>n. [0xE2, 0x80, n]) ([0x80..<0x8B] @ [0xA8, 0xA9, 0xAF])
      @ [[0xE2, 0x81, 0x9F], [0xE3, 0x80, 0x80 :: nat]])"

text \<open>The length of the white-space rune a string starts with, \<open>0\<close> when there is none.\<close>

definition lead_space :: "string list \<Rightarrow> string \<Rightarrow> nat" where
  "lead_space wide s =
     (case s of
        [] \<Rightarrow> 0
      | c # _ \<Rightarrow>
          if ascii_space c then 1
          else if (of_char c :: nat) < 128 then 0
          else (case List.find (\<lambda>r. take (length r) s = r) wide of None \<Rightarrow> 0 | Some r \<Rightarrow> length r))"

function strip :: "string list \<Rightarrow> string \<Rightarrow> string" where
  "strip wide s = (if lead_space wide s = 0 then s else strip wide (drop (lead_space wide s) s))"
  by pat_completeness auto
termination
  by (relation "measure (\<lambda>(_, s). length s)") (auto simp: lead_space_def split: list.splits)

declare strip.simps [simp del]

definition TrimSpace :: "string \<Rightarrow> string" where
  "TrimSpace s = rev (strip (map rev wide_spaces) (rev (strip wide_spaces s)))"

function fields_from :: "string \<Rightarrow> string \<Rightarrow> string list" where
  "fields_from token s =
     (case s of
        [] \<Rightarrow> (if token = [] then [] else [rev token])
      | c # t \<Rightarrow>
          if lead_space wide_spaces s = 0 then fields_from (c # token) t
          else (if token = [] then [] else [rev token])
                 @ fields_from [] (drop (lead_space wide_spaces s) s))"
  by pat_completeness auto
termination
  by (relation "measure (\<lambda>(_, s). length s)") auto

declare fields_from.simps [simp del]

definition Fields :: "string \<Rightarrow> string list" where
  "Fields s = fields_from [] s"

section \<open>Splitting and searching\<close>

fun Cut :: "char \<Rightarrow> string \<Rightarrow> (string \<times> string) option" where
  "Cut sep [] = None"
| "Cut sep (c # s) =
     (if c = sep then Some ([], s)
      else (case Cut sep s of None \<Rightarrow> None | Some (a, b) \<Rightarrow> Some (c # a, b)))"

fun Split :: "char \<Rightarrow> string \<Rightarrow> string list" where
  "Split sep [] = [[]]"
| "Split sep (c # s) =
     (if c = sep then [] # Split sep s
      else (case Split sep s of [] \<Rightarrow> [[c]] | p # ps \<Rightarrow> (c # p) # ps))"

definition HasPrefix :: "string \<Rightarrow> string \<Rightarrow> bool" where
  "HasPrefix s p \<longleftrightarrow> take (length p) s = p"

definition TrimSuffix :: "string \<Rightarrow> string \<Rightarrow> string" where
  "TrimSuffix s p = (if HasPrefix (rev s) (rev p) then take (length s - length p) s else s)"

definition ContainsAny :: "string \<Rightarrow> string \<Rightarrow> bool" where
  "ContainsAny s cs = list_ex (\<lambda>c. c \<in> set cs) s"

text \<open>
  ASCII lower case. The callers only compare the result with ASCII words, where the other runes matter
  in two cases: the Kelvin sign and the dotted capital I lower to ASCII letters.
\<close>

definition lower_char :: "char \<Rightarrow> char" where
  "lower_char c = (let n = (of_char c :: nat) in if 65 \<le> n \<and> n \<le> 90 then char_of (n + 32) else c)"

definition dotted_I :: string where "dotted_I = map char_of [0xC4, 0xB0 :: nat]"
definition kelvin :: string where "kelvin = map char_of [0xE2, 0x84, 0xAA :: nat]"

function ToLower :: "string \<Rightarrow> string" where
  "ToLower [] = []"
| "ToLower (c # s) =
     (if HasPrefix (c # s) dotted_I then CHR ''i'' # ToLower (drop 1 s)
      else if HasPrefix (c # s) kelvin then CHR ''k'' # ToLower (drop 2 s)
      else lower_char c # ToLower s)"
  by pat_completeness auto
termination
  by (relation "measure length") auto

section \<open>Lines\<close>

text \<open>
  \<^verbatim>\<open>bufio.Scanner\<close> with \<^verbatim>\<open>ScanLines\<close>: lines end at a newline or at the end of the input, one trailing
  carriage return is dropped, and a line of 64 KiB or more stops the scan with an error (\<open>True\<close>).
\<close>

definition newline :: char where "newline = char_of (10 :: nat)"
definition carriage_return :: char where "carriage_return = char_of (13 :: nat)"

definition MaxScanTokenSize :: nat where "MaxScanTokenSize = 65536"

definition dropCR :: "string \<Rightarrow> string" where
  "dropCR l = (if l \<noteq> [] \<and> last l = carriage_return then butlast l else l)"

definition raw_lines :: "string \<Rightarrow> string list" where
  "raw_lines data = (let ls = Split newline data in if last ls = [] then butlast ls else ls)"

fun scan_lines :: "string list \<Rightarrow> string list \<times> bool" where
  "scan_lines [] = ([], False)"
| "scan_lines (l # ls) =
     (if length l \<ge> MaxScanTokenSize then ([], True)
      else (case scan_lines ls of (out, err) \<Rightarrow> (dropCR l # out, err)))"

definition ScanLines :: "string \<Rightarrow> string list \<times> bool" where
  "ScanLines data = scan_lines (raw_lines data)"

section \<open>Numbers\<close>

definition is_digit :: "char \<Rightarrow> bool" where
  "is_digit c \<longleftrightarrow> (let n = (of_char c :: nat) in 48 \<le> n \<and> n \<le> 57)"

definition digit_val :: "char \<Rightarrow> int" where
  "digit_val c = of_char c - 48"

definition number_of :: "string \<Rightarrow> int" where
  "number_of s = foldl (\<lambda>n c. n * 10 + digit_val c) 0 s"

text \<open>\<^verbatim>\<open>strconv.ParseInt(s, 10, 64)\<close>; \<open>None\<close> is an error.\<close>

definition ParseInt :: "string \<Rightarrow> int option" where
  "ParseInt s =
     (let (neg, body) = (case s of c # t \<Rightarrow> if c = CHR ''-'' then (True, t)
                                  else if c = CHR ''+'' then (False, t) else (False, s)
                                | [] \<Rightarrow> (False, s));
          n = (if neg then - number_of body else number_of body)
      in if body = [] \<or> \<not> list_all is_digit body then None
         else if - (2 ^ 63) \<le> n \<and> n < 2 ^ 63 then Some n else None)"

subsection \<open>Floating point\<close>

definition hex_val :: "char \<Rightarrow> int option" where
  "hex_val c =
     (let n = (of_char (lower_char c) :: int) in
      if 48 \<le> n \<and> n \<le> 57 then Some (n - 48) else if 97 \<le> n \<and> n \<le> 102 then Some (n - 87) else None)"

definition round_half_even :: "int \<Rightarrow> int \<Rightarrow> int" where
  "round_half_even p q =
     (let d = p div q; r = 2 * (p mod q) in if r < q \<or> r = q \<and> even d then d else d + 1)"

text \<open>
  The \<^verbatim>\<open>float64\<close> nearest to the positive rational \<open>p / q\<close>, ties to even; \<open>None\<close> when it overflows. The
  unit in the last place is that of the value's binade, not below the subnormal one.
\<close>

definition pow2 :: "int \<Rightarrow> rat" where
  "pow2 e = (if 0 \<le> e then 2 ^ nat e else 1 / 2 ^ nat (- e))"

definition nearest_f64 :: "int \<Rightarrow> int \<Rightarrow> float64 option" where
  "nearest_f64 p q =
     (let e0 = bitlen p - bitlen q;
          e = (if pow2 e0 \<le> of_int p / of_int q then e0 else e0 - 1);
          u = max e (- 1022) - 52;
          n = (if 0 \<le> u then round_half_even p (q * 2 ^ nat u) else round_half_even (p * 2 ^ nat (- u)) q);
          x = of_int n * pow2 u
      in if x < pow2 1024 then Some (Finite x) else None)"

text \<open>The mantissa: digits with at most one point; underscores are skipped here and checked later.\<close>

record mantissa =
  mn_value :: int
  mn_fraction :: nat
  mn_dot :: bool
  mn_digits :: bool
  mn_underscore :: bool

fun read_mantissa :: "bool \<Rightarrow> string \<Rightarrow> mantissa \<Rightarrow> mantissa \<times> string" where
  "read_mantissa hex [] m = (m, [])"
| "read_mantissa hex (c # s) m =
     (if c = CHR ''_'' then read_mantissa hex s (m\<lparr>mn_underscore := True\<rparr>)
      else if c = CHR ''.'' then
        (if mn_dot m then (m, c # s) else read_mantissa hex s (m\<lparr>mn_dot := True\<rparr>))
      else
        (case (if hex then hex_val c else if is_digit c then Some (digit_val c) else None) of
           None \<Rightarrow> (m, c # s)
         | Some v \<Rightarrow>
             read_mantissa hex s (m\<lparr>mn_value := mn_value m * (if hex then 16 else 10) + v,
               mn_fraction := (if mn_dot m then mn_fraction m + 1 else mn_fraction m), mn_digits := True\<rparr>)))"

text \<open>Exponent digits; the accumulator stops growing at 10000, as in the library.\<close>

fun read_exponent :: "string \<Rightarrow> int \<Rightarrow> bool \<Rightarrow> int \<times> bool \<times> string" where
  "read_exponent [] e u = (e, u, [])"
| "read_exponent (c # s) e u =
     (if c = CHR ''_'' then read_exponent s e True
      else if is_digit c then read_exponent s (if e < 10000 then e * 10 + digit_val c else e) u
      else (e, u, c # s))"

datatype seen_char = SeenStart | SeenDigit | SeenUnderscore | SeenOther

fun underscores_separate :: "bool \<Rightarrow> string \<Rightarrow> seen_char \<Rightarrow> bool" where
  "underscores_separate hex [] saw = (saw \<noteq> SeenUnderscore)"
| "underscores_separate hex (c # s) saw =
     (if is_digit c \<or> hex \<and> hex_val c \<noteq> None then underscores_separate hex s SeenDigit
      else if c = CHR ''_'' then saw = SeenDigit \<and> underscores_separate hex s SeenUnderscore
      else saw \<noteq> SeenUnderscore \<and> underscores_separate hex s SeenOther)"

text \<open>The value of a number without sign, the whole string: \<open>m * 10 ^ e\<close> or \<open>m * 2 ^ e\<close>.\<close>

definition scaled_f64 :: "bool \<Rightarrow> int \<Rightarrow> int \<Rightarrow> float64 option" where
  "scaled_f64 hex m e =
     (let b = (if hex then 2 else 10) in
      if m = 0 then Some (Finite 0)
      else if 0 \<le> e then nearest_f64 (m * b ^ nat e) 1 else nearest_f64 m (b ^ nat (- e)))"

definition underscoreOK :: "string \<Rightarrow> bool" where
  "underscoreOK s =
     (case s of
        z # x # t \<Rightarrow>
          if z = CHR ''0'' \<and> lower_char x \<in> {CHR ''b'', CHR ''o'', CHR ''x''}
          then underscores_separate (lower_char x = CHR ''x'') t SeenDigit
          else underscores_separate False s SeenStart
      | _ \<Rightarrow> underscores_separate False s SeenStart)"

definition parse_unsigned :: "string \<Rightarrow> float64 option" where
  "parse_unsigned s =
     (let hex = (length s > 2 \<and> s ! 0 = CHR ''0'' \<and> lower_char (s ! 1) = CHR ''x'');
          (m, rest) = read_mantissa hex (if hex then drop 2 s else s)
             \<lparr>mn_value = 0, mn_fraction = 0, mn_dot = False, mn_digits = False, mn_underscore = False\<rparr>;
          shift = (if hex then 4 else 1) * int (mn_fraction m)
      in if \<not> mn_digits m then None
         else
           (case rest of
              [] \<Rightarrow> (if hex \<or> mn_underscore m \<and> \<not> underscoreOK s then None
                     else scaled_f64 hex (mn_value m) (- shift))
            | x # t \<Rightarrow>
                if lower_char x \<noteq> (if hex then CHR ''p'' else CHR ''e'') then None
                else
                  (let (neg, body) = (case t of c # t' \<Rightarrow> if c = CHR ''-'' then (True, t')
                                                    else if c = CHR ''+'' then (False, t') else (False, t)
                                              | [] \<Rightarrow> (False, t));
                       (e, u, rest') = read_exponent body 0 False
                   in if body = [] \<or> \<not> is_digit (hd body) \<or> rest' \<noteq> [] then None
                      else if (mn_underscore m \<or> u) \<and> \<not> underscoreOK s then None
                      else scaled_f64 hex (mn_value m) ((if neg then - e else e) - shift))))"

fun negate_f64 :: "float64 \<Rightarrow> float64" where
  "negate_f64 (Finite x) = Finite (- x)"
| "negate_f64 PosInf = NegInf"
| "negate_f64 NegInf = PosInf"
| "negate_f64 NaN = NaN"

text \<open>\<^verbatim>\<open>strconv.ParseFloat(s, 64)\<close>; \<open>None\<close> is an error, of syntax or of range.\<close>

definition ParseFloat :: "string \<Rightarrow> float64 option" where
  "ParseFloat s =
     (let (neg, signed, body) = (case s of c # t \<Rightarrow> if c = CHR ''-'' then (True, True, t)
                                    else if c = CHR ''+'' then (False, True, t) else (False, False, s)
                                  | [] \<Rightarrow> (False, False, s));
          word = map lower_char body
      in if word = ''inf'' \<or> word = ''infinity'' then Some (if neg then NegInf else PosInf)
         else if word = ''nan'' \<and> \<not> signed then Some NaN
         else map_option (if neg then negate_f64 else id) (parse_unsigned body))"

section \<open>Text without white space\<close>

definition plain_char :: "char \<Rightarrow> bool" where
  "plain_char c \<longleftrightarrow> (of_char c :: nat) < 128 \<and> \<not> ascii_space c"

definition plain_token :: "string \<Rightarrow> bool" where
  "plain_token s \<longleftrightarrow> s \<noteq> [] \<and> list_all plain_char s"

lemma lead_space_plain [simp]: "plain_char c \<Longrightarrow> lead_space wide (c # s) = 0"
  by (simp add: lead_space_def plain_char_def)

lemma lead_space_blank [simp]: "ascii_space c \<Longrightarrow> lead_space wide (c # s) = Suc 0"
  by (simp add: lead_space_def)

lemma ascii_space_blank [simp]: "ascii_space (CHR '' '')"
  by (simp add: ascii_space_def)

lemma strip_plain: "s = [] \<or> plain_char (hd s) \<Longrightarrow> strip wide s = s"
  by (cases s) (auto simp: strip.simps lead_space_def plain_char_def)

lemma strip_blank: "ascii_space c \<Longrightarrow> strip wide (c # s) = strip wide s"
  by (subst strip.simps) simp

lemma TrimSpace_plain: "s = [] \<or> plain_char (hd s) \<and> plain_char (last s) \<Longrightarrow> TrimSpace s = s"
  by (auto simp: TrimSpace_def strip_plain hd_rev)

lemma TrimSpace_blank [simp]: "TrimSpace (CHR '' '' # s) = TrimSpace s"
  by (simp add: TrimSpace_def strip_blank)

lemma TrimSpace_token: "plain_token s \<Longrightarrow> TrimSpace s = s"
  by (rule TrimSpace_plain) (auto simp: plain_token_def list_all_iff)

lemma fields_token: "list_all plain_char s \<Longrightarrow> fields_from acc (s @ t) = fields_from (rev s @ acc) t"
  by (induction s arbitrary: acc) (simp_all add: fields_from.simps [of _ "_ # _"])

fun unwords :: "string list \<Rightarrow> string" where
  "unwords [] = []"
| "unwords [w] = w"
| "unwords (w # v # ws) = w @ '' '' @ unwords (v # ws)"

lemma Fields_unwords: "list_all plain_token ws \<Longrightarrow> Fields (unwords ws) = ws"
proof (induction ws rule: unwords.induct)
  case 1
  show ?case by (simp add: Fields_def fields_from.simps)
next
  case (2 w)
  then show ?case using fields_token [of w "[]" "[]"] by (simp add: Fields_def plain_token_def fields_from.simps)
next
  case (3 w v ws)
  then show ?case
    using fields_token [of w "[]" "CHR '' '' # unwords (v # ws)"]
    by (simp add: Fields_def plain_token_def) (simp add: fields_from.simps [of "rev w" "_ # _"])
qed

section \<open>Splitting text\<close>

lemma Cut_first: "sep \<notin> set a \<Longrightarrow> Cut sep (a @ sep # b) = Some (a, b)"
  by (induction a) auto

lemma Split_first: "sep \<notin> set a \<Longrightarrow> Split sep (a @ sep # b) = a # Split sep b"
  by (induction a) auto

lemma Split_not_Nil [simp]: "Split sep s \<noteq> []"
  by (induction s) (auto split: list.splits)

lemma raw_lines_first: "newline \<notin> set a \<Longrightarrow> raw_lines (a @ newline # b) = a # raw_lines b"
  by (simp add: raw_lines_def Split_first Let_def)

lemma raw_lines_Nil [simp]: "raw_lines [] = []"
  by (simp add: raw_lines_def)

lemma newline_chars [simp]:
  "newline \<noteq> CHR '':''" "newline \<noteq> CHR '' ''" "CHR '':'' \<noteq> newline" "CHR '' '' \<noteq> newline"
  by code_simp+

lemma plain_char_CR: "plain_char c \<Longrightarrow> c \<noteq> carriage_return" "plain_char c \<Longrightarrow> c \<noteq> newline"
  by (auto simp: plain_char_def ascii_space_def carriage_return_def newline_def)

section \<open>Reading numbers back\<close>

lemma digit_char_val [simp]: "digit_val (digit_char n) = int (n mod 10)"
proof -
  have "digit_val (digit_char n) = int (of_char (digit_char n)) - 48"
    by (simp only: digit_val_def of_nat_of_char)
  then show ?thesis by simp
qed

lemma digit_char_props [simp]: "is_digit (digit_char n)" "plain_char (digit_char n)"
  by (simp_all add: is_digit_def plain_char_def ascii_space_def Let_def)

lemma utoa_props: "list_all is_digit (utoa n) \<and> list_all plain_char (utoa n) \<and> utoa n \<noteq> [] \<and> number_of (utoa n) = int n"
proof (induction n rule: utoa.induct)
  case (1 n)
  show ?case
  proof (cases "n < 10")
    case True
    then show ?thesis by (simp add: utoa.simps [of n] number_of_def del: digit_char.simps)
  next
    case False
    then show ?thesis
      using 1 by (simp add: utoa.simps [of n] number_of_def del: digit_char.simps)
        (metis div_mult_mod_eq of_nat_add of_nat_mult of_nat_numeral zdiv_int zmod_int)
  qed
qed

lemma ParseInt_itoa:
  assumes "- (2 ^ 63) \<le> n" "n < 2 ^ 63"
  shows "ParseInt (itoa n) = Some n"
proof (cases "n < 0")
  case True
  then show ?thesis
    using assms utoa_props [of "nat (- n)"] by (simp add: ParseInt_def itoa_def)
next
  case False
  obtain c t where c: "utoa (nat n) = c # t" using utoa_props [of "nat n"] by (cases "utoa (nat n)") auto
  then have "is_digit c" using utoa_props [of "nat n"] by simp
  then have "c \<noteq> CHR ''-''" "c \<noteq> CHR ''+''" by (auto simp: is_digit_def)
  then show ?thesis
    using False assms utoa_props [of "nat n"] by (simp add: ParseInt_def itoa_def c)
qed

end
