(* ===== verification/Health.thy ===== *)
theory Health
  imports Go_Strings
begin

text \<open>
  The health supervisor of \<^verbatim>\<open>agent/internal/health\<close> (\<^verbatim>\<open>model.go\<close>, \<^verbatim>\<open>supervisor.go\<close>, \<^verbatim>\<open>systemd.go\<close>) and the gates
  of \<^verbatim>\<open>agent/internal/app\<close> that read its snapshots (\<^verbatim>\<open>system_health_gate.go\<close>, \<^verbatim>\<open>runtime_prerequisite_health.go\<close>).
  Checks, repairers, the clock and JSON are parameters; every system call on the state file may fail.
\<close>

section \<open>Data\<close>

datatype health_state =
    Healthy
  | Degraded
  | Recovering
  | ConfigValidating
  | RollingBack
  | HealthFailedSafe
  | HealthOther string

record check_result =
  hr_Name :: string
  hr_OK :: bool
  hr_Critical :: bool
  hr_Repairable :: bool
  hr_Message :: string

record repair_record =
  rp_Check :: string
  rp_Attempt :: int
  rp_Result :: string
  rp_Error :: string

text \<open>A nil map reads as the empty one, and every write is behind the code's nil checks.\<close>

record circuit =
  cc_Attempts :: "(string, int) fmap"
  cc_NextAllowedUTC :: "(string, gtime) fmap"
  cc_FailedReason :: string

record snapshot =
  sn_Version :: int
  sn_State :: health_state
  sn_CheckedAt :: gtime
  sn_Results :: "check_result list"
  sn_Repairs :: "repair_record list"
  sn_Circuit :: circuit
  sn_Generation :: "64 word"

definition no_circuit :: circuit where
  "no_circuit = \<lparr>cc_Attempts = fmempty, cc_NextAllowedUTC = fmempty, cc_FailedReason = ''''\<rparr>"

definition NewSnapshot :: snapshot where
  "NewSnapshot =
     \<lparr>sn_Version = 1, sn_State = Healthy, sn_CheckedAt = None, sn_Results = [], sn_Repairs = [],
      sn_Circuit = no_circuit, sn_Generation = 0\<rparr>"

text \<open>\<^verbatim>\<open>Snapshot{}\<close>, which accompanies an error of \<^verbatim>\<open>Load\<close>.\<close>

definition zero_snapshot :: snapshot where
  "zero_snapshot = NewSnapshot\<lparr>sn_Version := 0, sn_State := HealthOther ''''\<rparr>"

section \<open>The supervisor\<close>

record 'x health_check =
  hk_Name :: string
  hk_Run :: "'x \<Rightarrow> check_result \<times> 'x"

type_synonym 'x repairer = "'x \<Rightarrow> string option \<times> 'x"

record 'x supervisor =
  sv_Checks :: "'x health_check list"
  sv_Repairers :: "(string, 'x repairer) fmap"
  sv_StatePath :: string
  sv_MaxRepairAttempts :: int
  sv_BaseBackoff :: duration
  sv_MaxBackoff :: duration
  sv_Now :: "'x \<Rightarrow> instant \<times> 'x"
  sv_encode :: "snapshot \<Rightarrow> string option"
  sv_decode :: "string \<Rightarrow> string + snapshot"

definition supervisor_defaults :: "'x supervisor \<Rightarrow> 'x supervisor" where
  "supervisor_defaults s =
     s\<lparr>sv_MaxRepairAttempts := (if sv_MaxRepairAttempts s \<le> 0 then 5 else sv_MaxRepairAttempts s),
       sv_BaseBackoff := (if sv_BaseBackoff s \<le> 0 then 30 * Second else sv_BaseBackoff s),
       sv_MaxBackoff := (if sv_MaxBackoff s \<le> 0 then 15 * Minute else sv_MaxBackoff s)\<rparr>"

datatype health_error = HealthIO | BadJSON string | BadVersion int | Unencodable

record 'x health_world =
  hw_file :: "string option"
  hw_fault :: "nat \<Rightarrow> bool"
  hw_calls :: nat
  hw_env :: 'x

type_synonym ('x, 'a) health_proc = "('x health_world, health_error, 'a) proc"

definition health_io :: "('x, unit) health_proc" where
  "health_io = (\<lambda>w. let n = hw_calls w; w' = w\<lparr>hw_calls := n + 1\<rparr> in
     if hw_fault w n then (Inl HealthIO, w') else (Inr (), w'))"

definition Load_health :: "'x supervisor \<Rightarrow> ('x, snapshot) health_proc" where
  "Load_health s =
     (if sv_StatePath s = '''' then return NewSnapshot
      else
        seqE health_io (\<lambda>_.
        seqE (getS hw_file) (\<lambda>b.
        case b of
          None \<Rightarrow> return NewSnapshot
        | Some b \<Rightarrow>
            (case sv_decode s b of
               Inl e \<Rightarrow> throw (BadJSON e)
             | Inr snap \<Rightarrow> if sn_Version snap \<noteq> 1 then throw (BadVersion (sn_Version snap)) else return snap))))"

text \<open>
  The directory is made; the temporary file is created, its mode set, written, synced and closed; the rename
  installs it; the directory is opened and synced.
\<close>

definition Save_health :: "'x supervisor \<Rightarrow> snapshot \<Rightarrow> ('x, unit) health_proc" where
  "Save_health s snap =
     (if sv_StatePath s = '''' then return ()
      else
        (case sv_encode s snap of
           None \<Rightarrow> throw Unencodable
         | Some b \<Rightarrow>
             seqE (forE [0..<7::nat] (\<lambda>_. health_io)) (\<lambda>_.
             seqE (modifyS (\<lambda>w. w\<lparr>hw_file := Some (b @ [newline])\<rparr>)) (\<lambda>_.
             forE [0..<2::nat] (\<lambda>_. health_io)))))"

fun backoff_loop :: "duration \<Rightarrow> nat \<Rightarrow> duration \<Rightarrow> duration" where
  "backoff_loop mx 0 d = (if d > mx then mx else d)"
| "backoff_loop mx (Suc n) d = (if d \<ge> go_div mx 2 then mx else backoff_loop mx n (int64 (d * 2)))"

definition backoff :: "'x supervisor \<Rightarrow> int \<Rightarrow> duration" where
  "backoff s attempt = backoff_loop (sv_MaxBackoff s) (nat (attempt - 1)) (sv_BaseBackoff s)"

subsection \<open>One check\<close>

definition set_circuit :: "(circuit \<Rightarrow> circuit) \<Rightarrow> snapshot \<Rightarrow> snapshot" where
  "set_circuit f snap = snap\<lparr>sn_Circuit := f (sn_Circuit snap)\<rparr>"

definition attempts_of :: "snapshot \<Rightarrow> string \<Rightarrow> int" where
  "attempts_of snap n = (case fmlookup (cc_Attempts (sn_Circuit snap)) n of None \<Rightarrow> 0 | Some k \<Rightarrow> k)"

definition clear_circuit :: "string \<Rightarrow> snapshot \<Rightarrow> snapshot" where
  "clear_circuit n =
     set_circuit (\<lambda>c. c\<lparr>cc_Attempts := fmdrop n (cc_Attempts c), cc_NextAllowedUTC := fmdrop n (cc_NextAllowedUTC c)\<rparr>)"

definition degrade :: "check_result \<Rightarrow> snapshot \<Rightarrow> snapshot" where
  "degrade res snap =
     (if hr_Critical res then snap\<lparr>sn_State := Degraded\<rparr>
      else if sn_State snap = Healthy then snap\<lparr>sn_State := Degraded\<rparr>
      else snap)"

definition exhausted :: "string \<Rightarrow> snapshot \<Rightarrow> snapshot" where
  "exhausted n snap =
     set_circuit (\<lambda>c. c\<lparr>cc_FailedReason := ''repair attempts exhausted for '' @ n\<rparr>) (snap\<lparr>sn_State := HealthFailedSafe\<rparr>)"

definition recovering :: "snapshot \<Rightarrow> snapshot" where
  "recovering snap = (if sn_State snap \<noteq> HealthFailedSafe then snap\<lparr>sn_State := Recovering\<rparr> else snap)"

definition attempt_repair ::
  "'x supervisor \<Rightarrow> check_result \<Rightarrow> 'x repairer \<Rightarrow> int \<Rightarrow> snapshot \<Rightarrow> 'x \<Rightarrow> snapshot \<times> 'x" where
  "attempt_repair s res repair attempt snap x =
     (let n = hr_Name res;
          snap = set_circuit (\<lambda>c. c\<lparr>cc_Attempts := fmupd n attempt (cc_Attempts c)\<rparr>) snap;
          (err, x) = repair x;
          rp = \<lparr>rp_Check = n, rp_Attempt = attempt,
                rp_Result = (case err of None \<Rightarrow> ''attempted'' | Some _ \<Rightarrow> ''failed''),
                rp_Error = (case err of None \<Rightarrow> '''' | Some e \<Rightarrow> e)\<rparr>;
          snap = snap\<lparr>sn_Repairs := sn_Repairs snap @ [rp]\<rparr>;
          (now, x) = sv_Now s x;
          snap = set_circuit (\<lambda>c. c\<lparr>cc_NextAllowedUTC := fmupd n (time_Add now (backoff s attempt)) (cc_NextAllowedUTC c)\<rparr>) snap
      in (if err \<noteq> None \<and> attempt \<ge> sv_MaxRepairAttempts s \<and> hr_Critical res then exhausted n snap
          else recovering snap, x))"

definition try_repair ::
  "'x supervisor \<Rightarrow> check_result \<Rightarrow> 'x repairer \<Rightarrow> snapshot \<Rightarrow> 'x \<Rightarrow> snapshot \<times> 'x" where
  "try_repair s res repair snap x =
     (let n = hr_Name res; attempt = attempts_of snap n in
      if attempt \<ge> sv_MaxRepairAttempts s then (if hr_Critical res then exhausted n snap else snap, x)
      else
        (case fmlookup (cc_NextAllowedUTC (sn_Circuit snap)) n of
           Some (Some t) \<Rightarrow>
             (let (now, x) = sv_Now s x in
              if now < t then (recovering snap, x) else attempt_repair s res repair (attempt + 1) snap x)
         | _ \<Rightarrow> attempt_repair s res repair (attempt + 1) snap x))"

definition named_result :: "'x health_check \<Rightarrow> check_result \<Rightarrow> check_result" where
  "named_result c res = (if hr_Name res = '''' then res\<lparr>hr_Name := hk_Name c\<rparr> else res)"

definition check_step :: "'x supervisor \<Rightarrow> bool \<Rightarrow> 'x health_check \<Rightarrow> snapshot \<times> 'x \<Rightarrow> snapshot \<times> 'x" where
  "check_step s autofix c = (\<lambda>(snap, x).
     let (res, x) = hk_Run c x;
         res = named_result c res;
         snap = snap\<lparr>sn_Results := sn_Results snap @ [res]\<rparr>
     in if hr_OK res then (clear_circuit (hr_Name res) snap, x)
        else
          (let snap = degrade res snap in
           if \<not> autofix \<or> \<not> hr_Repairable res then (snap, x)
           else
             (case fmlookup (sv_Repairers s) (hr_Name res) of
                None \<Rightarrow> (snap, x)
              | Some repair \<Rightarrow> try_repair s res repair snap x)))"

subsection \<open>A run\<close>

definition fresh_snapshot :: "instant \<Rightarrow> snapshot \<Rightarrow> snapshot" where
  "fresh_snapshot now snap =
     snap\<lparr>sn_CheckedAt := Some now, sn_Generation := sn_Generation snap + 1, sn_Results := [], sn_Repairs := [],
          sn_State := Healthy\<rparr>"

definition run_checks :: "'x supervisor \<Rightarrow> bool \<Rightarrow> snapshot \<Rightarrow> 'x \<Rightarrow> snapshot \<times> 'x" where
  "run_checks s autofix snap x = fold (check_step s autofix) (sort_key hk_Name (sv_Checks s)) (snap, x)"

definition Run :: "'x supervisor \<Rightarrow> bool \<Rightarrow> ('x, snapshot) health_proc" where
  "Run sv autofix =
     (let s = supervisor_defaults sv in
      seqE (tryE (Load_health s) (\<lambda>_. return zero_snapshot) return) (\<lambda>loaded.
      seqE (\<lambda>w. let (now, x) = sv_Now s (hw_env w) in (Inr now, w\<lparr>hw_env := x\<rparr>)) (\<lambda>now.
      let snap = fresh_snapshot now (if sn_Version loaded = 0 then NewSnapshot else loaded) in
      seqE (\<lambda>w. let (snap, x) = run_checks s autofix snap (hw_env w) in (Inr snap, w\<lparr>hw_env := x\<rparr>)) (\<lambda>snap.
      seqE (Save_health s snap) (\<lambda>_.
      return snap)))))"

section \<open>Systemd units\<close>

text \<open>
  A unit is checked by two commands under one deadline and repaired by a third; \<open>run\<close> runs a command with the
  time the whole check or repair has.
\<close>

type_synonym 'x unit_runner = "duration \<Rightarrow> string list \<Rightarrow> 'x \<Rightarrow> (string \<times> string option) \<times> 'x"

record 'x systemd_unit =
  su_Runner :: "'x unit_runner"
  su_Unit :: string
  su_Critical :: bool
  su_Timeout :: duration

definition unit_name :: "'x systemd_unit \<Rightarrow> string" where
  "unit_name c = ''systemd:'' @ su_Unit c"

definition says :: "string \<Rightarrow> string \<times> string option \<Rightarrow> bool" where
  "says expected out \<longleftrightarrow> snd out = None \<and> TrimSpace (fst out) = expected"

definition SystemdUnitCheck_Run :: "'x systemd_unit \<Rightarrow> 'x \<Rightarrow> check_result \<times> 'x" where
  "SystemdUnitCheck_Run c x =
     (let r = \<lparr>hr_Name = unit_name c, hr_OK = False, hr_Critical = su_Critical c, hr_Repairable = True, hr_Message = ''''\<rparr>;
          timeout = (if su_Timeout c \<le> 0 then 5 * Second else su_Timeout c);
          (enabled, x) = su_Runner c timeout [''systemctl'', ''is-enabled'', su_Unit c] x
      in if \<not> says ''enabled'' enabled then (r\<lparr>hr_Message := ''service is not enabled''\<rparr>, x)
         else
           (let (active, x) = su_Runner c timeout [''systemctl'', ''is-active'', su_Unit c] x in
            if \<not> says ''active'' active then (r\<lparr>hr_Message := ''service is not active''\<rparr>, x)
            else (r\<lparr>hr_OK := True\<rparr>, x)))"

definition SystemdUnitRepair_Repair :: "'x systemd_unit \<Rightarrow> 'x \<Rightarrow> string option \<times> 'x" where
  "SystemdUnitRepair_Repair r x =
     (let timeout = (if su_Timeout r \<le> 0 then 15 * Second else su_Timeout r);
          ((out, err), x) = su_Runner r timeout [''systemctl'', ''enable'', ''--now'', su_Unit r] x
      in (case err of
            None \<Rightarrow> None
          | Some e \<Rightarrow> Some (''systemctl enable --now '' @ su_Unit r @ '': '' @ e @ '': '' @ TrimSpace out), x))"

section \<open>The gates\<close>

definition criticalAgentHealthSafe :: "snapshot \<Rightarrow> bool" where
  "criticalAgentHealthSafe snap \<longleftrightarrow>
     sn_State snap \<noteq> HealthFailedSafe \<and> list_all (\<lambda>r. \<not> (hr_Critical r \<and> \<not> hr_OK r)) (sn_Results snap)"

datatype gate_reason =
    SnapshotUnavailable
  | SnapshotUnreadable string
  | UnsupportedVersion int
  | NoTimestamp
  | FromTheFuture
  | Stale duration
  | SystemFailedSafe string
  | CriticalUnhealthy string string
  | CriticalHealthy

text \<open>\<open>file\<close> is what reading the snapshot gives, \<open>None\<close> on any error.\<close>

definition systemHealthSafe ::
  "(string \<Rightarrow> string + snapshot) \<Rightarrow> string option \<Rightarrow> duration \<Rightarrow> instant \<Rightarrow> bool \<times> gate_reason" where
  "systemHealthSafe decode file maxAge now =
     (case file of
        None \<Rightarrow> (False, SnapshotUnavailable)
      | Some b \<Rightarrow>
          (case decode b of
             Inl e \<Rightarrow> (False, SnapshotUnreadable e)
           | Inr snap \<Rightarrow>
               if sn_Version snap \<noteq> 1 then (False, UnsupportedVersion (sn_Version snap))
               else if sn_CheckedAt snap = None then (False, NoTimestamp)
               else
                 (let age = time_Sub now (sn_CheckedAt snap) in
                  if maxAge > 0 \<and> age < 0 then (False, FromTheFuture)
                  else if maxAge > 0 \<and> age > maxAge then (False, Stale age)
                  else if sn_State snap = HealthFailedSafe
                  then (False, SystemFailedSafe (cc_FailedReason (sn_Circuit snap)))
                  else
                    (case filter (\<lambda>r. hr_Critical r \<and> \<not> hr_OK r) (sn_Results snap) of
                       r # _ \<Rightarrow> (False, CriticalUnhealthy (hr_Name r) (hr_Message r))
                     | [] \<Rightarrow> (True, CriticalHealthy)))))"

definition runtimePrerequisiteCheck :: "string \<Rightarrow> string \<Rightarrow> 'x health_check" where
  "runtimePrerequisiteCheck hostID reason =
     (let name = ''host-prerequisite:'' @ hostID in
      \<lparr>hk_Name = name,
       hk_Run = (\<lambda>x. (\<lparr>hr_Name = name, hr_OK = False, hr_Critical = False, hr_Repairable = False, hr_Message = reason\<rparr>, x))\<rparr>)"

text \<open>\<^verbatim>\<open>runAgentHealth\<close>: a failing run is itself a failed critical check. \<open>text\<close> is \<^verbatim>\<open>err.Error()\<close>.\<close>

definition runAgentHealth ::
  "(health_error \<Rightarrow> string) \<Rightarrow> 'x supervisor \<Rightarrow> bool \<Rightarrow> 'x health_world \<Rightarrow> snapshot \<times> 'x health_world" where
  "runAgentHealth text s autofix w =
     (case Run s autofix w of
        (Inr snap, w') \<Rightarrow> (snap, w')
      | (Inl e, w') \<Rightarrow>
          (let (now, x) = sv_Now s (hw_env w') in
           (NewSnapshot\<lparr>sn_CheckedAt := Some now, sn_State := Degraded,
              sn_Results := [\<lparr>hr_Name = ''health.supervisor'', hr_OK = False, hr_Critical = True, hr_Repairable = False,
                              hr_Message = text e\<rparr>]\<rparr>, w'\<lparr>hw_env := x\<rparr>)))"

section \<open>Backoff\<close>

lemma go_div_two: "0 \<le> mx \<Longrightarrow> go_div mx 2 = mx div 2"
  by (cases "mx = 0") (simp_all add: go_div_def)

lemma backoff_loop_bounds:
  assumes "0 < d" "0 < mx" "mx < 2 ^ 63"
  shows "min d mx \<le> backoff_loop mx n d \<and> backoff_loop mx n d \<le> mx"
  using assms
proof (induction n arbitrary: d)
  case (Suc n)
  show ?case
  proof (cases "d \<ge> mx div 2")
    case False
    then have "int64 (d * 2) = d * 2" using Suc.prems by (intro int64_id) auto
    then show ?thesis using Suc.IH [of "d * 2"] Suc.prems False by (auto simp: go_div_two)
  qed (use Suc.prems in \<open>simp add: go_div_two\<close>)
qed simp

lemma backoff_loop_doubles:
  assumes "0 < d" "0 < mx" "mx < 2 ^ 63" "even mx"
  shows "backoff_loop mx n d = min (d * 2 ^ n) mx"
  using assms
proof (induction n arbitrary: d)
  case (Suc n)
  show ?case
  proof (cases "d \<ge> mx div 2")
    case True
    have "2 * d \<le> d * 2 ^ Suc n" using Suc.prems(1) by simp
    then have "mx \<le> d * 2 ^ Suc n" using True Suc.prems(4) by (auto elim!: evenE)
    then show ?thesis using True Suc.prems by (simp add: go_div_two)
  next
    case False
    then have "int64 (d * 2) = d * 2" using Suc.prems by (intro int64_id) auto
    then show ?thesis using Suc.IH [of "d * 2"] Suc.prems False by (simp add: go_div_two mult.assoc)
  qed
qed (auto simp: min_def)

section \<open>One check\<close>

lemma snapshot_parts [simp]:
  "sn_Results (set_circuit f snap) = sn_Results snap" "sn_State (set_circuit f snap) = sn_State snap"
  "sn_Repairs (set_circuit f snap) = sn_Repairs snap" "sn_Circuit (set_circuit f snap) = f (sn_Circuit snap)"
  "sn_Version (set_circuit f snap) = sn_Version snap" "sn_CheckedAt (set_circuit f snap) = sn_CheckedAt snap"
  by (simp_all add: set_circuit_def)

lemma frame_steps [simp]:
  "sn_Results (clear_circuit n snap) = sn_Results snap" "sn_Results (degrade r snap) = sn_Results snap"
  "sn_Results (exhausted n snap) = sn_Results snap" "sn_Results (recovering snap) = sn_Results snap"
  "sn_Version (clear_circuit n snap) = sn_Version snap" "sn_Version (degrade r snap) = sn_Version snap"
  "sn_Version (exhausted n snap) = sn_Version snap" "sn_Version (recovering snap) = sn_Version snap"
  "sn_CheckedAt (clear_circuit n snap) = sn_CheckedAt snap" "sn_CheckedAt (degrade r snap) = sn_CheckedAt snap"
  "sn_CheckedAt (exhausted n snap) = sn_CheckedAt snap" "sn_CheckedAt (recovering snap) = sn_CheckedAt snap"
  "sn_Repairs (clear_circuit n snap) = sn_Repairs snap" "sn_Repairs (degrade r snap) = sn_Repairs snap"
  "sn_Repairs (exhausted n snap) = sn_Repairs snap" "sn_Repairs (recovering snap) = sn_Repairs snap"
  "sn_Circuit (degrade r snap) = sn_Circuit snap" "sn_Circuit (recovering snap) = sn_Circuit snap"
  "cc_Attempts (sn_Circuit (exhausted n snap)) = cc_Attempts (sn_Circuit snap)"
  by (simp_all add: clear_circuit_def degrade_def exhausted_def recovering_def)

lemma state_steps:
  "sn_State (clear_circuit n snap) = sn_State snap" "sn_State (degrade r snap) \<noteq> Healthy"
  "sn_State (exhausted n snap) = HealthFailedSafe" "sn_State snap \<noteq> Healthy \<Longrightarrow> sn_State (recovering snap) \<noteq> Healthy"
  "sn_State (recovering snap) = HealthFailedSafe \<longleftrightarrow> sn_State snap = HealthFailedSafe"
  "sn_State (degrade r snap) = HealthFailedSafe \<Longrightarrow> sn_State snap = HealthFailedSafe"
  by (auto simp: clear_circuit_def degrade_def exhausted_def recovering_def split: if_splits)

text \<open>How a repair leaves a snapshot; \<open>rps\<close> are the repairs it records.\<close>

definition repaired :: "'x supervisor \<Rightarrow> check_result \<Rightarrow> snapshot \<Rightarrow> snapshot \<Rightarrow> repair_record list \<Rightarrow> bool" where
  "repaired s res snap snap' rps \<longleftrightarrow>
     sn_Results snap' = sn_Results snap \<and> sn_Version snap' = sn_Version snap \<and> sn_CheckedAt snap' = sn_CheckedAt snap
     \<and> sn_Repairs snap' = sn_Repairs snap @ rps \<and> map rp_Check rps = replicate (length rps) (hr_Name res)
     \<and> length rps \<le> 1 \<and> (rps \<noteq> [] \<longrightarrow> attempts_of snap (hr_Name res) < sv_MaxRepairAttempts s)
     \<and> (\<forall>n. attempts_of snap' n = attempts_of snap n + (if n = hr_Name res then int (length rps) else 0))
     \<and> (sn_State snap \<noteq> Healthy \<longrightarrow> sn_State snap' \<noteq> Healthy)
     \<and> (sn_State snap' = HealthFailedSafe \<longrightarrow> sn_State snap = HealthFailedSafe \<or> hr_Critical res)"

lemma attempt_repair_repaired:
  assumes "attempts_of snap (hr_Name res) = k" "k < sv_MaxRepairAttempts s"
  shows "\<exists>rp. repaired s res snap (fst (attempt_repair s res repair (k + 1) snap x)) [rp]"
proof -
  let ?n = "hr_Name res"
  obtain err x1 where err: "repair x = (err, x1)" by (cases "repair x")
  obtain now x2 where now: "sv_Now s x1 = (now, x2)" by (cases "sv_Now s x1")
  define rp where "rp = \<lparr>rp_Check = ?n, rp_Attempt = k + 1,
      rp_Result = (case err of None \<Rightarrow> ''attempted'' | Some _ \<Rightarrow> ''failed''),
      rp_Error = (case err of None \<Rightarrow> '''' | Some e \<Rightarrow> e)\<rparr>"
  define marked where "marked = set_circuit (\<lambda>c. c\<lparr>cc_Attempts := fmupd ?n (k + 1) (cc_Attempts c)\<rparr>) snap"
  define snap1 where "snap1 = set_circuit (\<lambda>c. c\<lparr>cc_NextAllowedUTC :=
      fmupd ?n (time_Add now (backoff s (k + 1))) (cc_NextAllowedUTC c)\<rparr>) (marked\<lparr>sn_Repairs := sn_Repairs marked @ [rp]\<rparr>)"
  have parts: "sn_Results snap1 = sn_Results snap" "sn_Version snap1 = sn_Version snap" "sn_CheckedAt snap1 = sn_CheckedAt snap"
      "sn_Repairs snap1 = sn_Repairs snap @ [rp]" "sn_State snap1 = sn_State snap"
      "cc_Attempts (sn_Circuit snap1) = fmupd ?n (k + 1) (cc_Attempts (sn_Circuit snap))"
    by (simp_all add: snap1_def marked_def)
  have upd: "attempts_of snap' m = attempts_of snap m + (if m = ?n then 1 else 0)"
    if "cc_Attempts (sn_Circuit snap') = cc_Attempts (sn_Circuit snap1)" for snap' m
    using that assms(1) by (auto simp: attempts_of_def parts)
  have res: "fst (attempt_repair s res repair (k + 1) snap x) =
      (if err \<noteq> None \<and> k + 1 \<ge> sv_MaxRepairAttempts s \<and> hr_Critical res then exhausted ?n snap1 else recovering snap1)"
    unfolding attempt_repair_def Let_def err now rp_def snap1_def marked_def by (simp add: err now)
  have "repaired s res snap (exhausted ?n snap1) [rp]" if "hr_Critical res"
    using that assms upd parts by (simp add: repaired_def state_steps rp_def)
  moreover have "repaired s res snap (recovering snap1) [rp]"
    using assms upd parts state_steps(4) [of snap1] by (simp add: repaired_def state_steps(5) rp_def)
  ultimately show ?thesis unfolding res by auto
qed

lemma repaired_none: "repaired s res snap snap []"
  by (simp add: repaired_def)

lemma try_repair_repaired: "\<exists>rps. repaired s res snap (fst (try_repair s res repair snap x)) rps"
proof (cases "attempts_of snap (hr_Name res) \<ge> sv_MaxRepairAttempts s")
  case True
  then have "repaired s res snap (fst (try_repair s res repair snap x)) []"
    using state_steps by (auto simp: try_repair_def Let_def repaired_def attempts_of_def)
  then show ?thesis by blast
next
  case False
  have quiet: "repaired s res snap (recovering snap) []"
    using state_steps by (auto simp: repaired_def attempts_of_def)
  show ?thesis
    using attempt_repair_repaired [OF refl, of snap res s repair] False quiet
    by (fastforce simp: try_repair_def Let_def split: option.split prod.split)
qed

definition reps :: "string \<Rightarrow> snapshot \<Rightarrow> int" where
  "reps n snap = int (length (filter (\<lambda>r. rp_Check r = n) (sn_Repairs snap)))"

lemma repaired_reps: "repaired s res snap snap' rps \<Longrightarrow> reps n snap' = reps n snap + (if n = hr_Name res then int (length rps) else 0)"
proof -
  assume r: "repaired s res snap snap' rps"
  then have "\<forall>rp\<in>set rps. rp_Check rp = hr_Name res"
    unfolding repaired_def by (metis in_set_replicate in_set_conv_nth length_map nth_map nth_mem)
  then have "filter (\<lambda>r. rp_Check r = n) rps = (if n = hr_Name res then rps else [])"
    by (induction rps) auto
  then show ?thesis using r by (auto simp: reps_def repaired_def)
qed

text \<open>What a check leaves: its result appended, and the state and the circuit moved accordingly.\<close>

definition stepped :: "'x supervisor \<Rightarrow> check_result \<Rightarrow> snapshot \<Rightarrow> snapshot \<Rightarrow> bool" where
  "stepped s res snap snap' \<longleftrightarrow>
     sn_Results snap' = sn_Results snap @ [res] \<and> sn_Version snap' = sn_Version snap \<and> sn_CheckedAt snap' = sn_CheckedAt snap
     \<and> (sn_State snap' = Healthy \<longleftrightarrow> sn_State snap = Healthy \<and> hr_OK res)
     \<and> (sn_State snap' = HealthFailedSafe \<longrightarrow> sn_State snap = HealthFailedSafe \<or> hr_Critical res \<and> \<not> hr_OK res)
     \<and> (\<forall>n. \<not> (hr_Name res = n \<and> hr_OK res) \<longrightarrow>
          attempts_of snap' n - reps n snap' = attempts_of snap n - reps n snap
          \<and> attempts_of snap' n \<le> max (attempts_of snap n) (sv_MaxRepairAttempts s))"

lemma stepped_repair:
  assumes "repaired s res (degrade res (snap\<lparr>sn_Results := sn_Results snap @ [res]\<rparr>)) snap' rps" "\<not> hr_OK res"
  shows "stepped s res snap snap'"
proof -
  let ?snap = "degrade res (snap\<lparr>sn_Results := sn_Results snap @ [res]\<rparr>)"
  have same: "attempts_of ?snap n = attempts_of snap n" "reps n ?snap = reps n snap" for n
    by (simp_all add: attempts_of_def reps_def)
  have "attempts_of snap' n - reps n snap' = attempts_of snap n - reps n snap" for n
    using assms(1) repaired_reps [OF assms(1), of n] same by (auto simp: repaired_def)
  moreover have "attempts_of snap' n \<le> max (attempts_of snap n) (sv_MaxRepairAttempts s)" for n
    using assms(1) same by (cases "rps = []") (auto simp: repaired_def le_Suc_eq)
  moreover have "sn_State snap' = HealthFailedSafe \<Longrightarrow> sn_State snap = HealthFailedSafe \<or> hr_Critical res"
    using assms(1) state_steps(6) [of res "snap\<lparr>sn_Results := sn_Results snap @ [res]\<rparr>"] by (auto simp: repaired_def)
  ultimately show ?thesis
    using assms state_steps(2) by (auto simp: stepped_def repaired_def)
qed

lemma check_step_stepped:
  "stepped s (named_result c (fst (hk_Run c x))) snap (fst (check_step s autofix c (snap, x)))"
proof -
  obtain res0 x1 where r: "hk_Run c x = (res0, x1)" by (cases "hk_Run c x")
  let ?res = "named_result c res0" and ?n = "hr_Name (named_result c res0)"
  let ?snap = "snap\<lparr>sn_Results := sn_Results snap @ [?res]\<rparr>"
  show ?thesis
  proof (cases "hr_OK ?res")
    case True
    have "stepped s ?res snap (clear_circuit ?n ?snap)"
      using True state_steps(1)
      by (auto simp: stepped_def reps_def attempts_of_def) (simp_all add: clear_circuit_def)
    then show ?thesis using True r by (simp add: check_step_def Let_def)
  next
    case False
    have "stepped s ?res snap (degrade ?res ?snap)"
      by (rule stepped_repair [OF repaired_none False])
    moreover have "stepped s ?res snap (fst (try_repair s ?res repair (degrade ?res ?snap) x1))" for repair
      using try_repair_repaired [of s ?res "degrade ?res ?snap" repair x1] stepped_repair False by blast
    ultimately show ?thesis using False r by (auto simp: check_step_def Let_def split: option.split)
  qed
qed

text \<open>Any number of checks.\<close>

definition checked :: "'x supervisor \<Rightarrow> check_result list \<Rightarrow> snapshot \<Rightarrow> snapshot \<Rightarrow> bool" where
  "checked s rs snap snap' \<longleftrightarrow>
     sn_Results snap' = sn_Results snap @ rs \<and> sn_Version snap' = sn_Version snap \<and> sn_CheckedAt snap' = sn_CheckedAt snap
     \<and> (sn_State snap' = Healthy \<longleftrightarrow> sn_State snap = Healthy \<and> (\<forall>r\<in>set rs. hr_OK r))
     \<and> (sn_State snap' = HealthFailedSafe \<longrightarrow> sn_State snap = HealthFailedSafe \<or> (\<exists>r\<in>set rs. hr_Critical r \<and> \<not> hr_OK r))
     \<and> (\<forall>n. (\<forall>r\<in>set rs. \<not> (hr_Name r = n \<and> hr_OK r)) \<longrightarrow>
          attempts_of snap' n - reps n snap' = attempts_of snap n - reps n snap
          \<and> attempts_of snap' n \<le> max (attempts_of snap n) (sv_MaxRepairAttempts s))"

lemma checkedD:
  assumes "checked s rs snap snap'" "sn_Results snap = []" "\<forall>r\<in>set (sn_Results snap'). \<not> (hr_Name r = n \<and> hr_OK r)"
  shows "attempts_of snap' n - reps n snap' = attempts_of snap n - reps n snap"
    "attempts_of snap' n \<le> max (attempts_of snap n) (sv_MaxRepairAttempts s)"
  using assms unfolding checked_def by simp_all

lemma checked_step:
  assumes "stepped s r snap snap1" "checked s rs snap1 snap'"
  shows "checked s (r # rs) snap snap'"
proof -
  have "attempts_of snap' n - reps n snap' = attempts_of snap n - reps n snap
      \<and> attempts_of snap' n \<le> max (attempts_of snap n) (sv_MaxRepairAttempts s)"
    if "\<forall>q\<in>set (r # rs). \<not> (hr_Name q = n \<and> hr_OK q)" for n
  proof -
    have "attempts_of snap1 n - reps n snap1 = attempts_of snap n - reps n snap
        \<and> attempts_of snap1 n \<le> max (attempts_of snap n) (sv_MaxRepairAttempts s)"
      using assms(1) that unfolding stepped_def by simp
    moreover have "attempts_of snap' n - reps n snap' = attempts_of snap1 n - reps n snap1
        \<and> attempts_of snap' n \<le> max (attempts_of snap1 n) (sv_MaxRepairAttempts s)"
      using assms(2) that unfolding checked_def by simp
    ultimately show ?thesis by linarith
  qed
  moreover have "sn_Results snap' = sn_Results snap @ r # rs" "sn_Version snap' = sn_Version snap"
      "sn_CheckedAt snap' = sn_CheckedAt snap"
      "sn_State snap' = Healthy \<longleftrightarrow> sn_State snap = Healthy \<and> (\<forall>q\<in>set (r # rs). hr_OK q)"
    using assms unfolding stepped_def checked_def by auto
  moreover have "sn_State snap' = HealthFailedSafe \<Longrightarrow> sn_State snap = HealthFailedSafe \<or> (\<exists>q\<in>set (r # rs). hr_Critical q \<and> \<not> hr_OK q)"
    using assms unfolding stepped_def checked_def by auto
  ultimately show ?thesis unfolding checked_def by blast
qed

lemma fold_checked: "\<exists>rs. length rs = length cs \<and> checked s rs snap (fst (fold (check_step s autofix) cs (snap, x)))"
proof (induction cs arbitrary: snap x)
  case Nil
  show ?case by (simp add: checked_def)
next
  case (Cons c cs)
  obtain snap1 x1 where step: "check_step s autofix c (snap, x) = (snap1, x1)" by (cases "check_step s autofix c (snap, x)")
  obtain rs where "length rs = length cs" "checked s rs snap1 (fst (fold (check_step s autofix) cs (snap1, x1)))"
    using Cons by blast
  then show ?case
    using checked_step [of s "named_result c (fst (hk_Run c x))" snap snap1] check_step_stepped [of s c x snap autofix] step
    by (metis fold_Cons comp_apply fst_conv length_Cons)
qed

lemma run_checks_checked:
  "\<exists>rs. length rs = length (sv_Checks s) \<and> checked s rs snap (fst (run_checks s autofix snap x))"
  unfolding run_checks_def using fold_checked [of "sort_key hk_Name (sv_Checks s)"] by simp

section \<open>Runs\<close>

text \<open>
  What a run relies on when its snapshot is read again: JSON gives back the version, the state, the time, the
  flags of the results, and the attempts of every name that is ASCII (malformed UTF-8 is replaced).
\<close>

definition result_flags :: "snapshot \<Rightarrow> (bool \<times> bool) list" where
  "result_flags snap = map (\<lambda>r. (hr_Critical r, hr_OK r)) (sn_Results snap)"

definition health_codec_ok :: "(snapshot \<Rightarrow> string option) \<Rightarrow> (string \<Rightarrow> string + snapshot) \<Rightarrow> bool" where
  "health_codec_ok enc dec \<longleftrightarrow>
     (\<forall>snap b. enc snap = Some b \<longrightarrow>
        (\<exists>snap'. dec (b @ [newline]) = Inr snap' \<and> sn_Version snap' = sn_Version snap \<and> sn_State snap' = sn_State snap
           \<and> sn_CheckedAt snap' = sn_CheckedAt snap \<and> result_flags snap' = result_flags snap
           \<and> (\<forall>n. ascii n \<longrightarrow> attempts_of snap' n = attempts_of snap n)))"

lemma supervisor_defaults_fields [simp]:
  "sv_Checks (supervisor_defaults s) = sv_Checks s" "sv_StatePath (supervisor_defaults s) = sv_StatePath s"
  "sv_encode (supervisor_defaults s) = sv_encode s" "sv_decode (supervisor_defaults s) = sv_decode s"
  "sv_Now (supervisor_defaults s) = sv_Now s" "0 < sv_MaxRepairAttempts (supervisor_defaults s)"
  by (simp_all add: supervisor_defaults_def)

lemma health_io_cases: "wp health_io Q E w \<longleftrightarrow> (if hw_fault w (hw_calls w) then E HealthIO (w\<lparr>hw_calls := hw_calls w + 1\<rparr>) else Q () (w\<lparr>hw_calls := hw_calls w + 1\<rparr>))"
  by (simp add: wp_def health_io_def Let_def)

lemma io_frame:
  assumes "forE xs (\<lambda>_. health_io) w = (r, w')"
  shows "hw_file w' = hw_file w \<and> hw_env w' = hw_env w \<and> hw_fault w' = hw_fault w"
  using assms
  by (induction xs arbitrary: w)
    (auto simp: return_def seqE_def health_io_def Let_def split: if_splits)

text \<open>A run that succeeds has written the snapshot it returns.\<close>

lemma Save_health_saved:
  assumes "Save_health s snap w = (Inr (), w')" "sv_StatePath s \<noteq> ''''"
  shows "\<exists>b. sv_encode s snap = Some b \<and> hw_file w' = Some (b @ [newline]) \<and> hw_fault w' = hw_fault w"
proof -
  obtain b where b: "sv_encode s snap = Some b" using assms by (cases "sv_encode s snap") (auto simp: Save_health_def throw_def)
  obtain w1 where w1: "forE [0..<7::nat] (\<lambda>_. health_io) w = (Inr (), w1)"
      "forE [0..<2::nat] (\<lambda>_. health_io) (w1\<lparr>hw_file := Some (b @ [newline])\<rparr>) = (Inr (), w')"
    using assms b by (auto simp: Save_health_def seqE_def modifyS_def split: prod.splits sum.splits)
  show ?thesis using io_frame [OF w1(1)] io_frame [OF w1(2)] b by simp
qed

lemma Load_health_frame:
  "Load_health s w = (r, w1) \<Longrightarrow> hw_file w1 = hw_file w \<and> hw_env w1 = hw_env w \<and> hw_fault w1 = hw_fault w
   \<and> (\<forall>snap. r = Inr snap \<longrightarrow> sn_Version snap = 1)"
  by (auto simp: Load_health_def return_def throw_def seqE_def getS_def health_io_def Let_def NewSnapshot_def
      split: if_splits option.splits sum.splits)

lemma Load_health_calm:
  assumes "\<forall>n. \<not> hw_fault w n" "sv_StatePath s \<noteq> ''''"
  shows "fst (Load_health s w) = (case hw_file w of
     None \<Rightarrow> Inr NewSnapshot
   | Some b \<Rightarrow> (case sv_decode s b of
        Inl e \<Rightarrow> Inl (BadJSON e)
      | Inr snap \<Rightarrow> if sn_Version snap \<noteq> 1 then Inl (BadVersion (sn_Version snap)) else Inr snap))"
  using assms by (simp add: Load_health_def return_def throw_def seqE_def getS_def health_io_def Let_def split: option.split sum.split)

text \<open>The snapshot a run starts from.\<close>

definition starting :: "'x supervisor \<Rightarrow> 'x health_world \<Rightarrow> snapshot" where
  "starting s w = (case fst (Load_health s w) of Inl _ \<Rightarrow> NewSnapshot | Inr snap \<Rightarrow> snap)"

lemma starting_version: "sn_Version (starting s w) = 1"
  using Load_health_frame [of s w] unfolding starting_def
  by (cases "Load_health s w") (auto simp: NewSnapshot_def split: sum.split)

lemma Run_checked:
  assumes "Run sv autofix w = (Inr snap, w')" "sv_StatePath sv \<noteq> ''''"
  shows "\<exists>now rs b. length rs = length (sv_Checks sv) \<and> now = fst (sv_Now sv (hw_env w))
    \<and> checked (supervisor_defaults sv) rs (fresh_snapshot now (starting (supervisor_defaults sv) w)) snap
    \<and> sv_encode sv snap = Some b \<and> hw_file w' = Some (b @ [newline]) \<and> hw_fault w' = hw_fault w"
proof -
  let ?s = "supervisor_defaults sv"
  obtain r w1 where load: "Load_health ?s w = (r, w1)" by (cases "Load_health ?s w")
  note frame = Load_health_frame [OF load]
  obtain now x1 where now: "sv_Now sv (hw_env w) = (now, x1)" by (cases "sv_Now sv (hw_env w)")
  let ?start = "fresh_snapshot now (starting ?s w)"
  obtain snap1 x2 where checks: "run_checks ?s autofix ?start x1 = (snap1, x2)" by (cases "run_checks ?s autofix ?start x1")
  have first: "(if sn_Version (case r of Inl _ \<Rightarrow> zero_snapshot | Inr snap \<Rightarrow> snap) = 0 then NewSnapshot
      else (case r of Inl _ \<Rightarrow> zero_snapshot | Inr snap \<Rightarrow> snap)) = starting ?s w"
    using frame load by (auto simp: starting_def zero_snapshot_def split: sum.split)
  have "(tryE (Load_health ?s) (\<lambda>_. return zero_snapshot) return :: (_, snapshot) health_proc) w = (Inr (case r of Inl _ \<Rightarrow> zero_snapshot | Inr snap \<Rightarrow> snap), w1)"
    by (simp add: tryE_def load return_def split: sum.split)
  then have "Run sv autofix w = seqE (Save_health ?s snap1) (\<lambda>_. return snap1) (w1\<lparr>hw_env := x2\<rparr>)"
    using frame now checks first by (simp add: Run_def Let_def seqE_def)
  then have save: "Save_health ?s snap1 (w1\<lparr>hw_env := x2\<rparr>) = (Inr (), w')" "snap = snap1"
    using assms(1) by (auto simp: seqE_def return_def split: prod.splits sum.splits)
  obtain b where "sv_encode sv snap1 = Some b" "hw_file w' = Some (b @ [newline])" "hw_fault w' = hw_fault w"
    using Save_health_saved [OF save(1)] assms(2) frame by auto
  moreover obtain rs where "length rs = length (sv_Checks sv)" "checked ?s rs ?start snap1"
    using run_checks_checked [of ?s ?start autofix x1] checks by auto
  ultimately show ?thesis using save(2) now by (metis fst_conv)
qed

text \<open>The gate the armed agent asks before it restores hosts tells exactly what the health timer last found:
  after a successful run of the supervisor, however its repairs went, the gate opens at a time \<open>t\<close> if and only if
  every critical check of that run was healthy and the run is not from the future and at most \<open>maxAge\<close> old.\<close>

theorem system_gate_reports_last_run:
  assumes "Run sv autofix w = (Inr snap, w')" "sv_StatePath sv \<noteq> ''''" "health_codec_ok (sv_encode sv) (sv_decode sv)"
    and "0 < maxAge" "maxAge < 2 ^ 63 - 1"
  shows "fst (systemHealthSafe (sv_decode sv) (hw_file w') maxAge t) \<longleftrightarrow>
    (\<forall>r\<in>set (sn_Results snap). hr_Critical r \<longrightarrow> hr_OK r)
    \<and> fst (sv_Now sv (hw_env w)) \<le> t \<and> t \<le> fst (sv_Now sv (hw_env w)) + maxAge"
proof -
  obtain now rs b where run: "now = fst (sv_Now sv (hw_env w))"
      "checked (supervisor_defaults sv) rs (fresh_snapshot now (starting (supervisor_defaults sv) w)) snap"
      "sv_encode sv snap = Some b" "hw_file w' = Some (b @ [newline])"
    using Run_checked [OF assms(1,2)] by blast
  obtain snap' where dec: "sv_decode sv (b @ [newline]) = Inr snap'" "sn_Version snap' = sn_Version snap"
      "sn_State snap' = sn_State snap" "sn_CheckedAt snap' = sn_CheckedAt snap" "result_flags snap' = result_flags snap"
    using assms(3) run(3) unfolding health_codec_ok_def by blast
  have version: "sn_Version snap = 1"
    using run(2) starting_version by (simp add: checked_def fresh_snapshot_def)
  have now: "sn_CheckedAt snap = Some now" using run(2) by (simp add: checked_def fresh_snapshot_def)
  have failed: "sn_State snap = HealthFailedSafe \<Longrightarrow> \<exists>r\<in>set (sn_Results snap). hr_Critical r \<and> \<not> hr_OK r"
    using run(2) by (auto simp: checked_def fresh_snapshot_def)
  have flags: "(\<forall>r\<in>set (sn_Results q). hr_Critical r \<longrightarrow> hr_OK r) \<longleftrightarrow> (\<forall>f\<in>set (result_flags q). fst f \<longrightarrow> snd f)" for q
    by (auto simp: result_flags_def)
  have none: "filter (\<lambda>r. hr_Critical r \<and> \<not> hr_OK r) (sn_Results snap') = [] \<longleftrightarrow> (\<forall>r\<in>set (sn_Results snap). hr_Critical r \<longrightarrow> hr_OK r)"
    using flags [of snap] flags [of snap'] dec(5) by (auto simp: filter_empty_conv)
  have age: "time_Sub t (Some now) < 0 \<longleftrightarrow> t < now" "time_Sub t (Some now) > maxAge \<longleftrightarrow> now + maxAge < t"
    using assms(4,5) by (auto simp: time_Sub_def sat64_def max_def min_def)
  show ?thesis
    using version now failed none age assms(4) dec run(1,4)
    by (auto simp: systemHealthSafe_def Let_def split: list.split)
qed

text \<open>Runs one after the other, each with its own choice to repair.\<close>

fun supervise :: "'x supervisor \<Rightarrow> bool list \<Rightarrow> ('x, snapshot list) health_proc" where
  "supervise sv [] = return []"
| "supervise sv (autofix # more_runs) =
     seqE (Run sv autofix) (\<lambda>snap. seqE (supervise sv more_runs) (\<lambda>snaps. return (snap # snaps)))"

definition persisted_attempts :: "'x supervisor \<Rightarrow> 'x health_world \<Rightarrow> string \<Rightarrow> int" where
  "persisted_attempts sv w n = attempts_of (starting (supervisor_defaults sv) w) n"

lemma Run_attempts:
  assumes "Run sv autofix w = (Inr snap, w')" "sv_StatePath sv \<noteq> ''''" "health_codec_ok (sv_encode sv) (sv_decode sv)"
    and "\<forall>k. \<not> hw_fault w k" "ascii n" "\<forall>r\<in>set (sn_Results snap). \<not> (hr_Name r = n \<and> hr_OK r)"
  shows "persisted_attempts sv w' n = persisted_attempts sv w n + reps n snap"
    and "persisted_attempts sv w' n \<le> max (persisted_attempts sv w n) (sv_MaxRepairAttempts (supervisor_defaults sv))"
    and "\<forall>k. \<not> hw_fault w' k"
proof -
  let ?s = "supervisor_defaults sv"
  obtain now rs b where run: "checked ?s rs (fresh_snapshot now (starting ?s w)) snap" "sv_encode sv snap = Some b"
      "hw_file w' = Some (b @ [newline])" "hw_fault w' = hw_fault w"
    using Run_checked [OF assms(1,2)] by blast
  obtain snap' where dec: "sv_decode sv (b @ [newline]) = Inr snap'" "sn_Version snap' = sn_Version snap"
      "attempts_of snap' n = attempts_of snap n"
    using assms(3,5) run(2) unfolding health_codec_ok_def by blast
  show calm: "\<forall>k. \<not> hw_fault w' k" using assms(4) run(4) by simp
  have fresh: "attempts_of (fresh_snapshot now q) n = attempts_of q n" "reps n (fresh_snapshot now q) = 0"
      "sn_Results (fresh_snapshot now q) = []" for q
    by (simp_all add: fresh_snapshot_def attempts_of_def reps_def)
  have "sn_Version snap = 1"
    using run(1) starting_version by (simp add: checked_def fresh_snapshot_def)
  then have "starting ?s w' = snap'"
    using Load_health_calm [OF calm, of ?s] assms(2) dec run(3) by (simp add: starting_def)
  then have after: "persisted_attempts sv w' n = attempts_of snap n" using dec(3) by (simp add: persisted_attempts_def)
  have "attempts_of snap n - reps n snap = persisted_attempts sv w n
      \<and> attempts_of snap n \<le> max (persisted_attempts sv w n) (sv_MaxRepairAttempts ?s)"
    using checkedD [OF run(1) fresh(3) assms(6)] by (simp add: fresh persisted_attempts_def)
  then show "persisted_attempts sv w' n = persisted_attempts sv w n + reps n snap"
      "persisted_attempts sv w' n \<le> max (persisted_attempts sv w n) (sv_MaxRepairAttempts ?s)"
    using after by simp_all
qed

lemma supervise_attempts:
  assumes "supervise sv flags w = (Inr snaps, w')" "sv_StatePath sv \<noteq> ''''" "health_codec_ok (sv_encode sv) (sv_decode sv)"
    and "\<forall>k. \<not> hw_fault w k" "ascii n" "\<forall>snap\<in>set snaps. \<forall>r\<in>set (sn_Results snap). \<not> (hr_Name r = n \<and> hr_OK r)"
  shows "persisted_attempts sv w' n = persisted_attempts sv w n + (\<Sum>snap\<leftarrow>snaps. reps n snap)
    \<and> persisted_attempts sv w' n \<le> max (persisted_attempts sv w n) (sv_MaxRepairAttempts (supervisor_defaults sv))"
  using assms(1,4,6)
proof (induction flags arbitrary: w snaps)
  case Nil
  then show ?case by (simp add: return_def)
next
  case (Cons autofix flags)
  obtain snap w1 snaps1 where run: "Run sv autofix w = (Inr snap, w1)" "supervise sv flags w1 = (Inr snaps1, w')" "snaps = snap # snaps1"
    using Cons.prems(1) by (auto simp: seqE_def return_def split: prod.splits sum.splits)
  note one = Run_attempts [OF run(1) assms(2,3) Cons.prems(2) assms(5)]
  have "\<forall>r\<in>set (sn_Results snap). \<not> (hr_Name r = n \<and> hr_OK r)" using Cons.prems(3) run(3) by simp
  note one = one [OF this]
  show ?case using Cons.IH [OF run(2) one(3)] Cons.prems(3) one(1,2) run(3) by auto
qed


section \<open>A concrete supervisor\<close>

text \<open>One critical unit that stays down and cannot be repaired, one attempt allowed; the clock stands at ten seconds.\<close>

definition demo_unit_down :: check_result where
  "demo_unit_down = \<lparr>hr_Name = ''systemd:nut'', hr_OK = False, hr_Critical = True, hr_Repairable = True, hr_Message = ''down''\<rparr>"

definition demo_exhausted :: "repair_record list \<Rightarrow> 64 word \<Rightarrow> snapshot" where
  "demo_exhausted rps g =
     \<lparr>sn_Version = 1, sn_State = HealthFailedSafe, sn_CheckedAt = Some (10 * Second), sn_Results = [demo_unit_down], sn_Repairs = rps,
      sn_Circuit = \<lparr>cc_Attempts = fmupd ''systemd:nut'' 1 fmempty, cc_NextAllowedUTC = fmupd ''systemd:nut'' (Some (40 * Second)) fmempty,
        cc_FailedReason = ''repair attempts exhausted for systemd:nut''\<rparr>, sn_Generation = g\<rparr>"

definition demo_failed_repair :: repair_record where
  "demo_failed_repair = \<lparr>rp_Check = ''systemd:nut'', rp_Attempt = 1, rp_Result = ''failed'', rp_Error = ''no''\<rparr>"

definition demo_supervisor :: "unit supervisor" where
  "demo_supervisor =
     \<lparr>sv_Checks = [\<lparr>hk_Name = ''systemd:nut'', hk_Run = (\<lambda>x. (demo_unit_down, x))\<rparr>],
      sv_Repairers = fmupd ''systemd:nut'' (\<lambda>x. (Some ''no'', x)) fmempty, sv_StatePath = ''health.json'',
      sv_MaxRepairAttempts = 1, sv_BaseBackoff = 0, sv_MaxBackoff = 0, sv_Now = (\<lambda>x. (10 * Second, x)),
      sv_encode = (\<lambda>snap. if snap = demo_exhausted [demo_failed_repair] 1 then Some ''1''
                          else if snap = demo_exhausted [] 2 then Some ''2'' else None),
      sv_decode = (\<lambda>b. if b = ''1'' @ [newline] then Inr (demo_exhausted [demo_failed_repair] 1)
                       else if b = ''2'' @ [newline] then Inr (demo_exhausted [] 2) else Inl ''malformed'')\<rparr>"

definition demo_health_world :: "unit health_world" where
  "demo_health_world = \<lparr>hw_file = None, hw_fault = (\<lambda>_. False), hw_calls = 0, hw_env = ()\<rparr>"

lemma demo_health_codec: "health_codec_ok (sv_encode demo_supervisor) (sv_decode demo_supervisor)"
  by (auto simp: health_codec_ok_def demo_supervisor_def split: if_splits)

lemmas demo_health_defs = demo_supervisor_def demo_health_world_def demo_exhausted_def demo_failed_repair_def demo_unit_down_def

lemmas run_health_defs = Run_def Let_def supervisor_defaults_def Load_health_def Save_health_def run_checks_def check_step_def
  try_repair_def attempt_repair_def named_result_def degrade_def exhausted_def recovering_def set_circuit_def attempts_of_def
  fresh_snapshot_def NewSnapshot_def no_circuit_def health_io_def proc_defs time_Add_def backoff_def Second_def Minute_def
  upt_rec numeral_eq_Suc

lemma demo_first_run:
  "\<exists>w'. Run demo_supervisor True demo_health_world = (Inr (demo_exhausted [demo_failed_repair] 1), w')
     \<and> hw_file w' = Some (''1'' @ [newline]) \<and> (\<forall>n. \<not> hw_fault w' n)"
  by (simp add: run_health_defs demo_health_defs)

lemma demo_second_run:
  assumes "hw_file w = Some (''1'' @ [newline])" "\<forall>n. \<not> hw_fault w n"
  shows "\<exists>w'. Run demo_supervisor True w = (Inr (demo_exhausted [] 2), w')"
  using assms by (simp add: run_health_defs demo_health_defs)


theorem system_gate_reports_last_run_witness:
  "\<exists>snap w'. Run demo_supervisor True demo_health_world = (Inr snap, w')
     \<and> \<not> fst (systemHealthSafe (sv_decode demo_supervisor) (hw_file w') (60 * Second) (20 * Second))"
proof -
  obtain w1 where w1: "Run demo_supervisor True demo_health_world = (Inr (demo_exhausted [demo_failed_repair] 1), w1)"
    using demo_first_run by blast
  have "sv_StatePath demo_supervisor \<noteq> ''''" by (simp add: demo_supervisor_def)
  then show ?thesis
    using system_gate_reports_last_run [OF w1 _ demo_health_codec, of "60 * Second" "20 * Second"] w1
    by (auto simp: demo_exhausted_def demo_unit_down_def Second_def)
qed

end
