(* ===== verification/State_Model.thy ===== *)
theory State_Model
  imports Prelude
begin

text \<open>
  The durable power-transaction state of \<^verbatim>\<open>agent/internal/state/model.go\<close>. The Go enumerations are
  string types, so a state decoded from a file can carry any other string; each datatype has a
  constructor for those, and its empty string is Go's zero value. The host table is a finite map;
  \<open>None\<close> is the nil map, which reads as empty and which \<^verbatim>\<open>validateSemantic\<close> rejects.
\<close>

definition Version :: int where
  "Version = 1"

datatype power_state =
    BootReconcile
  | Normal
  | OnBattery
  | ShutdownCommitted
  | ShutdownInProgress
  | WaitingForAC
  | RecoveryWait
  | RecoveryStarted
  | RestoreHosts
  | FailedSafe
  | OtherPowerState string

datatype shutdown_state =
    ShutdownNotRequired
  | ShutdownPlanned
  | ShutdownRequested
  | ShutdownAcknowledged
  | ShutdownCompleted
  | ShutdownUnknown
  | ShutdownFailed
  | OtherShutdownState string

datatype recovery_state =
    RecoveryNotRequired
  | RecoveryWaiting
  | RecoveryWOLSent
  | RecoveryOnline
  | RecoveryUnknown
  | RecoveryFailed
  | OtherRecoveryState string

record ups_observation =
  ob_Utility :: string
  ob_LowBattery :: "bool option"
  ob_FSD :: "bool option"
  ob_BatteryCharge :: "float64 option"
  ob_BatteryRuntimeSeconds :: "int option"
  ob_RawStatus :: string
  ob_ObservedAtWallclock :: string

text \<open>
  The attempt counters are Go \<^verbatim>\<open>int\<close>s. Every increment in the sources follows a comparison with an
  upper limit, so they never wrap and are plain integers here.
\<close>

record host_state =
  hs_WasOnline :: "bool option"
  hs_ShutdownState :: shutdown_state
  hs_RecoveryState :: recovery_state
  hs_ShutdownAttempts :: int
  hs_WakeAttempts :: int
  hs_LastActionID :: string
  hs_LastVerification :: string
  hs_LastError :: string

type_synonym host_map = "(string, host_state) fmap"

record power_txn =
  st_StateVersion :: int
  st_TransactionID :: string
  st_ParentTransactionID :: string
  st_Sequence :: "64 word"
  st_PowerState :: power_state
  st_ShutdownCommitted :: bool
  st_RecoveryStarted :: bool
  st_ActiveConfigRevision :: string
  st_LastUPS :: "ups_observation option"
  st_OutageElapsedSeconds :: int
  st_Hosts :: "host_map option"
  st_FailedSafeReason :: string
  st_Checksum :: string

definition zero_host_state :: host_state where
  "zero_host_state =
     \<lparr>hs_WasOnline = None, hs_ShutdownState = OtherShutdownState '''',
      hs_RecoveryState = OtherRecoveryState '''', hs_ShutdownAttempts = 0, hs_WakeAttempts = 0,
      hs_LastActionID = '''', hs_LastVerification = '''', hs_LastError = ''''\<rparr>"

definition New_State :: "string \<Rightarrow> string \<Rightarrow> power_txn" where
  "New_State transactionID configRevision =
     \<lparr>st_StateVersion = Version, st_TransactionID = transactionID, st_ParentTransactionID = '''',
      st_Sequence = 0, st_PowerState = BootReconcile, st_ShutdownCommitted = False,
      st_RecoveryStarted = False, st_ActiveConfigRevision = configRevision, st_LastUPS = None,
      st_OutageElapsedSeconds = 0, st_Hosts = Some fmempty, st_FailedSafeReason = '''',
      st_Checksum = ''''\<rparr>"

text \<open>
  Reading the host table (a nil map reads as empty, a missing key as the zero value) and storing
  into it. The sources only store into tables that \<^verbatim>\<open>cloneState\<close> or a literal made.
\<close>

definition hosts_of :: "power_txn \<Rightarrow> host_map" where
  "hosts_of st = (case st_Hosts st of None \<Rightarrow> fmempty | Some m \<Rightarrow> m)"

definition lookup_host :: "host_map \<Rightarrow> string \<Rightarrow> host_state" where
  "lookup_host m hid = (case fmlookup m hid of None \<Rightarrow> zero_host_state | Some hs \<Rightarrow> hs)"

definition put_host :: "string \<Rightarrow> host_state \<Rightarrow> power_txn \<Rightarrow> power_txn" where
  "put_host hid hs st = st\<lparr>st_Hosts := Some (fmupd hid hs (hosts_of st))\<rparr>"

lemma hosts_of_Some [simp]: "st_Hosts st = Some m \<Longrightarrow> hosts_of st = m"
  by (simp add: hosts_of_def)

lemma hosts_of_update [simp]: "hosts_of (st\<lparr>st_Hosts := Some m\<rparr>) = m"
  by (simp add: hosts_of_def)

lemma hosts_of_frame [simp]:
  "hosts_of (st\<lparr>st_PowerState := ps\<rparr>) = hosts_of st"
  "hosts_of (st\<lparr>st_ShutdownCommitted := b\<rparr>) = hosts_of st"
  "hosts_of (st\<lparr>st_RecoveryStarted := b\<rparr>) = hosts_of st"
  "hosts_of (st\<lparr>st_Sequence := n\<rparr>) = hosts_of st"
  "hosts_of (st\<lparr>st_StateVersion := v\<rparr>) = hosts_of st"
  "hosts_of (st\<lparr>st_Checksum := c\<rparr>) = hosts_of st"
  "hosts_of (st\<lparr>st_OutageElapsedSeconds := t\<rparr>) = hosts_of st"
  "hosts_of (st\<lparr>st_FailedSafeReason := r\<rparr>) = hosts_of st"
  "hosts_of (st\<lparr>st_LastUPS := u\<rparr>) = hosts_of st"
  "hosts_of (st\<lparr>st_TransactionID := t'\<rparr>) = hosts_of st"
  "hosts_of (st\<lparr>st_ParentTransactionID := t'\<rparr>) = hosts_of st"
  by (simp_all add: hosts_of_def)

lemma hosts_of_put [simp]: "hosts_of (put_host hid hs st) = fmupd hid hs (hosts_of st)"
  by (simp add: put_host_def)

lemma lookup_host_upd:
  "lookup_host (fmupd hid hs m) hid' = (if hid = hid' then hs else lookup_host m hid')"
  by (simp add: lookup_host_def)

lemma lookup_host_empty [simp]: "lookup_host fmempty hid = zero_host_state"
  by (simp add: lookup_host_def)

lemma lookup_host_Some: "fmlookup m hid = Some hs \<Longrightarrow> lookup_host m hid = hs"
  by (simp add: lookup_host_def)

lemma put_host_frame [simp]:
  "st_PowerState (put_host hid hs st) = st_PowerState st"
  "st_ShutdownCommitted (put_host hid hs st) = st_ShutdownCommitted st"
  "st_RecoveryStarted (put_host hid hs st) = st_RecoveryStarted st"
  "st_TransactionID (put_host hid hs st) = st_TransactionID st"
  "st_ActiveConfigRevision (put_host hid hs st) = st_ActiveConfigRevision st"
  "st_StateVersion (put_host hid hs st) = st_StateVersion st"
  "st_Hosts (put_host hid hs st) = Some (fmupd hid hs (hosts_of st))"
  by (simp_all add: put_host_def)

end
