(* ===== verification/Host_Plan.thy ===== *)
theory Host_Plan
  imports State_Model
begin

text \<open>
  Shutdown and recovery planning of \<^verbatim>\<open>agent/internal/host/plan.go\<close>. The recovery plan is Kahn's
  algorithm with a ready list kept in priority order; Go's unspecified map iteration order is a pair
  of arguments, and the plan is shown not to depend on them.
\<close>

section \<open>Host configuration and shutdown plan\<close>

record host_cfg =
  hp_ID :: string
  hp_ShutdownMethod :: string
  hp_ShutdownPriority :: int
  hp_WakeEnabled :: bool
  hp_WakePriority :: int
  hp_WakeMaxAttempts :: int
  hp_WakeDelayAfterPreviousSeconds :: int
  hp_WakeMAC :: string
  hp_WakeInterface :: string
  hp_WakeBroadcast :: string
  hp_WakePort :: int
  hp_RestorePolicy :: string
  hp_DependsOn :: "string list"

definition zero_cfg :: host_cfg where
  "zero_cfg =
     \<lparr>hp_ID = '''', hp_ShutdownMethod = '''', hp_ShutdownPriority = 0, hp_WakeEnabled = False,
      hp_WakePriority = 0, hp_WakeMaxAttempts = 0, hp_WakeDelayAfterPreviousSeconds = 0,
      hp_WakeMAC = '''', hp_WakeInterface = '''', hp_WakeBroadcast = '''', hp_WakePort = 0,
      hp_RestorePolicy = '''', hp_DependsOn = []\<rparr>"

record shutdown_plan =
  sp_PreFSD :: "string list"
  sp_NUTGroup :: "string list"

definition direct_method :: "string \<Rightarrow> bool" where
  "direct_method m \<longleftrightarrow> m \<noteq> ''nut'' \<and> m \<noteq> ''none'' \<and> m \<noteq> ''''"

text \<open>\<^verbatim>\<open>sort.SliceStable\<close> with a comparison of keys is the stable \<open>sort_key\<close>.\<close>

definition BuildShutdownPlan :: "host_cfg list \<Rightarrow> shutdown_plan" where
  "BuildShutdownPlan hosts =
     (let pre = filter (\<lambda>h. direct_method (hp_ShutdownMethod h)) hosts;
          nutGroup = filter (\<lambda>h. hp_ShutdownMethod h = ''nut'') hosts
      in \<lparr>sp_PreFSD = map hp_ID (sort_key (\<lambda>h. (hp_ShutdownPriority h, hp_ID h)) pre),
          sp_NUTGroup = map hp_ID (sort_key hp_ID nutGroup)\<rparr>)"

definition EligibleForRestore :: "host_cfg \<Rightarrow> host_state \<Rightarrow> bool" where
  "EligibleForRestore cfg st =
     (if \<not> hp_WakeEnabled cfg then False
      else if hp_RestorePolicy cfg = ''always'' then True
      else if hp_RestorePolicy cfg = ''never'' then False
      else if hp_RestorePolicy cfg = ''previous-state'' \<or> hp_RestorePolicy cfg = ''''
      then hs_WasOnline st = Some True
      else False)"

section \<open>Recovery plan\<close>

type_synonym cfg_map = "(string, host_cfg) fmap"

definition cfg_at :: "cfg_map \<Rightarrow> string \<Rightarrow> host_cfg" where
  "cfg_at el hid = (case fmlookup el hid of None \<Rightarrow> zero_cfg | Some h \<Rightarrow> h)"

definition int_at :: "(string, int) fmap \<Rightarrow> string \<Rightarrow> int" where
  "int_at m k = (case fmlookup m k of None \<Rightarrow> 0 | Some n \<Rightarrow> n)"

definition list_at :: "(string, string list) fmap \<Rightarrow> string \<Rightarrow> string list" where
  "list_at m k = (case fmlookup m k of None \<Rightarrow> [] | Some xs \<Rightarrow> xs)"

definition eligible_map :: "host_cfg list \<Rightarrow> host_map \<Rightarrow> cfg_map" where
  "eligible_map hosts states =
     fold (\<lambda>h el. case fmlookup states (hp_ID h) of
             None \<Rightarrow> el
           | Some st \<Rightarrow> if EligibleForRestore h st then fmupd (hp_ID h) h el else el) hosts fmempty"

text \<open>
  The edges: for each eligible host, in the order the map happens to be iterated, every dependency
  that is itself eligible raises the host's indegree and makes it a child of the dependency.
\<close>

fun add_edges ::
  "cfg_map \<Rightarrow> string \<Rightarrow> string list \<Rightarrow> (string, int) fmap \<times> (string, string list) fmap
     \<Rightarrow> (string, int) fmap \<times> (string, string list) fmap" where
  "add_edges el hid [] g = g"
| "add_edges el hid (dep # deps) (indegree, children) =
     (if dep |\<notin>| fmdom el then add_edges el hid deps (indegree, children)
      else add_edges el hid deps
        (fmupd hid (int_at indegree hid + 1) indegree,
         fmupd dep (list_at children dep @ [hid]) children))"

definition build_graph :: "cfg_map \<Rightarrow> string list \<Rightarrow> (string, int) fmap \<times> (string, string list) fmap" where
  "build_graph el order =
     fold (\<lambda>hid g. add_edges el hid (hp_DependsOn (cfg_at el hid)) g) order
       (fold (\<lambda>hid m. fmupd hid 0 m) order fmempty, fmempty)"

fun relax ::
  "cfg_map \<Rightarrow> string list \<Rightarrow> (string, int) fmap \<Rightarrow> host_cfg list \<Rightarrow> (string, int) fmap \<times> host_cfg list"
  where
  "relax el [] indegree ready = (indegree, ready)"
| "relax el (child # rest) indegree ready =
     (let indegree' = fmupd child (int_at indegree child - 1) indegree
      in relax el rest indegree'
           (if int_at indegree' child = 0 then ready @ [cfg_at el child] else ready))"

definition wake_key :: "host_cfg \<Rightarrow> int \<times> string" where
  "wake_key h = (hp_WakePriority h, hp_ID h)"

text \<open>How many indegrees are still positive: each becomes zero at most once.\<close>

definition waiting :: "(string, int) fmap \<Rightarrow> nat" where
  "waiting m = card {k. k |\<in>| fmdom m \<and> 0 < int_at m k}"

lemma int_at_upd: "int_at (fmupd k n m) k' = (if k = k' then n else int_at m k')"
  by (simp add: int_at_def)

lemma list_at_empty [simp]: "list_at fmempty k = []"
  by (simp add: list_at_def)

lemma list_at_upd: "list_at (fmupd k n m) k' = (if k = k' then n else list_at m k')"
  by (simp add: list_at_def)

lemma waiting_finite: "finite {k. k |\<in>| fmdom m \<and> 0 < int_at m k}"
  by (rule finite_subset [of _ "fset (fmdom m)"]) auto

lemma int_at_dom: "int_at m k \<noteq> 0 \<Longrightarrow> k |\<in>| fmdom m"
  by (auto simp: int_at_def fmdomI split: option.splits)

lemma waiting_decrement:
  "waiting (fmupd k (int_at m k - 1) m) = (if int_at m k = 1 then waiting m - 1 else waiting m)"
proof -
  have eq: "{j. j |\<in>| fmdom (fmupd k (int_at m k - 1) m) \<and> 0 < int_at (fmupd k (int_at m k - 1) m) j}
      = (if int_at m k = 1 then {j. j |\<in>| fmdom m \<and> 0 < int_at m j} - {k}
         else {j. j |\<in>| fmdom m \<and> 0 < int_at m j})"
    using int_at_dom [of m k] by (auto simp: int_at_upd)
  show ?thesis
    using int_at_dom [of m k] waiting_finite [of m]
    unfolding waiting_def eq by (auto simp: card_Diff_singleton)
qed

lemma waiting_positive: "int_at m k = 1 \<Longrightarrow> 0 < waiting m"
  using int_at_dom [of m k] waiting_finite [of m] by (auto simp: waiting_def card_gt_0_iff)

lemma relax_measure:
  "length (snd (relax el cs indegree ready)) + waiting (fst (relax el cs indegree ready))
     = length ready + waiting indegree"
proof (induction cs arbitrary: indegree ready)
  case (Cons c cs)
  then show ?case
    using waiting_decrement [of c indegree] waiting_positive [of indegree c]
    by (auto simp: int_at_upd Let_def)
qed simp

function kahn ::
  "cfg_map \<Rightarrow> (string, string list) fmap \<Rightarrow> (string, int) fmap \<Rightarrow> host_cfg list \<Rightarrow> string list \<Rightarrow> string list"
  where
  "kahn el children indegree ready result =
     (case sort_key wake_key ready of
        [] \<Rightarrow> result
      | nxt # rest \<Rightarrow>
          (case relax el (list_at children (hp_ID nxt)) indegree rest of
             (indegree', ready') \<Rightarrow> kahn el children indegree' ready' (result @ [hp_ID nxt])))"
  by pat_completeness auto

termination
proof (relation "measure (\<lambda>(el, children, indegree, ready, result). length ready + waiting indegree)",
       goal_cases)
  case 1
  show ?case by simp
next
  case (2 el children indegree ready result nxt rest indegree' ready')
  have "length ready = Suc (length rest)"
    using arg_cong [OF 2(1), of length] by simp
  then show ?case
    using relax_measure [of el "list_at children (hp_ID nxt)" indegree rest] 2(2) [symmetric] by simp
qed

declare kahn.simps [simp del]

text \<open>
  \<open>order\<close> and \<open>order'\<close> are the orders in which Go happens to iterate over \<^verbatim>\<open>eligible\<close> and
  \<^verbatim>\<open>indegree\<close>. \<open>None\<close> is the error \<^verbatim>\<open>recovery dependency cycle detected\<close>.
\<close>

definition recovery_plan_in_order ::
  "string list \<Rightarrow> string list \<Rightarrow> host_cfg list \<Rightarrow> host_map \<Rightarrow> string list option" where
  "recovery_plan_in_order order order' hosts states =
     (let el = eligible_map hosts states;
          (indegree, children) = build_graph el order;
          ready = map (cfg_at el) (filter (\<lambda>hid. int_at indegree hid = 0) order');
          result = kahn el children indegree ready []
      in if length result \<noteq> fcard (fmdom el) then None else Some result)"

definition BuildRecoveryPlan :: "host_cfg list \<Rightarrow> host_map \<Rightarrow> string list option" where
  "BuildRecoveryPlan hosts states =
     (let order = sorted_list_of_fset (fmdom (eligible_map hosts states))
      in recovery_plan_in_order order order hosts states)"

section \<open>The graph\<close>

definition deps_in :: "cfg_map \<Rightarrow> string \<Rightarrow> string list" where
  "deps_in el hid = filter (\<lambda>d. d |\<in>| fmdom el) (hp_DependsOn (cfg_at el hid))"

definition enumerates :: "string list \<Rightarrow> cfg_map \<Rightarrow> bool" where
  "enumerates order el \<longleftrightarrow> distinct order \<and> set order = fset (fmdom el)"

lemma count_list_snoc [simp]: "count_list (xs @ [x]) y = count_list xs y + (if x = y then 1 else 0)"
  by (induction xs) auto

lemma add_edges_indegree:
  "int_at (fst (add_edges el hid deps g)) k
     = int_at (fst g) k + (if k = hid then int (length (filter (\<lambda>d. d |\<in>| fmdom el) deps)) else 0)"
  by (induction el hid deps g rule: add_edges.induct) (auto simp: int_at_upd)

lemma add_edges_children:
  "count_list (list_at (snd (add_edges el hid deps g)) d) c
     = count_list (list_at (snd g) d) c
       + (if c = hid then count_list (filter (\<lambda>d. d |\<in>| fmdom el) deps) d else 0)"
  by (induction el hid deps g rule: add_edges.induct) (auto simp: list_at_upd)

lemma fold_edges:
  assumes "distinct order"
  shows "int_at (fst (fold (\<lambda>hid g. add_edges el hid (hp_DependsOn (cfg_at el hid)) g) order g)) k
      = int_at (fst g) k + (if k \<in> set order then int (length (deps_in el k)) else 0)"
    and "count_list (list_at (snd (fold (\<lambda>hid g. add_edges el hid (hp_DependsOn (cfg_at el hid)) g) order g)) d) c
      = count_list (list_at (snd g) d) c + (if c \<in> set order then count_list (deps_in el c) d else 0)"
  using assms
  by (induction order arbitrary: g) (auto simp: add_edges_indegree add_edges_children deps_in_def)

lemma fold_zero: "int_at (fold (\<lambda>hid m. fmupd hid 0 m) order m) k = (if k \<in> set order then 0 else int_at m k)"
  by (induction order arbitrary: m) (auto simp: int_at_upd)

lemma build_graph_spec:
  assumes "enumerates order el"
  shows "k |\<in>| fmdom el \<Longrightarrow> int_at (fst (build_graph el order)) k = int (length (deps_in el k))"
    and "count_list (list_at (snd (build_graph el order)) d) c
      = (if c |\<in>| fmdom el then count_list (deps_in el c) d else 0)"
proof -
  have o: "distinct order" "x \<in> set order \<longleftrightarrow> x |\<in>| fmdom el" for x
    using assms by (auto simp: enumerates_def)
  show "k |\<in>| fmdom el \<Longrightarrow> int_at (fst (build_graph el order)) k = int (length (deps_in el k))"
    by (simp add: build_graph_def fold_edges(1) [OF o(1)] fold_zero o(2))
  show "count_list (list_at (snd (build_graph el order)) d) c
      = (if c |\<in>| fmdom el then count_list (deps_in el c) d else 0)"
    by (simp add: build_graph_def fold_edges(2) [OF o(1)] o(2))
qed

section \<open>Relaxing the children of a finished host\<close>

lemma relax_spec:
  assumes "\<And>k. int (count_list cs k) \<le> int_at indegree k \<or> count_list cs k = 0"
  shows "\<exists>new. snd (relax el cs indegree ready) = ready @ map (cfg_at el) new \<and> distinct new
      \<and> set new = {c \<in> set cs. int_at indegree c = int (count_list cs c)}
      \<and> (\<forall>k. int_at (fst (relax el cs indegree ready)) k = int_at indegree k - int (count_list cs k))"
  using assms
proof (induction cs arbitrary: indegree ready)
  case Nil
  then show ?case by simp
next
  case (Cons c cs)
  let ?i = "fmupd c (int_at indegree c - 1) indegree"
  let ?r = "if int_at indegree c = 1 then ready @ [cfg_at el c] else ready"
  have le: "int (count_list cs k) \<le> int_at ?i k \<or> count_list cs k = 0" for k
    using Cons.prems [of k] by (auto simp: int_at_upd split: if_splits)
  obtain new where new: "snd (relax el cs ?i ?r) = ?r @ map (cfg_at el) new" "distinct new"
      "set new = {c' \<in> set cs. int_at ?i c' = int (count_list cs c')}"
      "\<forall>k. int_at (fst (relax el cs ?i ?r)) k = int_at ?i k - int (count_list cs k)"
    using Cons.IH [OF le, of ?r] by blast
  have step: "relax el (c # cs) indegree ready = relax el cs ?i ?r"
    by (simp add: int_at_upd Let_def)
  show ?case
  proof (cases "int_at indegree c = 1")
    case True
    then have "count_list cs c = 0" using Cons.prems [of c] by simp
    then have notin: "c \<notin> set cs" by (simp add: count_list_0_iff)
    then have "c \<notin> set new" using new(3) by auto
    moreover have "x \<in> set (c # new) \<longleftrightarrow> x \<in> set (c # cs) \<and> int_at indegree x = int (count_list (c # cs) x)" for x
      using new(3) True \<open>count_list cs c = 0\<close> notin by (cases "x = c") (auto simp: int_at_upd)
    then have "set (c # new) = {x \<in> set (c # cs). int_at indegree x = int (count_list (c # cs) x)}"
      by blast
    moreover have "\<forall>k. int_at (fst (relax el cs ?i ?r)) k = int_at indegree k - int (count_list (c # cs) k)"
      using new(4) by (simp add: int_at_upd)
    moreover have "snd (relax el cs ?i ?r) = ready @ map (cfg_at el) (c # new)"
      using new(1) True by simp
    ultimately show ?thesis
      unfolding step using new(2) by (metis distinct.simps(2))
  next
    case False
    have zero: "count_list cs c = 0 \<longleftrightarrow> c \<notin> set cs" by (rule count_list_0_iff)
    have "x \<in> set new \<longleftrightarrow> x \<in> set (c # cs) \<and> int_at indegree x = int (count_list (c # cs) x)" for x
      unfolding new(3) using False zero by (cases "x = c") (auto simp: int_at_upd)
    then have "set new = {x \<in> set (c # cs). int_at indegree x = int (count_list (c # cs) x)}"
      by blast
    moreover have "\<forall>k. int_at (fst (relax el cs ?i ?r)) k = int_at indegree k - int (count_list (c # cs) k)"
      using new(4) by (simp add: int_at_upd)
    moreover have "snd (relax el cs ?i ?r) = ready @ map (cfg_at el) new"
      using new(1) False by simp
    ultimately show ?thesis
      unfolding step using new(2) by blast
  qed
qed

section \<open>The greedy reference\<close>

text \<open>
  The intended plan without queues and counters: repeatedly append the host with the least
  (priority, identifier) among those whose eligible dependencies are all in the plan already.
\<close>

definition available :: "cfg_map \<Rightarrow> string list \<Rightarrow> string list" where
  "available el planned =
     filter (\<lambda>hid. hid \<notin> set planned \<and> set (deps_in el hid) \<subseteq> set planned) (sorted_list_of_fset (fmdom el))"

function greedy :: "cfg_map \<Rightarrow> string list \<Rightarrow> string list" where
  "greedy el planned =
     (case sort_key (\<lambda>hid. wake_key (cfg_at el hid)) (available el planned) of
        [] \<Rightarrow> planned
      | hid # _ \<Rightarrow> greedy el (planned @ [hid]))"
  by pat_completeness auto

lemma available_set:
  "hid \<in> set (available el planned) \<longleftrightarrow>
     hid |\<in>| fmdom el \<and> hid \<notin> set planned \<and> set (deps_in el hid) \<subseteq> set planned"
  by (auto simp: available_def)

lemma sort_key_head:
  assumes "sort_key f xs = y # ys"
  shows "y \<in> set xs" "\<And>z. z \<in> set xs \<Longrightarrow> f y \<le> f z" "mset xs = add_mset y (mset ys)"
proof -
  have "mset (sort_key f xs) = mset xs" by simp
  then show m: "mset xs = add_mset y (mset ys)" unfolding assms by simp
  then show "y \<in> set xs" by (metis set_mset_mset union_single_eq_member)
  have "sorted (map f (sort_key f xs))" by simp
  then have le: "\<forall>z \<in> set ys. f y \<le> f z" unfolding assms by simp
  have "set xs = insert y (set ys)" using arg_cong [OF m, of set_mset] by simp
  then show "f y \<le> f z" if "z \<in> set xs" for z using that le by auto
qed

termination greedy
proof (relation "measure (\<lambda>(el, planned). card (fset (fmdom el) - set planned))", goal_cases)
  case 1
  show ?case by simp
next
  case (2 el planned hid rest)
  then have "hid \<in> set (available el planned)" using sort_key_head(1) by fastforce
  then have "hid \<in> fset (fmdom el) - set planned" by (simp add: available_set)
  then have "fset (fmdom el) - set (planned @ [hid]) \<subset> fset (fmdom el) - set planned" by auto
  then show ?case by (simp add: psubset_card_mono)
qed

declare greedy.simps [simp del]

definition well_keyed :: "cfg_map \<Rightarrow> bool" where
  "well_keyed el \<longleftrightarrow> (\<forall>hid h. fmlookup el hid = Some h \<longrightarrow> hp_ID h = hid)"

lemma well_keyedD: "well_keyed el \<Longrightarrow> hid |\<in>| fmdom el \<Longrightarrow> hp_ID (cfg_at el hid) = hid"
  by (auto simp: well_keyed_def cfg_at_def fmlookup_dom_iff)

lemma well_keyed_upd: "well_keyed el \<Longrightarrow> well_keyed (fmupd (hp_ID h) h el)"
  by (simp add: well_keyed_def)

lemma eligible_map_keyed: "well_keyed (eligible_map hosts states)"
  unfolding eligible_map_def
  by (rule fold_invariant [where Q = "\<lambda>_. True"])
    (auto simp: well_keyed_upd well_keyed_def [of fmempty] split: option.split)

text \<open>The state of the loop after the hosts \<open>planned\<close> have been planned.\<close>

definition kahn_inv :: "cfg_map \<Rightarrow> (string, int) fmap \<Rightarrow> host_cfg list \<Rightarrow> string list \<Rightarrow> bool" where
  "kahn_inv el indegree ready planned \<longleftrightarrow>
     (\<forall>k. k |\<in>| fmdom el \<longrightarrow> int_at indegree k = int (length (filter (\<lambda>d. d \<notin> set planned) (deps_in el k))))
     \<and> (\<forall>k \<in> set planned. set (deps_in el k) \<subseteq> set planned)
     \<and> (\<exists>ids. ready = map (cfg_at el) ids \<and> distinct ids \<and> set ids = set (available el planned))"

definition graph_of :: "cfg_map \<Rightarrow> (string, string list) fmap \<Rightarrow> bool" where
  "graph_of el children \<longleftrightarrow>
     (\<forall>d c. count_list (list_at children d) c = (if c |\<in>| fmdom el then count_list (deps_in el c) d else 0))"

lemma length_filter_not_in_snoc:
  "x \<notin> set planned \<Longrightarrow>
     length (filter (\<lambda>d. d \<notin> set planned) ds) = length (filter (\<lambda>d. d \<notin> set (planned @ [x])) ds) + count_list ds x"
  by (induction ds) auto

lemma count_list_le_filter:
  "x \<notin> set planned \<Longrightarrow> count_list ds x \<le> length (filter (\<lambda>d. d \<notin> set planned) ds)"
  by (induction ds) auto


lemma kahn_inv_step:
  assumes keyed: "well_keyed el" and graph: "graph_of el children" and inv: "kahn_inv el indegree ready planned"
    and pick: "sort_key wake_key ready = nxt # rest"
    and step: "relax el (list_at children (hp_ID nxt)) indegree rest = (indegree', ready')"
  shows "kahn_inv el indegree' ready' (planned @ [hp_ID nxt])"
proof -
  let ?x = "hp_ID nxt" and ?cs = "list_at children (hp_ID nxt)"
  obtain ids where ids: "ready = map (cfg_at el) ids" "distinct ids" "set ids = set (available el planned)"
    using inv by (auto simp: kahn_inv_def)
  have deg: "int_at indegree k = int (length (filter (\<lambda>d. d \<notin> set planned) (deps_in el k)))"
    if "k |\<in>| fmdom el" for k
    using inv that by (simp add: kahn_inv_def)
  have "nxt \<in> set ready" by (rule sort_key_head(1) [OF pick])
  then have x: "?x \<in> set ids" "nxt = cfg_at el ?x" "?x |\<in>| fmdom el" "?x \<notin> set planned"
    using ids keyed by (auto simp: available_set well_keyedD)
  have count: "count_list ?cs c = (if c |\<in>| fmdom el then count_list (deps_in el c) ?x else 0)" for c
    using graph by (simp add: graph_of_def)
  have le: "int (count_list ?cs k) \<le> int_at indegree k \<or> count_list ?cs k = 0" for k
    using count [of k] deg [of k] count_list_le_filter [OF x(4)] by simp
  obtain new where new: "ready' = rest @ map (cfg_at el) new" "distinct new"
      "set new = {c \<in> set ?cs. int_at indegree c = int (count_list ?cs c)}"
      "\<And>k. int_at indegree' k = int_at indegree k - int (count_list ?cs k)"
    using relax_spec [OF le, where el = el and ready = rest] step by auto
  have deg': "int_at indegree' k = int (length (filter (\<lambda>d. d \<notin> set (planned @ [?x])) (deps_in el k)))"
    if "k |\<in>| fmdom el" for k
    using new(4) [of k] deg [OF that] count [of k] that length_filter_not_in_snoc [OF x(4), of "deps_in el k"]
    by simp
  have ready_ids: "map hp_ID ready = ids"
    unfolding ids(1) map_map by (rule map_idI) (use keyed ids(3) in \<open>simp add: well_keyedD available_set\<close>)
  have same: "h = cfg_at el (hp_ID h)" if "h \<in> set ready" for h
    using that ids(1,3) keyed by (auto simp: well_keyedD available_set)
  note m = sort_key_head(3) [OF pick]
  have eq: "mset ids = mset (?x # map hp_ID rest)"
    using arg_cong [OF m, of "image_mset hp_ID"] ready_ids [symmetric] by simp
  have rest_ids: "distinct (?x # map hp_ID rest)" "set ids = insert ?x (set (map hp_ID rest))"
    using ids(2) mset_eq_imp_distinct_iff [OF eq] mset_eq_setD [OF eq] by simp_all
  have "set rest \<subseteq> set ready" using arg_cong [OF m, of set_mset] by auto
  then have rest: "rest = map (cfg_at el) (map hp_ID rest)"
    unfolding map_map by (intro map_idI [symmetric]) (use same in \<open>auto simp: subset_iff\<close>)
  let ?ids = "map hp_ID rest @ new"
  have planned: "set (deps_in el k) \<subseteq> set planned" if "k \<in> set planned" for k
    using inv that by (auto simp: kahn_inv_def)
  have zero: "int_at indegree k = 0 \<longleftrightarrow> set (deps_in el k) \<subseteq> set planned"
    and zero': "int_at indegree' k = 0 \<longleftrightarrow> set (deps_in el k) \<subseteq> set (planned @ [?x])"
    if "k |\<in>| fmdom el" for k
    using deg [OF that] deg' [OF that] by (auto simp: filter_empty_conv)
  have ids_iff: "k \<in> set ids \<longleftrightarrow> k |\<in>| fmdom el \<and> k \<notin> set planned \<and> int_at indegree k = 0" for k
    using ids(3) zero [of k] by (auto simp: available_set)
  have child: "k |\<in>| fmdom el" "0 < int_at indegree k" "?x \<in> set (deps_in el k)" if "k \<in> set ?cs" for k
    using that count [of k] le [of k] count_list_0_iff [of ?cs k] count_list_0_iff [of "deps_in el k" ?x]
    by (auto split: if_splits)
  have ids_eq: "k \<in> set ?ids \<longleftrightarrow> k \<in> set (available el (planned @ [?x]))" for k
  proof (cases "k \<in> set ?cs")
    case True
    have "k \<notin> set planned" using planned [of k] child(3) [OF True] x(4) by blast
    moreover have "k \<notin> set ids" using child(2) [OF True] ids_iff [of k] by simp
    ultimately show ?thesis
      using True child(1) [OF True] zero' [of k] new(3) new(4) [of k] rest_ids(2)
      by (auto simp: available_set)
  next
    case False
    then have "int_at indegree' k = int_at indegree k"
      using new(4) [of k] by (simp add: count_list_0_iff)
    then show ?thesis
      using False ids_iff [of k] zero' [of k] new(3) rest_ids by (auto simp: available_set)
  qed
  moreover have "k \<notin> set ids" if "k \<in> set new" for k
    using that new(3) child(2) [of k] ids_iff [of k] by auto
  then have "distinct ?ids"
    using rest_ids new(2) by auto
  moreover have "ready' = map (cfg_at el) ?ids"
    using new(1) rest by simp
  moreover have "\<forall>k \<in> set (planned @ [?x]). set (deps_in el k) \<subseteq> set (planned @ [?x])"
    using planned x(1) ids(3) by (auto simp: available_set)
  ultimately show ?thesis
    unfolding kahn_inv_def using deg' by blast
qed


lemma greedy_head:
  assumes keyed: "well_keyed el" and inv: "kahn_inv el indegree ready planned"
    and pick: "sort_key wake_key ready = nxt # rest"
  shows "\<exists>tl. sort_key (\<lambda>hid. wake_key (cfg_at el hid)) (available el planned) = hp_ID nxt # tl"
proof -
  obtain ids where ids: "ready = map (cfg_at el) ids" "set ids = set (available el planned)"
    using inv by (auto simp: kahn_inv_def)
  have "nxt \<in> set ready" by (rule sort_key_head(1) [OF pick])
  then have x: "hp_ID nxt \<in> set (available el planned)" "nxt = cfg_at el (hp_ID nxt)"
    using ids keyed by (auto simp: available_set well_keyedD)
  then obtain y tl where y: "sort_key (\<lambda>hid. wake_key (cfg_at el hid)) (available el planned) = y # tl"
    by (cases "sort_key (\<lambda>hid. wake_key (cfg_at el hid)) (available el planned)")
      (metis empty_iff empty_set set_sort)
  note h = sort_key_head [OF y]
  have "wake_key (cfg_at el y) \<le> wake_key nxt" using h(2) [OF x(1)] x(2) by simp
  moreover have "wake_key nxt \<le> wake_key (cfg_at el y)"
    using sort_key_head(2) [OF pick, of "cfg_at el y"] ids h(1) by simp
  ultimately have "wake_key (cfg_at el y) = wake_key nxt" by (rule antisym)
  then have "hp_ID (cfg_at el y) = hp_ID nxt" by (simp add: wake_key_def)
  then have "y = hp_ID nxt" using keyed h(1) by (simp add: available_set well_keyedD)
  with y show ?thesis by blast
qed

lemma kahn_greedy:
  assumes "well_keyed el" "graph_of el children" "kahn_inv el indegree ready planned"
  shows "kahn el children indegree ready planned = greedy el planned"
  using assms
proof (induction el children indegree ready planned rule: kahn.induct)
  case (1 el children indegree ready planned)
  show ?case
  proof (cases "sort_key wake_key ready")
    case Nil
    then have "ready = []" by (metis length_0_conv length_sort)
    then have "available el planned = []" using 1(4) by (auto simp: kahn_inv_def)
    then show ?thesis using Nil by (simp add: kahn.simps [of el] greedy.simps [of el])
  next
    case (Cons nxt rest)
    obtain indegree' ready' where r: "relax el (list_at children (hp_ID nxt)) indegree rest = (indegree', ready')"
      by fastforce
    have "kahn el children indegree ready planned = kahn el children indegree' ready' (planned @ [hp_ID nxt])"
      using Cons r by (subst kahn.simps) simp
    also have "\<dots> = greedy el (planned @ [hp_ID nxt])"
      using 1(1) [OF Cons r [symmetric]] kahn_inv_step [OF 1(2,3,4) Cons r] 1(2,3) by simp
    also have "\<dots> = greedy el planned"
      using greedy_head [OF 1(2,4) Cons] by (auto simp: greedy.simps [of el planned])
    finally show ?thesis .
  qed
qed

section \<open>Correctness of the plan\<close>

text \<open>\<open>ordered el xs\<close>: distinct eligible hosts, each after all its eligible dependencies.\<close>

definition ordered :: "cfg_map \<Rightarrow> string list \<Rightarrow> bool" where
  "ordered el xs \<longleftrightarrow> distinct xs \<and> set xs \<subseteq> fset (fmdom el)
     \<and> (\<forall>i < length xs. set (deps_in el (xs ! i)) \<subseteq> set (take i xs))"

lemma ordered_snoc:
  assumes "ordered el xs" "hid \<in> set (available el xs)"
  shows "ordered el (xs @ [hid])"
  using assms by (auto simp: ordered_def available_set nth_append less_Suc_eq)

lemma greedy_ordered:
  "ordered el planned \<Longrightarrow> ordered el (greedy el planned) \<and> available el (greedy el planned) = []"
proof (induction el planned rule: greedy.induct)
  case (1 el planned)
  show ?case
  proof (cases "sort_key (\<lambda>hid. wake_key (cfg_at el hid)) (available el planned)")
    case Nil
    then have "available el planned = []" by (metis length_0_conv length_sort)
    then show ?thesis using Nil 1(2) by (simp add: greedy.simps [of el planned])
  next
    case (Cons hid tl)
    then have "ordered el (planned @ [hid])"
      using ordered_snoc [OF 1(2)] sort_key_head(1) by fastforce
    then show ?thesis
      using 1(1) [OF Cons] Cons by (simp add: greedy.simps [of el planned])
  qed
qed

definition dep_rel :: "cfg_map \<Rightarrow> (string \<times> string) set" where
  "dep_rel el = {(d, h). h |\<in>| fmdom el \<and> d \<in> set (deps_in el h)}"

lemma finite_dep_rel: "finite (dep_rel el)"
  by (rule finite_subset [of _ "fset (fmdom el) \<times> fset (fmdom el)"]) (auto simp: dep_rel_def deps_in_def)

lemma ordered_complete_acyclic:
  assumes "ordered el xs" "set xs = fset (fmdom el)"
  shows "acyclic (dep_rel el)"
proof -
  define rank where "rank h = (THE i. i < length xs \<and> xs ! i = h)" for h
  have rank: "rank (xs ! i) = i" if "i < length xs" for i
    unfolding rank_def using assms(1) that by (intro the_equality) (auto simp: ordered_def nth_eq_iff_index_eq)
  have "rank d < rank h" if dh: "(d, h) \<in> dep_rel el" for d h
  proof -
    have "h \<in> set xs" using dh assms(2) by (simp add: dep_rel_def)
    then obtain i where i: "i < length xs" "xs ! i = h"
      unfolding in_set_conv_nth by blast
    then have "d \<in> set (take i xs)" using dh assms(1) by (auto simp: ordered_def dep_rel_def)
    then obtain j where "j < i" "xs ! j = d" using i(1) by (auto simp: in_set_conv_nth)
    then show ?thesis using rank [of j] rank [of i] i by simp
  qed
  then have "dep_rel el \<subseteq> measure rank" by auto
  then show ?thesis by (meson wf_acyclic wf_measure wf_subset)
qed

lemma acyclic_complete:
  assumes "acyclic (dep_rel el)" "ordered el xs" "available el xs = []"
  shows "set xs = fset (fmdom el)"
proof (rule ccontr)
  assume "set xs \<noteq> fset (fmdom el)"
  then obtain h where h: "h \<in> fset (fmdom el) - set xs" using assms(2) by (auto simp: ordered_def)
  have "wf (dep_rel el)" by (rule finite_acyclic_wf [OF finite_dep_rel assms(1)])
  then obtain m where m: "m \<in> fset (fmdom el) - set xs" "\<And>d. (d, m) \<in> dep_rel el \<Longrightarrow> d \<notin> fset (fmdom el) - set xs"
    using wfE_min [OF _ h] by metis
  then have "set (deps_in el m) \<subseteq> set xs" by (auto simp: dep_rel_def deps_in_def)
  then have "m \<in> set (available el xs)" using m(1) by (simp add: available_set)
  then show False using assms(3) by simp
qed

lemma ordered_length:
  assumes "ordered el xs"
  shows "length xs = fcard (fmdom el) \<longleftrightarrow> set xs = fset (fmdom el)"
proof -
  have "length xs = card (set xs)" using assms by (simp add: ordered_def distinct_card)
  moreover have "set xs \<subseteq> fset (fmdom el)" using assms by (simp add: ordered_def)
  ultimately show ?thesis
    using card_subset_eq [of "fset (fmdom el)" "set xs"] by (auto simp: fcard.rep_eq)
qed

text \<open>The plan in any iteration order is the greedy reference, or an error when that is incomplete.\<close>

lemma recovery_plan_greedy:
  assumes "enumerates order el" "enumerates order' el" and el: "el = eligible_map hosts states"
  shows "recovery_plan_in_order order order' hosts states
    = (if set (greedy el []) = fset (fmdom el) then Some (greedy el []) else None)"
proof -
  obtain indegree children where g: "build_graph el order = (indegree, children)" by fastforce
  have keyed: "well_keyed el" unfolding el by (rule eligible_map_keyed)
  have deg: "int_at indegree k = int (length (deps_in el k))" if "k |\<in>| fmdom el" for k
    using build_graph_spec(1) [OF assms(1) that] g by simp
  have graph: "graph_of el children"
    using build_graph_spec(2) [OF assms(1)] g by (simp add: graph_of_def)
  let ?ids = "filter (\<lambda>hid. int_at indegree hid = 0) order'"
  have "set ?ids = set (available el [])"
    using assms(2) deg by (auto simp: enumerates_def available_set)
  moreover have "distinct ?ids" using assms(2) by (simp add: enumerates_def)
  ultimately have "kahn_inv el indegree (map (cfg_at el) ?ids) []"
    using deg by (auto simp: kahn_inv_def)
  from kahn_greedy [OF keyed graph this]
  have "recovery_plan_in_order order order' hosts states
      = (if length (greedy el []) \<noteq> fcard (fmdom el) then None else Some (greedy el []))"
    using g by (simp add: recovery_plan_in_order_def el [symmetric])
  moreover have "ordered el (greedy el [])"
    using greedy_ordered [of el "[]"] by (simp add: ordered_def)
  ultimately show ?thesis using ordered_length by auto
qed

lemma BuildRecoveryPlan_greedy:
  "BuildRecoveryPlan hosts states
     = (let el = eligible_map hosts states
        in if set (greedy el []) = fset (fmdom el) then Some (greedy el []) else None)"
  unfolding BuildRecoveryPlan_def Let_def
  by (rule recovery_plan_greedy) (simp_all add: enumerates_def sorted_list_of_fset.rep_eq)

lemma eligible_map_dom:
  "hid |\<in>| fmdom (eligible_map hosts states) \<longleftrightarrow>
     (\<exists>h st. h \<in> set hosts \<and> hp_ID h = hid \<and> fmlookup states hid = Some st \<and> EligibleForRestore h st)"
proof -
  let ?f = "\<lambda>h el. case fmlookup states (hp_ID h) of
             None \<Rightarrow> el
           | Some st \<Rightarrow> if EligibleForRestore h st then fmupd (hp_ID h) h el else el"
  have "hid |\<in>| fmdom (fold ?f hosts el) \<longleftrightarrow> hid |\<in>| fmdom el
     \<or> (\<exists>h st. h \<in> set hosts \<and> hp_ID h = hid \<and> fmlookup states hid = Some st \<and> EligibleForRestore h st)" for el
  proof (induction hosts arbitrary: el)
    case (Cons h hosts)
    have "hid |\<in>| fmdom (?f h el) \<longleftrightarrow> hid |\<in>| fmdom el
       \<or> (\<exists>st. hp_ID h = hid \<and> fmlookup states hid = Some st \<and> EligibleForRestore h st)"
      by (auto split: option.split)
    then show ?case unfolding fold_Cons comp_apply Cons.IH by auto
  qed simp
  from this [of fmempty] show ?thesis by (simp add: eligible_map_def)
qed

section \<open>Properties\<close>

definition demo_host :: "string \<Rightarrow> int \<Rightarrow> string list \<Rightarrow> host_cfg" where
  "demo_host hid prio deps = zero_cfg\<lparr>hp_ID := hid, hp_ShutdownMethod := ''ssh'', hp_WakeEnabled := True,
     hp_WakePriority := prio, hp_RestorePolicy := ''always'', hp_DependsOn := deps\<rparr>"

definition demo_fleet :: "host_cfg list" where
  "demo_fleet = [demo_host ''a'' 2 [''b''], demo_host ''b'' 1 []]"

definition demo_states :: host_map where
  "demo_states = fmupd ''a'' zero_host_state (fmupd ''b'' zero_host_state fmempty)"

lemma demo_plan: "BuildRecoveryPlan demo_fleet demo_states = Some [''b'', ''a'']"
  by code_simp

text \<open>
  The recovery plan does not depend on Go's map iteration order: whatever orders the two
  loops over maps take, the result is the same.
\<close>

theorem recovery_plan_order_independent:
  assumes "enumerates order (eligible_map hosts states)" "enumerates order' (eligible_map hosts states)"
  shows "recovery_plan_in_order order order' hosts states = BuildRecoveryPlan hosts states"
  unfolding BuildRecoveryPlan_greedy Let_def by (rule recovery_plan_greedy [OF assms refl])

theorem recovery_plan_order_independent_witness:
  "recovery_plan_in_order [''b'', ''a''] [''a'', ''b''] demo_fleet demo_states = Some [''b'', ''a'']"
proof -
  have "enumerates [''b'', ''a''] (eligible_map demo_fleet demo_states)"
      "enumerates [''a'', ''b''] (eligible_map demo_fleet demo_states)"
    by code_simp+
  from recovery_plan_order_independent [OF this] demo_plan show ?thesis by simp
qed

text \<open>
  Claim C14. A recovery plan lists exactly the hosts that are eligible for restoration, each once,
  and each after every eligible host it depends on.
\<close>

theorem recovery_plan_topological:
  assumes "BuildRecoveryPlan hosts states = Some plan"
  shows "distinct plan
    \<and> (\<forall>hid. hid \<in> set plan \<longleftrightarrow> (\<exists>h st. h \<in> set hosts \<and> hp_ID h = hid \<and> fmlookup states hid = Some st
                                    \<and> EligibleForRestore h st))
    \<and> (\<forall>i < length plan. \<forall>d \<in> set (hp_DependsOn (cfg_at (eligible_map hosts states) (plan ! i))).
         d \<in> set plan \<longrightarrow> d \<in> set (take i plan))"
proof -
  let ?el = "eligible_map hosts states"
  have "plan = greedy ?el []" and s: "set plan = fset (fmdom ?el)"
    using assms by (auto simp: BuildRecoveryPlan_greedy Let_def split: if_splits)
  then have o: "ordered ?el plan" using greedy_ordered [of ?el "[]"] by (simp add: ordered_def)
  then show ?thesis
    using s unfolding ordered_def
    by (auto simp: deps_in_def subset_iff eligible_map_dom)
qed

theorem recovery_plan_topological_witness:
  "BuildRecoveryPlan demo_fleet demo_states = Some [''b'', ''a'']
   \<and> ''b'' \<in> set (hp_DependsOn (cfg_at (eligible_map demo_fleet demo_states) ''a''))
   \<and> ''b'' \<in> set (take 1 [''b'', ''a''])"
proof -
  have "''b'' \<in> set (hp_DependsOn (cfg_at (eligible_map demo_fleet demo_states) ''a''))"
    by code_simp
  then show ?thesis using recovery_plan_topological [OF demo_plan] demo_plan by auto
qed

lemma plan_fails_iff_cycle:
  "BuildRecoveryPlan hosts states = None \<longleftrightarrow> \<not> acyclic (dep_rel (eligible_map hosts states))"
proof -
  let ?el = "eligible_map hosts states"
  have o: "ordered ?el (greedy ?el [])" "available ?el (greedy ?el []) = []"
    using greedy_ordered [of ?el "[]"] by (simp_all add: ordered_def)
  show ?thesis
    unfolding BuildRecoveryPlan_greedy Let_def
    using acyclic_complete [OF _ o] ordered_complete_acyclic [OF o(1)] by auto
qed

text \<open>
  Planning fails exactly when the eligible hosts depend on each other in a cycle.
\<close>

theorem recovery_plan_error_iff_cycle:
  "BuildRecoveryPlan hosts states = None \<longleftrightarrow> \<not> acyclic (dep_rel (eligible_map hosts states))"
  by (rule plan_fails_iff_cycle)

text \<open>
  Claim C15. The queue-based planner computes the greedy plan: at every position the host with the
  least wake priority, ties broken by identifier, among those whose eligible dependencies are
  already planned.
\<close>

theorem recovery_plan_is_greedy:
  "BuildRecoveryPlan hosts states
     = (let el = eligible_map hosts states
        in if set (greedy el []) = fset (fmdom el) then Some (greedy el []) else None)"
  by (rule BuildRecoveryPlan_greedy)

text \<open>
  The shutdown plan covers the fleet: the direct hosts come in the order of priority and
  identifier, the NUT group in the order of identifier, each host as often as it is configured, and
  no others.
\<close>

theorem shutdown_plan_partitions:
  "mset (sp_PreFSD (BuildShutdownPlan hosts))
     = image_mset hp_ID (filter_mset (\<lambda>h. direct_method (hp_ShutdownMethod h)) (mset hosts))
   \<and> mset (sp_NUTGroup (BuildShutdownPlan hosts))
     = image_mset hp_ID (filter_mset (\<lambda>h. hp_ShutdownMethod h = ''nut'') (mset hosts))
   \<and> sorted (sp_NUTGroup (BuildShutdownPlan hosts))
   \<and> (\<exists>hs. sp_PreFSD (BuildShutdownPlan hosts) = map hp_ID hs
        \<and> sorted (map (\<lambda>h. (hp_ShutdownPriority h, hp_ID h)) hs) \<and> set hs \<subseteq> set hosts)"
proof -
  let ?k = "\<lambda>h. (hp_ShutdownPriority h, hp_ID h)"
  have "sorted (map ?k (sort_key ?k (filter (\<lambda>h. direct_method (hp_ShutdownMethod h)) hosts)))"
    by (rule sorted_sort_key)
  then show ?thesis
    by (auto simp: BuildShutdownPlan_def Let_def mset_filter
        intro!: exI [of _ "sort_key ?k (filter (\<lambda>h. direct_method (hp_ShutdownMethod h)) hosts)"])
qed

end
