(* ===== verification/Policy_Reasons.thy ===== *)
theory Policy_Reasons
  imports Prelude
begin

text \<open>
  The diagnostic texts of the policy engine's decisions (\<^verbatim>\<open>Decision.Reason\<close> in
  \<^verbatim>\<open>agent/internal/policy/engine.go\<close>). They are named constants so that the proofs about the
  transitions do not rewrite inside the literals.
\<close>

definition R_checkpointed_suffix :: string where
  "R_checkpointed_suffix = ''; outage elapsed checkpointed''"

definition R_outage_grace_period :: string where
  "R_outage_grace_period = ''outage grace period''"

definition R_critical_runtime_threshold_reached :: string where
  "R_critical_runtime_threshold_reached = ''critical runtime threshold reached''"

definition R_critical_battery_threshold_reached :: string where
  "R_critical_battery_threshold_reached = ''critical battery threshold reached''"

definition R_maximum_time_on_battery_reached :: string where
  "R_maximum_time_on_battery_reached = ''maximum time on battery reached''"

definition R_no_trigger :: string where
  "R_no_trigger = ''on battery; no shutdown trigger reached''"

definition R_awaiting_confirmation :: string where
  "R_awaiting_confirmation = ''utility online sample observed; awaiting confirmation''"

definition R_utility_restored :: string where
  "R_utility_restored = ''utility restored before shutdown commit after consecutive confirmation''"

definition R_low_battery_observed :: string where
  "R_low_battery_observed = ''low battery observed''"

definition R_communication_loss :: string where
  "R_communication_loss = ''UPS communication loss grace expired during active outage''"

definition R_unknown_within_grace :: string where
  "R_unknown_within_grace = ''UPS state unknown; outage context retained within communication-loss grace''"

definition R_automatic_recovery_disabled :: string where
  "R_automatic_recovery_disabled = ''automatic recovery disabled''"

definition R_recovery_gate_reset_by_unsafe_power :: string where
  "R_recovery_gate_reset_by_unsafe_power = ''recovery gate reset by unsafe power''"

definition R_recovery_blocked_ups_state_unknown :: string where
  "R_recovery_blocked_ups_state_unknown = ''recovery blocked: UPS state unknown''"

definition R_utility_stability_timer :: string where
  "R_utility_stability_timer = ''utility stability timer''"

definition R_ups_recharge_gate_not_satisfied :: string where
  "R_ups_recharge_gate_not_satisfied = ''UPS recharge gate not satisfied''"

definition R_network_wait_expired :: string where
  "R_network_wait_expired = ''network dependencies did not become ready within configured recovery wait''"

definition R_network_not_ready :: string where
  "R_network_not_ready = ''network not ready''"

definition R_control_stack_health_not_safe :: string where
  "R_control_stack_health_not_safe = ''control stack health not safe''"

definition R_all_recovery_gates_satisfied :: string where
  "R_all_recovery_gates_satisfied = ''all recovery gates satisfied''"

definition R_waiting_for_trustworthy_ups_state :: string where
  "R_waiting_for_trustworthy_ups_state = ''waiting for trustworthy UPS state''"

definition R_recovery_disabled_boot :: string where
  "R_recovery_disabled_boot = ''automatic recovery disabled during boot reconciliation''"

definition R_booted_unsafe :: string where
  "R_booted_unsafe = ''booted into unsafe power after recovery started''"

definition R_resumed_recovery_re_gated_after_boot :: string where
  "R_resumed_recovery_re_gated_after_boot = ''resumed recovery re-gated after boot''"

definition R_completing_interrupted_recovery_abort :: string where
  "R_completing_interrupted_recovery_abort = ''completing interrupted recovery abort''"

definition R_committed_recovery_disabled :: string where
  "R_committed_recovery_disabled = ''committed shutdown found; automatic recovery disabled''"

definition R_committed_wait_gates :: string where
  "R_committed_wait_gates = ''committed shutdown found; utility online; wait recovery gates''"

definition R_committed_wait_utility :: string where
  "R_committed_wait_utility = ''committed shutdown found; wait for utility''"

definition R_booted_while_on_battery :: string where
  "R_booted_while_on_battery = ''booted while on battery''"

definition R_boot_reconciliation_complete :: string where
  "R_boot_reconciliation_complete = ''boot reconciliation complete''"

definition R_ups_on_battery :: string where
  "R_ups_on_battery = ''UPS on battery''"

definition R_gates_pending :: string where
  "R_gates_pending = ''utility restored; recovery gates pending''"

definition R_unsafe_after_commit :: string where
  "R_unsafe_after_commit = ''unsafe UPS state after recovery commit''"

definition R_health_unsafe_recovery :: string where
  "R_health_unsafe_recovery = ''critical control-stack health became unsafe during recovery''"

definition R_network_timeout :: string where
  "R_network_timeout = ''network readiness timeout during committed recovery''"

definition R_recovery_paused_network_not_ready :: string where
  "R_recovery_paused_network_not_ready = ''recovery paused: network not ready''"

definition R_recovery_commit_durable :: string where
  "R_recovery_commit_durable = ''recovery commit durable''"

definition R_power_failed_during_host_restoration :: string where
  "R_power_failed_during_host_restoration = ''power failed during host restoration''"

definition R_health_unsafe_restoration :: string where
  "R_health_unsafe_restoration = ''critical control-stack health became unsafe during host restoration''"

definition R_host_restoration_paused_network_not_ready :: string where
  "R_host_restoration_paused_network_not_ready = ''host restoration paused: network not ready''"

definition R_failed_safe :: string where
  "R_failed_safe = ''FAILED_SAFE''"

definition R_fsd_observed :: string where
  "R_fsd_observed = ''FSD observed''"

definition R_shutdown_transaction_committed :: string where
  "R_shutdown_transaction_committed = ''shutdown transaction committed''"

definition R_shutdown_completion_ignored :: string where
  "R_shutdown_completion_ignored = ''shutdown completion ignored outside shutdown phase''"

definition R_managed_shutdown_phase_complete :: string where
  "R_managed_shutdown_phase_complete = ''managed shutdown phase complete''"

definition R_recovery_completion_ignored :: string where
  "R_recovery_completion_ignored = ''recovery completion ignored outside restore phase''"

definition R_recovery_complete :: string where
  "R_recovery_complete = ''recovery complete''"

end
