(* ===== verification/Policy_Engine.thy ===== *)
theory Policy_Engine
  imports State_Model Policy_Reasons
begin

text \<open>
  The policy engine of \<^verbatim>\<open>agent/internal/policy/engine.go\<close>: the deterministic state machine that
  turns normalized UPS observations into durable state transitions and actions. Every method of
  \<^verbatim>\<open>Engine\<close> is a function from the engine to its result and the mutated engine.
\<close>

section \<open>Normalized UPS status (nut/client.go)\<close>

datatype utility_state = UtilityOnline | UtilityOnBattery | UtilityUnknown

record status =
  us_Utility :: utility_state
  us_LowBattery :: bool
  us_FSD :: bool
  us_ChargePercent :: "float64 option"
  us_RuntimeSeconds :: "int option"
  us_RawStatus :: string
  us_Variables :: "(string, string) fmap"

section \<open>Configuration, inputs, decisions, engine\<close>

definition outageCheckpointInterval :: duration where
  "outageCheckpointInterval = 30 * Second"

definition preCommitOnlineConfirmations :: int where
  "preCommitOnlineConfirmations = 2"

record policy_config =
  pc_GracePeriod :: duration
  pc_MaxOnBattery :: duration
  pc_CriticalCharge :: "float64 option"
  pc_CriticalRuntime :: duration
  pc_CommunicationLossGrace :: duration
  pc_RecoveryEnabled :: "bool option"
  pc_UtilityStable :: duration
  pc_RecoveryChargeMin :: "float64 option"
  pc_RecoveryRuntimeMin :: duration
  pc_RecoveryRechargeTime :: duration
  pc_RecoveryNetworkWait :: duration

record inputs =
  in_UPS :: status
  in_NetworkReady :: bool
  in_HealthSafe :: bool

datatype action =
    ActionNone
  | ActionCommitShutdown
  | ActionStopRecovery
  | ActionCommitRecovery
  | ActionStartRestore

record decision =
  d_Changed :: bool
  d_Action :: action
  d_Reason :: string

record engine =
  eng_cfg :: policy_config
  eng_st :: power_txn
  eng_resumeState :: power_state
  eng_onBatterySince :: gtime
  eng_onlineSince :: gtime
  eng_unknownSince :: gtime
  eng_networkWaitSince :: gtime
  eng_lastOutageCheckpoint :: gtime
  eng_onlineConfirmations :: int

datatype engine_error = UnsupportedPowerState power_state | UnhandledBootInput

definition changed :: "action \<Rightarrow> string \<Rightarrow> decision" where
  "changed a r = \<lparr>d_Changed = True, d_Action = a, d_Reason = r\<rparr>"

definition unchanged :: "string \<Rightarrow> decision" where
  "unchanged r = \<lparr>d_Changed = False, d_Action = ActionNone, d_Reason = r\<rparr>"

definition with_st :: "(power_txn \<Rightarrow> power_txn) \<Rightarrow> engine \<Rightarrow> engine" where
  "with_st f e = e\<lparr>eng_st := f (eng_st e)\<rparr>"

definition New_Engine :: "policy_config \<Rightarrow> power_txn \<Rightarrow> engine" where
  "New_Engine cfg persisted =
     (let cfg' = (if pc_UtilityStable cfg \<le> 0 then cfg\<lparr>pc_UtilityStable := 120 * Second\<rparr> else cfg);
          p1 = (if st_StateVersion persisted = 0 then persisted\<lparr>st_StateVersion := Version\<rparr>
                else persisted);
          resume = st_PowerState p1
      in \<lparr>eng_cfg = cfg', eng_st = p1\<lparr>st_PowerState := BootReconcile\<rparr>, eng_resumeState = resume,
          eng_onBatterySince = None, eng_onlineSince = None, eng_unknownSince = None,
          eng_networkWaitSince = None, eng_lastOutageCheckpoint = None,
          eng_onlineConfirmations = 0\<rparr>)"

section \<open>Gates\<close>

definition recoveryEnabled :: "policy_config \<Rightarrow> bool" where
  "recoveryEnabled cfg = (case pc_RecoveryEnabled cfg of None \<Rightarrow> True | Some b \<Rightarrow> b)"

definition rechargeGate :: "policy_config \<Rightarrow> status \<Rightarrow> duration \<Rightarrow> bool" where
  "rechargeGate cfg st stableFor =
     (case pc_RecoveryChargeMin cfg of
        Some cmin \<Rightarrow>
          (case us_ChargePercent st of
             Some c \<Rightarrow> f64_le cmin c
           | None \<Rightarrow>
               (if pc_RecoveryRuntimeMin cfg > 0 \<and> us_RuntimeSeconds st \<noteq> None
                then seconds (the (us_RuntimeSeconds st)) \<ge> pc_RecoveryRuntimeMin cfg
                else if pc_RecoveryRechargeTime cfg > 0
                then stableFor \<ge> pc_RecoveryRechargeTime cfg
                else False))
      | None \<Rightarrow>
          (if pc_RecoveryRuntimeMin cfg > 0 then
             (case us_RuntimeSeconds st of
                Some n \<Rightarrow> seconds n \<ge> pc_RecoveryRuntimeMin cfg
              | None \<Rightarrow>
                  (if pc_RecoveryRechargeTime cfg > 0
                   then stableFor \<ge> pc_RecoveryRechargeTime cfg
                   else False))
           else if pc_RecoveryRechargeTime cfg > 0
           then stableFor \<ge> pc_RecoveryRechargeTime cfg
           else False))"

definition unsafeUPS :: "status \<Rightarrow> bool" where
  "unsafeUPS st =
     (us_Utility st = UtilityOnBattery \<or> us_Utility st = UtilityUnknown
      \<or> us_LowBattery st \<or> us_FSD st)"

section \<open>Transitions\<close>

definition failSafe :: "string \<Rightarrow> engine \<Rightarrow> decision \<times> engine" where
  "failSafe reason e =
     (changed ActionNone reason,
      with_st (\<lambda>st. st\<lparr>st_PowerState := FailedSafe, st_FailedSafeReason := reason\<rparr>) e)"

definition commitShutdown :: "string \<Rightarrow> engine \<Rightarrow> decision \<times> engine" where
  "commitShutdown reason e =
     (changed ActionCommitShutdown reason,
      with_st (\<lambda>st. st\<lparr>st_ShutdownCommitted := True, st_PowerState := ShutdownCommitted\<rparr>) e)"

definition recordOutageElapsed :: "duration \<Rightarrow> engine \<Rightarrow> engine" where
  "recordOutageElapsed elapsed e =
     (let secs = go_div elapsed Second
      in if secs > st_OutageElapsedSeconds (eng_st e)
         then with_st (\<lambda>st. st\<lparr>st_OutageElapsedSeconds := secs\<rparr>) e
         else e)"

definition checkpointOutage :: "instant \<Rightarrow> duration \<Rightarrow> string \<Rightarrow> engine \<Rightarrow> decision \<times> engine" where
  "checkpointOutage now elapsed reason e =
     (if eng_lastOutageCheckpoint e = None
      then (unchanged reason, e\<lparr>eng_lastOutageCheckpoint := Some now\<rparr>)
      else if time_Sub now (eng_lastOutageCheckpoint e) < outageCheckpointInterval
      then (unchanged reason, e)
      else
        (let before = st_OutageElapsedSeconds (eng_st e);
             e1 = recordOutageElapsed elapsed e;
             e2 = e1\<lparr>eng_lastOutageCheckpoint := Some now\<rparr>
         in if st_OutageElapsedSeconds (eng_st e2) \<noteq> before
            then (changed ActionNone (reason @ R_checkpointed_suffix), e2)
            else (unchanged reason, e2)))"

text \<open>
  The tail of \<^verbatim>\<open>stepOnBattery\<close>, reached with a trustworthy on-battery sample and the start of the
  outage known: the grace period, then the triggers that commit a shutdown, in the order tested.
\<close>

definition outageTriggers :: "instant \<Rightarrow> status \<Rightarrow> engine \<Rightarrow> decision \<times> engine" where
  "outageTriggers now ups e =
     (let cfg = eng_cfg e; elapsed = time_Sub now (eng_onBatterySince e) in
      if elapsed < pc_GracePeriod cfg
      then checkpointOutage now elapsed R_outage_grace_period e
      else if pc_CriticalRuntime cfg > 0 \<and> us_RuntimeSeconds ups \<noteq> None
              \<and> seconds (the (us_RuntimeSeconds ups)) \<le> pc_CriticalRuntime cfg
      then commitShutdown R_critical_runtime_threshold_reached (recordOutageElapsed elapsed e)
      else if pc_CriticalCharge cfg \<noteq> None \<and> us_ChargePercent ups \<noteq> None
              \<and> f64_le (the (us_ChargePercent ups)) (the (pc_CriticalCharge cfg))
      then commitShutdown R_critical_battery_threshold_reached (recordOutageElapsed elapsed e)
      else if pc_MaxOnBattery cfg > 0 \<and> elapsed \<ge> pc_MaxOnBattery cfg
      then commitShutdown R_maximum_time_on_battery_reached (recordOutageElapsed elapsed e)
      else checkpointOutage now elapsed R_no_trigger e)"

definition stepOnBattery :: "instant \<Rightarrow> inputs \<Rightarrow> engine \<Rightarrow> decision \<times> engine" where
  "stepOnBattery now inp e =
     (let ups = in_UPS inp; cfg = eng_cfg e in
      if us_Utility ups = UtilityOnline \<and> \<not> st_ShutdownCommitted (eng_st e) then
        (let e1 = e\<lparr>eng_unknownSince := None,
                     eng_onlineConfirmations := eng_onlineConfirmations e + 1\<rparr>
         in if eng_onlineConfirmations e1 < preCommitOnlineConfirmations
            then (unchanged R_awaiting_confirmation, e1)
            else
              (changed ActionNone
                 R_utility_restored,
               with_st (\<lambda>st. st\<lparr>st_OutageElapsedSeconds := 0, st_PowerState := Normal\<rparr>)
                 (e1\<lparr>eng_onlineConfirmations := 0, eng_onBatterySince := None,
                     eng_lastOutageCheckpoint := None\<rparr>)))
      else
        (let e1 = e\<lparr>eng_onlineConfirmations := 0\<rparr> in
         if us_LowBattery ups \<and> us_Utility ups \<noteq> UtilityOnline
         then commitShutdown R_low_battery_observed e1
         else if us_Utility ups = UtilityUnknown then
           (let e2 = (if eng_unknownSince e1 = None then e1\<lparr>eng_unknownSince := Some now\<rparr> else e1)
            in if pc_CommunicationLossGrace cfg > 0
                  \<and> time_Sub now (eng_unknownSince e2) \<ge> pc_CommunicationLossGrace cfg
               then commitShutdown R_communication_loss e2
               else
                 (unchanged
                    R_unknown_within_grace,
                  e2))
         else
           (let e2 = e1\<lparr>eng_unknownSince := None\<rparr> in
            if us_Utility ups \<noteq> UtilityOnBattery then (unchanged '''', e2)
            else
              outageTriggers now ups
                (if eng_onBatterySince e2 = None
                 then e2\<lparr>eng_onBatterySince := Some now, eng_lastOutageCheckpoint := Some now\<rparr>
                 else e2))))"

definition stepRecoveryWait :: "instant \<Rightarrow> inputs \<Rightarrow> engine \<Rightarrow> decision \<times> engine" where
  "stepRecoveryWait now inp e =
     (let ups = in_UPS inp; cfg = eng_cfg e in
      if \<not> recoveryEnabled cfg then
        (changed ActionNone R_automatic_recovery_disabled,
         with_st (\<lambda>st. st\<lparr>st_PowerState := WaitingForAC\<rparr>)
           (e\<lparr>eng_onlineSince := None, eng_networkWaitSince := None\<rparr>))
      else if us_Utility ups \<noteq> UtilityOnline \<or> us_LowBattery ups \<or> us_FSD ups then
        (let e1 = e\<lparr>eng_onlineSince := None, eng_networkWaitSince := None\<rparr> in
         if us_Utility ups = UtilityOnBattery \<or> us_LowBattery ups \<or> us_FSD ups
         then (changed ActionNone R_recovery_gate_reset_by_unsafe_power,
               with_st (\<lambda>st. st\<lparr>st_PowerState := WaitingForAC\<rparr>) e1)
         else (unchanged R_recovery_blocked_ups_state_unknown, e1))
      else
        (let e1 = (if eng_onlineSince e = None then e\<lparr>eng_onlineSince := Some now\<rparr> else e);
             stableFor = time_Sub now (eng_onlineSince e1)
         in
         if stableFor < pc_UtilityStable cfg
         then (unchanged R_utility_stability_timer, e1\<lparr>eng_networkWaitSince := None\<rparr>)
         else if \<not> rechargeGate cfg ups stableFor
         then (unchanged R_ups_recharge_gate_not_satisfied, e1\<lparr>eng_networkWaitSince := None\<rparr>)
         else if \<not> in_NetworkReady inp then
           (let e2 = (if eng_networkWaitSince e1 = None
                      then e1\<lparr>eng_networkWaitSince := Some now\<rparr> else e1)
            in if pc_RecoveryNetworkWait cfg > 0
                  \<and> time_Sub now (eng_networkWaitSince e2) \<ge> pc_RecoveryNetworkWait cfg
               then failSafe
                 R_network_wait_expired e2
               else (unchanged R_network_not_ready, e2))
         else
           (let e2 = e1\<lparr>eng_networkWaitSince := None\<rparr> in
            if \<not> in_HealthSafe inp then (unchanged R_control_stack_health_not_safe, e2)
            else
              (changed ActionCommitRecovery R_all_recovery_gates_satisfied,
               with_st (\<lambda>st. st\<lparr>st_RecoveryStarted := True, st_PowerState := RecoveryStarted\<rparr>) e2))))"

definition reconcileBoot :: "instant \<Rightarrow> inputs \<Rightarrow> engine \<Rightarrow> (engine_error + decision) \<times> engine" where
  "reconcileBoot now inp e =
     (let ups = in_UPS inp; cfg = eng_cfg e; st = eng_st e in
      if us_Utility ups = UtilityUnknown
      then (Inr (unchanged R_waiting_for_trustworthy_ups_state), e)
      else if st_RecoveryStarted st then
        (if \<not> recoveryEnabled cfg then
           (Inr (changed ActionStopRecovery
                  R_recovery_disabled_boot),
            with_st (\<lambda>st. st\<lparr>st_RecoveryStarted := False, st_PowerState := WaitingForAC\<rparr>) e)
         else if us_Utility ups = UtilityOnBattery \<or> us_LowBattery ups \<or> us_FSD ups then
           (Inr (changed ActionStopRecovery R_booted_unsafe),
            with_st (\<lambda>st. st\<lparr>st_RecoveryStarted := False, st_PowerState := OnBattery\<rparr>) e)
         else
           (Inr (changed ActionNone R_resumed_recovery_re_gated_after_boot),
            with_st (\<lambda>st. st\<lparr>st_RecoveryStarted := False, st_PowerState := RecoveryWait\<rparr>)
              (e\<lparr>eng_onlineSince := Some now, eng_networkWaitSince := None\<rparr>)))
      else if st_ShutdownCommitted st \<and> eng_resumeState e = OnBattery
              \<and> us_Utility ups = UtilityOnBattery then
        (Inr (changed ActionStopRecovery R_completing_interrupted_recovery_abort),
         with_st (\<lambda>st. st\<lparr>st_PowerState := OnBattery\<rparr>) e)
      else if st_ShutdownCommitted st then
        (if us_Utility ups = UtilityOnline then
           (if \<not> recoveryEnabled cfg then
              (Inr \<lparr>d_Changed = (eng_resumeState e \<noteq> WaitingForAC), d_Action = ActionNone,
                    d_Reason = R_committed_recovery_disabled\<rparr>,
               with_st (\<lambda>st. st\<lparr>st_PowerState := WaitingForAC\<rparr>) e)
            else
              (Inr (changed ActionNone
                     R_committed_wait_gates),
               with_st (\<lambda>st. st\<lparr>st_PowerState := RecoveryWait\<rparr>)
                 (e\<lparr>eng_onlineSince := Some now, eng_networkWaitSince := None\<rparr>)))
         else
           (Inr (changed ActionNone R_committed_wait_utility),
            with_st (\<lambda>st. st\<lparr>st_PowerState := WaitingForAC\<rparr>) e))
      else if us_Utility ups = UtilityOnBattery then
        (let elapsed0 = seconds (st_OutageElapsedSeconds st);
             elapsed = (if eng_resumeState e = OnBattery \<and> elapsed0 < pc_GracePeriod cfg
                        then pc_GracePeriod cfg else elapsed0)
         in
         (Inr (changed ActionNone R_booted_while_on_battery),
          with_st (\<lambda>st. st\<lparr>st_PowerState := OnBattery\<rparr>)
            (e\<lparr>eng_onBatterySince := time_Add now (int64 (- elapsed)),
               eng_lastOutageCheckpoint := Some now, eng_onlineConfirmations := 0\<rparr>)))
      else if us_Utility ups = UtilityOnline then
        (Inr (changed ActionNone R_boot_reconciliation_complete),
         with_st (\<lambda>st. st\<lparr>st_OutageElapsedSeconds := 0, st_PowerState := Normal\<rparr>) e)
      else (Inl UnhandledBootInput, e))"

text \<open>The branches of \<^verbatim>\<open>Engine.Step\<close>, one definition per \<^verbatim>\<open>case\<close> of its switch that does work.\<close>

definition stepNormal :: "instant \<Rightarrow> inputs \<Rightarrow> engine \<Rightarrow> decision \<times> engine" where
  "stepNormal now inp e =
     (if us_Utility (in_UPS inp) = UtilityOnBattery then
        (changed ActionNone R_ups_on_battery,
         with_st (\<lambda>st. st\<lparr>st_OutageElapsedSeconds := 0, st_PowerState := OnBattery\<rparr>)
           (e\<lparr>eng_onBatterySince := Some now, eng_lastOutageCheckpoint := Some now,
              eng_unknownSince := None, eng_onlineConfirmations := 0\<rparr>))
      else (unchanged '''', e))"

definition stepWaitingForAC :: "instant \<Rightarrow> inputs \<Rightarrow> engine \<Rightarrow> decision \<times> engine" where
  "stepWaitingForAC now inp e =
     (if us_Utility (in_UPS inp) = UtilityOnline then
        (if \<not> recoveryEnabled (eng_cfg e)
         then (unchanged R_automatic_recovery_disabled, e)
         else
           (changed ActionNone R_gates_pending,
            with_st (\<lambda>st. st\<lparr>st_PowerState := RecoveryWait\<rparr>)
              (e\<lparr>eng_onlineSince := Some now, eng_networkWaitSince := None\<rparr>)))
      else (unchanged '''', e))"

definition stepRecoveryStarted :: "instant \<Rightarrow> inputs \<Rightarrow> engine \<Rightarrow> decision \<times> engine" where
  "stepRecoveryStarted now inp e =
     (if \<not> recoveryEnabled (eng_cfg e) then
        (changed ActionStopRecovery R_automatic_recovery_disabled,
         with_st (\<lambda>st. st\<lparr>st_RecoveryStarted := False, st_PowerState := WaitingForAC\<rparr>) e)
      else if unsafeUPS (in_UPS inp) then
        (changed ActionStopRecovery R_unsafe_after_commit,
         with_st (\<lambda>st. st\<lparr>st_RecoveryStarted := False, st_PowerState := OnBattery\<rparr>)
           (e\<lparr>eng_onlineSince := None, eng_networkWaitSince := None\<rparr>))
      else if \<not> in_HealthSafe inp
      then failSafe R_health_unsafe_recovery e
      else if \<not> in_NetworkReady inp then
        (let e1 = (if eng_networkWaitSince e = None then e\<lparr>eng_networkWaitSince := Some now\<rparr> else e)
         in if pc_RecoveryNetworkWait (eng_cfg e) > 0
               \<and> time_Sub now (eng_networkWaitSince e1) \<ge> pc_RecoveryNetworkWait (eng_cfg e)
            then failSafe R_network_timeout e1
            else (unchanged R_recovery_paused_network_not_ready, e1))
      else
        (changed ActionStartRestore R_recovery_commit_durable,
         with_st (\<lambda>st. st\<lparr>st_PowerState := RestoreHosts\<rparr>) (e\<lparr>eng_networkWaitSince := None\<rparr>)))"

definition stepRestoreHosts :: "instant \<Rightarrow> inputs \<Rightarrow> engine \<Rightarrow> decision \<times> engine" where
  "stepRestoreHosts now inp e =
     (if \<not> recoveryEnabled (eng_cfg e) then
        (changed ActionStopRecovery R_automatic_recovery_disabled,
         with_st (\<lambda>st. st\<lparr>st_RecoveryStarted := False, st_PowerState := WaitingForAC\<rparr>) e)
      else if unsafeUPS (in_UPS inp) then
        (changed ActionStopRecovery R_power_failed_during_host_restoration,
         with_st (\<lambda>st. st\<lparr>st_RecoveryStarted := False, st_PowerState := OnBattery\<rparr>)
           (e\<lparr>eng_onlineSince := None, eng_networkWaitSince := None\<rparr>))
      else if \<not> in_HealthSafe inp
      then failSafe R_health_unsafe_restoration e
      else if \<not> in_NetworkReady inp then
        (let e1 = (if eng_networkWaitSince e = None then e\<lparr>eng_networkWaitSince := Some now\<rparr> else e)
         in (changed ActionNone R_host_restoration_paused_network_not_ready,
             with_st (\<lambda>st. st\<lparr>st_PowerState := RecoveryStarted\<rparr>) e1))
      else (unchanged '''', e\<lparr>eng_networkWaitSince := None\<rparr>))"

definition lift_dec :: "decision \<times> engine \<Rightarrow> (engine_error + decision) \<times> engine" where
  "lift_dec r = (Inr (fst r), snd r)"

definition Step :: "instant \<Rightarrow> inputs \<Rightarrow> engine \<Rightarrow> (engine_error + decision) \<times> engine" where
  "Step now inp e =
     (if st_PowerState (eng_st e) = FailedSafe then (Inr (unchanged R_failed_safe), e)
      else if st_PowerState (eng_st e) = BootReconcile then reconcileBoot now inp e
      else if us_FSD (in_UPS inp) \<and> \<not> st_ShutdownCommitted (eng_st e)
      then lift_dec (commitShutdown R_fsd_observed e)
      else
        (case st_PowerState (eng_st e) of
           Normal \<Rightarrow> lift_dec (stepNormal now inp e)
         | OnBattery \<Rightarrow> lift_dec (stepOnBattery now inp e)
         | ShutdownCommitted \<Rightarrow>
             (Inr (changed ActionNone R_shutdown_transaction_committed),
              with_st (\<lambda>st. st\<lparr>st_PowerState := ShutdownInProgress\<rparr>) e)
         | ShutdownInProgress \<Rightarrow> (Inr (unchanged ''''), e)
         | WaitingForAC \<Rightarrow> lift_dec (stepWaitingForAC now inp e)
         | RecoveryWait \<Rightarrow> lift_dec (stepRecoveryWait now inp e)
         | RecoveryStarted \<Rightarrow> lift_dec (stepRecoveryStarted now inp e)
         | RestoreHosts \<Rightarrow> lift_dec (stepRestoreHosts now inp e)
         | ps \<Rightarrow> (Inl (UnsupportedPowerState ps), e)))"

definition MarkShutdownPhaseComplete :: "engine \<Rightarrow> decision \<times> engine" where
  "MarkShutdownPhaseComplete e =
     (if st_PowerState (eng_st e) \<noteq> ShutdownInProgress
         \<and> st_PowerState (eng_st e) \<noteq> ShutdownCommitted
      then (unchanged R_shutdown_completion_ignored, e)
      else (changed ActionNone R_managed_shutdown_phase_complete,
            with_st (\<lambda>st. st\<lparr>st_PowerState := WaitingForAC\<rparr>) e))"

definition MarkRecoveryComplete :: "engine \<Rightarrow> decision \<times> engine" where
  "MarkRecoveryComplete e =
     (if st_PowerState (eng_st e) \<noteq> RestoreHosts
      then (unchanged R_recovery_completion_ignored, e)
      else
        (changed ActionNone R_recovery_complete,
         with_st (\<lambda>st. st\<lparr>st_PowerState := Normal, st_ShutdownCommitted := False,
                          st_RecoveryStarted := False, st_OutageElapsedSeconds := 0\<rparr>)
           (e\<lparr>eng_resumeState := Normal, eng_onBatterySince := None, eng_onlineSince := None,
              eng_unknownSince := None, eng_networkWaitSince := None,
              eng_lastOutageCheckpoint := None, eng_onlineConfirmations := 0\<rparr>)))"

section \<open>Lemma bundles\<close>

lemmas dec_simps [simp] =
  changed_def unchanged_def lift_dec_def with_st_def

lemmas step_branch_defs =
  stepNormal_def stepOnBattery_def stepWaitingForAC_def stepRecoveryWait_def
  stepRecoveryStarted_def stepRestoreHosts_def reconcileBoot_def failSafe_def commitShutdown_def
  checkpointOutage_def recordOutageElapsed_def

section \<open>What a step leaves alone\<close>

text \<open>The engine never rewrites its configuration, the transaction identity or the host table.\<close>

definition same_txn :: "power_txn \<Rightarrow> power_txn \<Rightarrow> bool" where
  "same_txn a b \<longleftrightarrow>
     st_TransactionID a = st_TransactionID b \<and> st_ParentTransactionID a = st_ParentTransactionID b
     \<and> st_ActiveConfigRevision a = st_ActiveConfigRevision b
     \<and> st_StateVersion a = st_StateVersion b \<and> st_Sequence a = st_Sequence b
     \<and> st_LastUPS a = st_LastUPS b \<and> st_Hosts a = st_Hosts b"

lemma recordOutageElapsed_frame [simp]:
  "eng_cfg (recordOutageElapsed d e) = eng_cfg e"
  "eng_resumeState (recordOutageElapsed d e) = eng_resumeState e"
  "eng_onlineSince (recordOutageElapsed d e) = eng_onlineSince e"
  "eng_onBatterySince (recordOutageElapsed d e) = eng_onBatterySince e"
  "eng_unknownSince (recordOutageElapsed d e) = eng_unknownSince e"
  "eng_onlineConfirmations (recordOutageElapsed d e) = eng_onlineConfirmations e"
  "st_PowerState (eng_st (recordOutageElapsed d e)) = st_PowerState (eng_st e)"
  "st_ShutdownCommitted (eng_st (recordOutageElapsed d e)) = st_ShutdownCommitted (eng_st e)"
  "st_RecoveryStarted (eng_st (recordOutageElapsed d e)) = st_RecoveryStarted (eng_st e)"
  "same_txn (eng_st (recordOutageElapsed d e)) st \<longleftrightarrow> same_txn (eng_st e) st"
  by (simp_all add: recordOutageElapsed_def Let_def same_txn_def)

lemma checkpointOutage_frame [simp]:
  "eng_cfg (snd (checkpointOutage now d r e)) = eng_cfg e"
  "eng_resumeState (snd (checkpointOutage now d r e)) = eng_resumeState e"
  "eng_onlineSince (snd (checkpointOutage now d r e)) = eng_onlineSince e"
  "eng_onBatterySince (snd (checkpointOutage now d r e)) = eng_onBatterySince e"
  "eng_unknownSince (snd (checkpointOutage now d r e)) = eng_unknownSince e"
  "eng_onlineConfirmations (snd (checkpointOutage now d r e)) = eng_onlineConfirmations e"
  "st_PowerState (eng_st (snd (checkpointOutage now d r e))) = st_PowerState (eng_st e)"
  "st_ShutdownCommitted (eng_st (snd (checkpointOutage now d r e))) = st_ShutdownCommitted (eng_st e)"
  "st_RecoveryStarted (eng_st (snd (checkpointOutage now d r e))) = st_RecoveryStarted (eng_st e)"
  "d_Action (fst (checkpointOutage now d r e)) = ActionNone"
  by (simp_all add: checkpointOutage_def Let_def)

lemma same_txn_refl [simp]: "same_txn a a"
  by (simp add: same_txn_def)

lemma same_txn_trans: "same_txn a b \<Longrightarrow> same_txn b c \<Longrightarrow> same_txn a c"
  by (simp add: same_txn_def)

lemma checkpointOutage_same_txn [simp]:
  "same_txn (eng_st (snd (checkpointOutage now d r e))) st \<longleftrightarrow> same_txn (eng_st e) st"
  by (simp add: checkpointOutage_def Let_def)

text \<open>Committing a shutdown, and the two outcomes of the triggers.\<close>

lemma commitShutdown_frame [simp]:
  "d_Action (fst (commitShutdown r e)) = ActionCommitShutdown"
  "d_Changed (fst (commitShutdown r e))"
  "d_Reason (fst (commitShutdown r e)) = r"
  "eng_cfg (snd (commitShutdown r e)) = eng_cfg e"
  "eng_resumeState (snd (commitShutdown r e)) = eng_resumeState e"
  "eng_onlineSince (snd (commitShutdown r e)) = eng_onlineSince e"
  "eng_onBatterySince (snd (commitShutdown r e)) = eng_onBatterySince e"
  "eng_unknownSince (snd (commitShutdown r e)) = eng_unknownSince e"
  "eng_onlineConfirmations (snd (commitShutdown r e)) = eng_onlineConfirmations e"
  "st_PowerState (eng_st (snd (commitShutdown r e))) = ShutdownCommitted"
  "st_ShutdownCommitted (eng_st (snd (commitShutdown r e)))"
  "st_RecoveryStarted (eng_st (snd (commitShutdown r e))) = st_RecoveryStarted (eng_st e)"
  "same_txn (eng_st (snd (commitShutdown r e))) st \<longleftrightarrow> same_txn (eng_st e) st"
  by (simp_all add: commitShutdown_def same_txn_def)

text \<open>A shutdown trigger other than the grace period fires.\<close>

definition trigger_met :: "policy_config \<Rightarrow> status \<Rightarrow> duration \<Rightarrow> bool" where
  "trigger_met cfg ups elapsed \<longleftrightarrow>
     pc_GracePeriod cfg \<le> elapsed \<and>
     ((\<exists>n. us_RuntimeSeconds ups = Some n \<and> 0 < pc_CriticalRuntime cfg
            \<and> seconds n \<le> pc_CriticalRuntime cfg)
      \<or> (\<exists>c l. us_ChargePercent ups = Some c \<and> pc_CriticalCharge cfg = Some l \<and> f64_le c l)
      \<or> (0 < pc_MaxOnBattery cfg \<and> pc_MaxOnBattery cfg \<le> elapsed))"

lemma outageTriggers_frame [simp]:
  "eng_cfg (snd (outageTriggers now ups e)) = eng_cfg e"
  "eng_resumeState (snd (outageTriggers now ups e)) = eng_resumeState e"
  "eng_onlineSince (snd (outageTriggers now ups e)) = eng_onlineSince e"
  "eng_onBatterySince (snd (outageTriggers now ups e)) = eng_onBatterySince e"
  "eng_unknownSince (snd (outageTriggers now ups e)) = eng_unknownSince e"
  "eng_onlineConfirmations (snd (outageTriggers now ups e)) = eng_onlineConfirmations e"
  "st_RecoveryStarted (eng_st (snd (outageTriggers now ups e))) = st_RecoveryStarted (eng_st e)"
  by (simp_all add: outageTriggers_def Let_def)

lemma outageTriggers_same_txn [simp]:
  "same_txn (eng_st (snd (outageTriggers now ups e))) st \<longleftrightarrow> same_txn (eng_st e) st"
  by (simp add: outageTriggers_def Let_def)

lemma outageTriggers_commit:
  assumes "trigger_met (eng_cfg e) ups (time_Sub now (eng_onBatterySince e))"
  shows "d_Action (fst (outageTriggers now ups e)) = ActionCommitShutdown"
    and "d_Changed (fst (outageTriggers now ups e))"
    and "st_PowerState (eng_st (snd (outageTriggers now ups e))) = ShutdownCommitted"
    and "st_ShutdownCommitted (eng_st (snd (outageTriggers now ups e)))"
  using assms by (auto simp: outageTriggers_def Let_def trigger_met_def)

lemma outageTriggers_hold:
  assumes "\<not> trigger_met (eng_cfg e) ups (time_Sub now (eng_onBatterySince e))"
  shows "d_Action (fst (outageTriggers now ups e)) = ActionNone"
    and "st_PowerState (eng_st (snd (outageTriggers now ups e))) = st_PowerState (eng_st e)"
    and "st_ShutdownCommitted (eng_st (snd (outageTriggers now ups e)))
         = st_ShutdownCommitted (eng_st e)"
  using assms by (auto simp: outageTriggers_def Let_def trigger_met_def)

section \<open>Single-step laws\<close>

lemma stepOnBattery_online:
  assumes "us_Utility (in_UPS inp) = UtilityOnline" and "\<not> st_ShutdownCommitted (eng_st e)"
  shows "eng_onlineConfirmations e < 1 \<Longrightarrow>
           d_Action (fst (stepOnBattery now inp e)) = ActionNone
           \<and> eng_st (snd (stepOnBattery now inp e)) = eng_st e
           \<and> eng_onlineConfirmations (snd (stepOnBattery now inp e)) = eng_onlineConfirmations e + 1"
    and "eng_onlineConfirmations e \<ge> 1 \<Longrightarrow>
           d_Action (fst (stepOnBattery now inp e)) = ActionNone
           \<and> st_PowerState (eng_st (snd (stepOnBattery now inp e))) = Normal
           \<and> eng_onlineConfirmations (snd (stepOnBattery now inp e)) = 0"
  using assms by (simp_all add: stepOnBattery_def Let_def preCommitOnlineConfirmations_def)

lemma stepOnBattery_frame [simp]:
  "eng_cfg (snd (stepOnBattery now inp e)) = eng_cfg e"
  "eng_resumeState (snd (stepOnBattery now inp e)) = eng_resumeState e"
  "eng_onlineSince (snd (stepOnBattery now inp e)) = eng_onlineSince e"
  "st_RecoveryStarted (eng_st (snd (stepOnBattery now inp e))) = st_RecoveryStarted (eng_st e)"
  by (simp_all add: stepOnBattery_def Let_def)

lemma stepOnBattery_same_txn [simp]:
  "same_txn (eng_st (snd (stepOnBattery now inp e))) st \<longleftrightarrow> same_txn (eng_st e) st"
  by (simp add: stepOnBattery_def Let_def) (simp add: same_txn_def)

text \<open>The samples in an outage that commit a shutdown, and nothing else does.\<close>

definition outage_commits :: "instant \<Rightarrow> inputs \<Rightarrow> engine \<Rightarrow> bool" where
  "outage_commits now inp e \<longleftrightarrow>
     (let ups = in_UPS inp; cfg = eng_cfg e in
      (us_LowBattery ups \<and> us_Utility ups \<noteq> UtilityOnline)
      \<or> (us_Utility ups = UtilityUnknown \<and> 0 < pc_CommunicationLossGrace cfg
         \<and> pc_CommunicationLossGrace cfg
             \<le> (case eng_unknownSince e of None \<Rightarrow> 0 | t \<Rightarrow> time_Sub now t))
      \<or> (us_Utility ups = UtilityOnBattery
         \<and> trigger_met cfg ups (case eng_onBatterySince e of None \<Rightarrow> 0 | t \<Rightarrow> time_Sub now t)))"

lemma time_Sub_self [simp]: "time_Sub now (Some now) = 0"
  by (simp add: time_Sub_def sat64_def)

lemma outageTriggers_commit_iff [simp]:
  "d_Action (fst (outageTriggers now ups e)) = ActionCommitShutdown
   \<longleftrightarrow> trigger_met (eng_cfg e) ups (time_Sub now (eng_onBatterySince e))"
  using outageTriggers_commit(1) outageTriggers_hold(1) by (metis action.distinct(1))

lemma stepOnBattery_commit_iff:
  "d_Action (fst (stepOnBattery now inp e)) = ActionCommitShutdown \<longleftrightarrow> outage_commits now inp e"
  by (cases "us_LowBattery (in_UPS inp)"; cases "us_Utility (in_UPS inp)";
      cases "eng_unknownSince e"; cases "eng_onBatterySince e")
    (simp_all add: stepOnBattery_def outage_commits_def Let_def)

lemma stepOnBattery_commits:
  assumes "outage_commits now inp e"
  shows "st_PowerState (eng_st (snd (stepOnBattery now inp e))) = ShutdownCommitted
         \<and> st_ShutdownCommitted (eng_st (snd (stepOnBattery now inp e)))
         \<and> d_Changed (fst (stepOnBattery now inp e))"
  using assms
  by (cases "us_LowBattery (in_UPS inp)"; cases "us_Utility (in_UPS inp)";
      cases "eng_unknownSince e"; cases "eng_onBatterySince e")
    (simp_all add: stepOnBattery_def outage_commits_def Let_def outageTriggers_commit)

lemma stepOnBattery_holds:
  assumes "\<not> outage_commits now inp e"
    and "us_Utility (in_UPS inp) = UtilityOnline \<Longrightarrow> st_ShutdownCommitted (eng_st e)"
  shows "st_PowerState (eng_st (snd (stepOnBattery now inp e))) = st_PowerState (eng_st e)
         \<and> st_ShutdownCommitted (eng_st (snd (stepOnBattery now inp e))) = st_ShutdownCommitted (eng_st e)
         \<and> eng_onlineConfirmations (snd (stepOnBattery now inp e)) = 0
         \<and> d_Action (fst (stepOnBattery now inp e)) = ActionNone"
  using assms
  by (cases "us_LowBattery (in_UPS inp)"; cases "us_Utility (in_UPS inp)";
      cases "eng_unknownSince e"; cases "eng_onBatterySince e")
    (simp_all add: stepOnBattery_def outage_commits_def Let_def outageTriggers_hold)

end
