(* ===== verification/Policy_Runs.thy ===== *)
theory Policy_Runs
  imports Policy_Engine
begin

text \<open>
  Behaviour of the policy engine over time: the invariant that ties the power state to the commit
  flags, runs of the engine over sequences of observations, and what a run guarantees (continuous
  utility stability before recovery, debounced cancellation, bounded time to a shutdown commit).
\<close>

section \<open>The transaction invariant\<close>

text \<open>
  How the power state and the two commit flags agree. It implies the combinations
  \<^verbatim>\<open>validateSemantic\<close> demands of a state before it is written.
\<close>

definition txn_inv :: "power_txn \<Rightarrow> bool" where
  "txn_inv st \<longleftrightarrow>
     (st_RecoveryStarted st \<longrightarrow>
        st_ShutdownCommitted st
        \<and> st_PowerState st \<in> {BootReconcile, RecoveryStarted, RestoreHosts, FailedSafe})
     \<and> (st_PowerState st \<in> {RecoveryStarted, RestoreHosts} \<longrightarrow> st_RecoveryStarted st)
     \<and> (st_PowerState st \<in> {ShutdownCommitted, ShutdownInProgress, WaitingForAC, RecoveryWait}
          \<longrightarrow> st_ShutdownCommitted st)
     \<and> (st_PowerState st = Normal \<longrightarrow> \<not> st_ShutdownCommitted st)
     \<and> (\<forall>s. st_PowerState st \<noteq> OtherPowerState s)"

lemma txn_inv_boot: "txn_inv p \<Longrightarrow> txn_inv (eng_st (New_Engine cfg p))"
  by (auto simp: txn_inv_def New_Engine_def Let_def)

lemma commitShutdown_inv:
  "txn_inv (eng_st e) \<Longrightarrow> \<not> st_RecoveryStarted (eng_st e) \<Longrightarrow>
     txn_inv (eng_st (snd (commitShutdown r e)))"
  by (simp add: commitShutdown_def txn_inv_def)

lemma failSafe_inv: "txn_inv (eng_st e) \<Longrightarrow> txn_inv (eng_st (snd (failSafe r e)))"
  by (simp add: failSafe_def txn_inv_def)

lemma stepOnBattery_inv:
  assumes "txn_inv (eng_st e)" and "st_PowerState (eng_st e) = OnBattery"
  shows "txn_inv (eng_st (snd (stepOnBattery now inp e)))"
proof -
  have nr: "\<not> st_RecoveryStarted (eng_st e)"
    using assms by (simp add: txn_inv_def)
  consider (online) "us_Utility (in_UPS inp) = UtilityOnline" "\<not> st_ShutdownCommitted (eng_st e)"
    | (commit) "outage_commits now inp e"
    | (hold) "\<not> outage_commits now inp e"
        "us_Utility (in_UPS inp) = UtilityOnline \<Longrightarrow> st_ShutdownCommitted (eng_st e)"
    by blast
  then show ?thesis
  proof cases
    case online
    with assms show ?thesis
      by (simp add: stepOnBattery_def Let_def txn_inv_def)
  next
    case commit
    then show ?thesis using nr stepOnBattery_commits [OF commit] by (simp add: txn_inv_def)
  next
    case hold
    then show ?thesis using assms stepOnBattery_holds [OF hold] by (simp add: txn_inv_def)
  qed
qed

lemma reconcileBoot_inv:
  "txn_inv (eng_st e) \<Longrightarrow> st_PowerState (eng_st e) = BootReconcile \<Longrightarrow>
     txn_inv (eng_st (snd (reconcileBoot now inp e)))"
  by (auto simp: reconcileBoot_def Let_def txn_inv_def)

lemma txn_inv_moves:
  "st_ShutdownCommitted st \<Longrightarrow> \<not> st_RecoveryStarted st \<Longrightarrow> txn_inv (st\<lparr>st_PowerState := WaitingForAC\<rparr>)"
  "st_ShutdownCommitted st \<Longrightarrow> \<not> st_RecoveryStarted st \<Longrightarrow> txn_inv (st\<lparr>st_PowerState := RecoveryWait\<rparr>)"
  "st_ShutdownCommitted st \<Longrightarrow>
     txn_inv (st\<lparr>st_RecoveryStarted := True, st_PowerState := RecoveryStarted\<rparr>)"
  "(st_RecoveryStarted st \<Longrightarrow> st_ShutdownCommitted st) \<Longrightarrow>
     txn_inv (st\<lparr>st_PowerState := FailedSafe, st_FailedSafeReason := r\<rparr>)"
  by (auto simp: txn_inv_def)

lemma stepRecoveryWait_inv:
  assumes "txn_inv (eng_st e)" and "st_PowerState (eng_st e) = RecoveryWait"
  shows "txn_inv (eng_st (snd (stepRecoveryWait now inp e)))"
proof -
  have "st_ShutdownCommitted (eng_st e)" "\<not> st_RecoveryStarted (eng_st e)"
    using assms by (auto simp: txn_inv_def)
  then show ?thesis
    by (cases "eng_onlineSince e"; cases "eng_networkWaitSince e")
      (simp_all add: assms(1) stepRecoveryWait_def Let_def failSafe_def txn_inv_moves)
qed

lemma stepRecoveryStarted_inv:
  "txn_inv (eng_st e) \<Longrightarrow> st_PowerState (eng_st e) = RecoveryStarted \<Longrightarrow>
     txn_inv (eng_st (snd (stepRecoveryStarted now inp e)))"
  by (cases "eng_networkWaitSince e")
    (simp_all add: stepRecoveryStarted_def Let_def failSafe_def txn_inv_def)

lemma stepRestoreHosts_inv:
  "txn_inv (eng_st e) \<Longrightarrow> st_PowerState (eng_st e) = RestoreHosts \<Longrightarrow>
     txn_inv (eng_st (snd (stepRestoreHosts now inp e)))"
  by (simp add: stepRestoreHosts_def Let_def failSafe_def txn_inv_def)

lemma txn_inv_not_recovering:
  "txn_inv st \<Longrightarrow> \<not> st_ShutdownCommitted st \<Longrightarrow> \<not> st_RecoveryStarted st"
  by (simp add: txn_inv_def)

lemmas step_inv_lemmas =
  commitShutdown_inv stepOnBattery_inv stepRecoveryWait_inv stepRecoveryStarted_inv
  stepRestoreHosts_inv reconcileBoot_inv

lemma Step_inv:
  assumes "txn_inv (eng_st e)"
  shows "txn_inv (eng_st (snd (Step now inp e)))"
proof (cases "st_PowerState (eng_st e)")
  case Normal
  then show ?thesis
    using assms by (simp add: Step_def commitShutdown_inv txn_inv_not_recovering)
      (simp add: stepNormal_def txn_inv_def)
next
  case WaitingForAC
  then show ?thesis
    using assms by (simp add: Step_def commitShutdown_inv txn_inv_not_recovering)
      (simp add: stepWaitingForAC_def txn_inv_def)
next
  case ShutdownCommitted
  then show ?thesis
    using assms by (simp add: Step_def commitShutdown_inv txn_inv_not_recovering)
      (simp add: txn_inv_def)
qed (use assms in \<open>simp_all add: Step_def step_inv_lemmas txn_inv_not_recovering\<close>)

lemma Step_never_fails:
  assumes "txn_inv (eng_st e)"
  shows "\<exists>d. fst (Step now inp e) = Inr d"
  using assms
  by (cases "st_PowerState (eng_st e)"; cases "us_Utility (in_UPS inp)")
    (auto simp: Step_def reconcileBoot_def Let_def txn_inv_def)

lemma branch_cfg [simp]:
  "eng_cfg (snd (stepNormal now inp e)) = eng_cfg e"
  "eng_cfg (snd (stepWaitingForAC now inp e)) = eng_cfg e"
  "eng_cfg (snd (failSafe r e)) = eng_cfg e"
  "eng_cfg (snd (stepRecoveryWait now inp e)) = eng_cfg e"
  "eng_cfg (snd (stepRecoveryStarted now inp e)) = eng_cfg e"
  "eng_cfg (snd (stepRestoreHosts now inp e)) = eng_cfg e"
  "eng_cfg (snd (reconcileBoot now inp e)) = eng_cfg e"
  by (cases "eng_onlineSince e"; cases "eng_networkWaitSince e";
      simp add: stepNormal_def stepWaitingForAC_def failSafe_def stepRecoveryWait_def
        stepRecoveryStarted_def stepRestoreHosts_def reconcileBoot_def Let_def)+

lemma Step_cfg [simp]: "eng_cfg (snd (Step now inp e)) = eng_cfg e"
  by (simp add: Step_def split: power_state.split)

text \<open>A committed shutdown stays committed: no observation takes it back.\<close>

lemma branch_committed [simp]:
  "st_ShutdownCommitted (eng_st (snd (stepNormal now inp e))) = st_ShutdownCommitted (eng_st e)"
  "st_ShutdownCommitted (eng_st (snd (stepWaitingForAC now inp e))) = st_ShutdownCommitted (eng_st e)"
  "st_ShutdownCommitted (eng_st (snd (failSafe r e))) = st_ShutdownCommitted (eng_st e)"
  "st_ShutdownCommitted (eng_st (snd (stepRecoveryWait now inp e))) = st_ShutdownCommitted (eng_st e)"
  "st_ShutdownCommitted (eng_st (snd (stepRecoveryStarted now inp e))) = st_ShutdownCommitted (eng_st e)"
  "st_ShutdownCommitted (eng_st (snd (stepRestoreHosts now inp e))) = st_ShutdownCommitted (eng_st e)"
  "st_ShutdownCommitted (eng_st (snd (reconcileBoot now inp e))) = st_ShutdownCommitted (eng_st e)"
  by (cases "eng_onlineSince e"; cases "eng_networkWaitSince e";
      simp add: stepNormal_def stepWaitingForAC_def failSafe_def stepRecoveryWait_def
        stepRecoveryStarted_def stepRestoreHosts_def reconcileBoot_def Let_def)+

lemma stepOnBattery_committed_mono:
  assumes "st_ShutdownCommitted (eng_st e)"
  shows "st_ShutdownCommitted (eng_st (snd (stepOnBattery now inp e)))"
  using assms stepOnBattery_commits stepOnBattery_holds by metis

lemma Step_committed_mono:
  "st_ShutdownCommitted (eng_st e) \<Longrightarrow> st_ShutdownCommitted (eng_st (snd (Step now inp e)))"
  by (simp add: Step_def stepOnBattery_committed_mono split: power_state.split)

section \<open>Runs of the engine\<close>

text \<open>
  How the rest of the agent rewrites the transaction between two observations: a per-host update
  keeps the power state and flags (or moves to \<^verbatim>\<open>FAILED_SAFE\<close>), \<^verbatim>\<open>beginFreshOutage\<close> clears the
  flags in \<^verbatim>\<open>ON_BATTERY\<close>, and \<^verbatim>\<open>runArmed\<close> resumes a committed shutdown at boot.
\<close>

definition txn_rewrite :: "power_txn \<Rightarrow> power_txn \<Rightarrow> bool" where
  "txn_rewrite a b \<longleftrightarrow>
     (st_ShutdownCommitted b = st_ShutdownCommitted a \<and> st_RecoveryStarted b = st_RecoveryStarted a
      \<and> (st_PowerState b = st_PowerState a \<or> st_PowerState b = FailedSafe))
     \<or> (st_PowerState a = OnBattery \<and> st_PowerState b = OnBattery
        \<and> \<not> st_ShutdownCommitted b \<and> \<not> st_RecoveryStarted b)
     \<or> (st_PowerState a = BootReconcile \<and> st_PowerState b = ShutdownInProgress
        \<and> st_ShutdownCommitted b \<and> \<not> st_RecoveryStarted b)"

text \<open>
  \<open>engine_run cfg p h e\<close>: a process started on the persisted transaction \<open>p\<close> has seen the
  observations \<open>h\<close> (oldest first) and its engine is now \<open>e\<close>. A failed durable write puts back
  the old transaction but not the engine's timers.
\<close>

inductive engine_run :: "policy_config \<Rightarrow> power_txn \<Rightarrow> (instant \<times> inputs) list \<Rightarrow> engine \<Rightarrow> bool"
  for cfg p where
  boot: "engine_run cfg p [] (New_Engine cfg p)"
| sample: "engine_run cfg p h e \<Longrightarrow> engine_run cfg p (h @ [(now, inp)]) (snd (Step now inp e))"
| sample_unwritten: "engine_run cfg p h e \<Longrightarrow>
    engine_run cfg p (h @ [(now, inp)]) ((snd (Step now inp e))\<lparr>eng_st := eng_st e\<rparr>)"
| shutdown_done: "engine_run cfg p h e \<Longrightarrow> engine_run cfg p h (snd (MarkShutdownPhaseComplete e))"
| recovery_done: "engine_run cfg p h e \<Longrightarrow> engine_run cfg p h (snd (MarkRecoveryComplete e))"
| recovery_done_unwritten: "engine_run cfg p h e \<Longrightarrow>
    engine_run cfg p h ((snd (MarkRecoveryComplete e))\<lparr>eng_st := eng_st e\<rparr>)"
| rewrite: "engine_run cfg p h e \<Longrightarrow> txn_rewrite (eng_st e) st' \<Longrightarrow> engine_run cfg p h (e\<lparr>eng_st := st'\<rparr>)"

lemma txn_rewrite_inv: "txn_inv a \<Longrightarrow> txn_rewrite a b \<Longrightarrow> txn_inv b"
  unfolding txn_rewrite_def by (elim disjE conjE) (simp_all add: txn_inv_def)

lemma Mark_inv:
  "txn_inv (eng_st e) \<Longrightarrow> txn_inv (eng_st (snd (MarkShutdownPhaseComplete e)))"
  "txn_inv (eng_st e) \<Longrightarrow> txn_inv (eng_st (snd (MarkRecoveryComplete e)))"
  by (auto simp: MarkShutdownPhaseComplete_def MarkRecoveryComplete_def txn_inv_def)

lemma Mark_cfg [simp]:
  "eng_cfg (snd (MarkShutdownPhaseComplete e)) = eng_cfg e"
  "eng_cfg (snd (MarkRecoveryComplete e)) = eng_cfg e"
  by (simp_all add: MarkShutdownPhaseComplete_def MarkRecoveryComplete_def)

lemma run_inv: "engine_run cfg p h e \<Longrightarrow> txn_inv p \<Longrightarrow> txn_inv (eng_st e)"
  by (induction rule: engine_run.induct) (auto intro: txn_inv_boot Step_inv Mark_inv txn_rewrite_inv)

lemma run_cfg: "engine_run cfg p h e \<Longrightarrow> eng_cfg e = eng_cfg (New_Engine cfg p)"
  by (induction rule: engine_run.induct) auto

section \<open>Continuous stability before recovery\<close>

definition online_sample :: "inputs \<Rightarrow> bool" where
  "online_sample i \<longleftrightarrow> us_Utility (in_UPS i) = UtilityOnline"

definition safe_sample :: "inputs \<Rightarrow> bool" where
  "safe_sample i \<longleftrightarrow> online_sample i \<and> \<not> us_LowBattery (in_UPS i) \<and> \<not> us_FSD (in_UPS i)"

text \<open>
  A stretch of observations that ends the history, starts online at \<open>t0\<close> and is safe throughout.
\<close>

definition stable_since :: "instant \<Rightarrow> (instant \<times> inputs) list \<Rightarrow> bool" where
  "stable_since t0 h \<longleftrightarrow>
     (\<exists>h1 i0 h2. h = h1 @ (t0, i0) # h2 \<and> online_sample i0 \<and> (\<forall>(t, i) \<in> set h2. safe_sample i))"

lemma stable_since_start: "online_sample i \<Longrightarrow> stable_since t (h @ [(t, i)])"
  unfolding stable_since_def by (rule exI [of _ h]) auto

lemma stable_since_extend: "stable_since t0 h \<Longrightarrow> safe_sample i \<Longrightarrow> stable_since t0 (h @ [(t, i)])"
  unfolding stable_since_def by fastforce

lemma stepRecoveryWait_online:
  assumes "st_PowerState (eng_st e) = RecoveryWait" "\<not> st_RecoveryStarted (eng_st e)"
    and "eng_onlineSince (snd (stepRecoveryWait now inp e)) = Some t0"
  shows "safe_sample inp \<and> (t0 = now \<or> eng_onlineSince e = Some t0)"
  using assms
  by (cases "eng_onlineSince e"; cases "eng_networkWaitSince e")
    (auto simp: stepRecoveryWait_def Let_def failSafe_def safe_sample_def online_sample_def
      split: if_splits)

lemma stepOnBattery_power:
  "st_PowerState (eng_st (snd (stepOnBattery now inp e)))
     \<in> {st_PowerState (eng_st e), Normal, ShutdownCommitted}"
  using stepOnBattery_commits [of now inp e] stepOnBattery_holds [of now inp e]
    stepOnBattery_online [of inp e now]
  by (metis insert_iff linorder_not_le)

lemma Step_RecoveryWait:
  "st_PowerState (eng_st e) = RecoveryWait \<Longrightarrow> txn_inv (eng_st e) \<Longrightarrow>
     Step now inp e = lift_dec (stepRecoveryWait now inp e)"
  by (simp add: Step_def txn_inv_def)

lemma Step_into_RecoveryWait:
  assumes "st_PowerState (eng_st (snd (Step now inp e))) = RecoveryWait"
    and "eng_onlineSince (snd (Step now inp e)) = Some t0" and inv: "txn_inv (eng_st e)"
  shows "t0 = now \<and> online_sample inp
         \<or> st_PowerState (eng_st e) = RecoveryWait \<and> eng_onlineSince e = Some t0 \<and> safe_sample inp"
proof (cases "st_PowerState (eng_st e)")
  case RecoveryWait
  then show ?thesis
    using assms stepRecoveryWait_online [of e now inp t0]
    by (auto simp: Step_RecoveryWait safe_sample_def txn_inv_def)
next
  case OnBattery
  then show ?thesis
    using assms stepOnBattery_power [of now inp e] by (auto simp: Step_def split: if_splits)
next
  case BootReconcile
  then show ?thesis
    using assms by (cases "us_Utility (in_UPS inp)")
      (auto simp: Step_def reconcileBoot_def Let_def online_sample_def split: if_splits)
next
  case WaitingForAC
  then show ?thesis
    using assms by (auto simp: Step_def stepWaitingForAC_def online_sample_def split: if_splits)
next
  case RecoveryStarted
  then show ?thesis
    using assms by (cases "eng_networkWaitSince e")
      (auto simp: Step_def stepRecoveryStarted_def Let_def failSafe_def split: if_splits)
next
  case RestoreHosts
  then show ?thesis
    using assms by (cases "eng_networkWaitSince e")
      (auto simp: Step_def stepRestoreHosts_def Let_def failSafe_def split: if_splits)
qed (use assms in \<open>auto simp: Step_def stepNormal_def split: if_splits\<close>)

lemma run_stable_since:
  assumes "engine_run cfg p h e" and "txn_inv p"
    and "st_PowerState (eng_st e) = RecoveryWait" and "eng_onlineSince e = Some t0"
  shows "stable_since t0 h"
  using assms
proof (induction arbitrary: t0 rule: engine_run.induct)
  case boot
  then show ?case by (simp add: New_Engine_def Let_def)
next
  case (sample h e now inp)
  from Step_into_RecoveryWait [OF sample.prems(2,3) run_inv [OF sample.hyps sample.prems(1)]]
  show ?case
    using sample.IH [OF sample.prems(1)] by (auto intro: stable_since_start stable_since_extend)
next
  case (sample_unwritten h e now inp)
  have inv: "txn_inv (eng_st e)"
    by (rule run_inv [OF sample_unwritten.hyps sample_unwritten.prems(1)])
  then have "safe_sample inp \<and> (t0 = now \<or> eng_onlineSince e = Some t0)"
    using sample_unwritten.prems stepRecoveryWait_online [of e now inp t0]
    by (auto simp: Step_RecoveryWait txn_inv_def)
  then show ?case
    using sample_unwritten.IH [OF sample_unwritten.prems(1)] sample_unwritten.prems(2)
    by (auto simp: safe_sample_def intro: stable_since_start stable_since_extend)
next
  case (rewrite h e st')
  then show ?case by (auto simp: txn_rewrite_def)
qed (auto simp: MarkShutdownPhaseComplete_def MarkRecoveryComplete_def split: if_splits)

lemma stepRecoveryWait_commit:
  assumes "d_Action (fst (stepRecoveryWait now inp e)) = ActionCommitRecovery"
  obtains t0 where "eng_onlineSince (snd (stepRecoveryWait now inp e)) = Some t0"
    "recoveryEnabled (eng_cfg e)" "safe_sample inp"
    "pc_UtilityStable (eng_cfg e) \<le> time_Sub now (Some t0)"
    "rechargeGate (eng_cfg e) (in_UPS inp) (time_Sub now (Some t0))"
    "in_NetworkReady inp" "in_HealthSafe inp"
  using assms that
  by (cases "eng_onlineSince e"; cases "eng_networkWaitSince e")
    (auto simp: stepRecoveryWait_def Let_def failSafe_def safe_sample_def online_sample_def
      split: if_splits)

lemma Step_commit_recovery_only:
  assumes "fst (Step now inp e) = Inr d" and "d_Action d = ActionCommitRecovery"
  shows "st_PowerState (eng_st e) = RecoveryWait \<and> d = fst (stepRecoveryWait now inp e)
         \<and> snd (Step now inp e) = snd (stepRecoveryWait now inp e)"
proof -
  have "d_Action (fst (stepOnBattery now inp e)) \<noteq> ActionCommitRecovery" for now inp e
    using stepOnBattery_commit_iff [of now inp e] stepOnBattery_holds [of now inp e]
      stepOnBattery_online [of inp e now] by (metis action.distinct linorder_not_le)
  then show ?thesis
    using assms
    by (cases "st_PowerState (eng_st e)")
      (auto simp: Step_def stepNormal_def stepWaitingForAC_def reconcileBoot_def failSafe_def
        stepRecoveryStarted_def stepRestoreHosts_def Let_def split: if_splits)
qed

section \<open>Sequences of observations\<close>

text \<open>The engine after a list of observations with nothing else in between.\<close>

fun observe :: "engine \<Rightarrow> (instant \<times> inputs) list \<Rightarrow> engine" where
  "observe e [] = e"
| "observe e ((now, inp) # xs) = observe (snd (Step now inp e)) xs"

lemma observe_append: "observe e (xs @ ys) = observe (observe e xs) ys"
  by (induction e xs rule: observe.induct) auto

lemma observe_snoc [simp]: "observe e (xs @ [(now, inp)]) = snd (Step now inp (observe e xs))"
  by (simp add: observe_append)

lemma observe_committed: "st_ShutdownCommitted (eng_st e) \<Longrightarrow> st_ShutdownCommitted (eng_st (observe e xs))"
  by (induction e xs rule: observe.induct) (auto intro: Step_committed_mono)

lemma observe_inv: "txn_inv (eng_st e) \<Longrightarrow> txn_inv (eng_st (observe e xs))"
  by (induction e xs rule: observe.induct) (auto intro: Step_inv)

lemma observe_cfg [simp]: "eng_cfg (observe e xs) = eng_cfg e"
  by (induction e xs rule: observe.induct) auto

subsection \<open>An outage in which utility does not return\<close>

text \<open>The engine is in an outage that began at \<open>t0\<close> and has not committed a shutdown.\<close>

definition in_outage :: "instant \<Rightarrow> engine \<Rightarrow> bool" where
  "in_outage t0 e \<longleftrightarrow>
     st_PowerState (eng_st e) = OnBattery \<and> \<not> st_ShutdownCommitted (eng_st e)
     \<and> eng_onBatterySince e = Some t0"

lemma Step_OnBattery:
  "st_PowerState (eng_st e) = OnBattery \<Longrightarrow>
     snd (Step now inp e) =
       (if us_FSD (in_UPS inp) \<and> \<not> st_ShutdownCommitted (eng_st e)
        then snd (commitShutdown R_fsd_observed e) else snd (stepOnBattery now inp e))"
  by (simp add: Step_def)

lemma stepOnBattery_onBatterySince:
  assumes "us_Utility (in_UPS inp) \<noteq> UtilityOnline" and "eng_onBatterySince e = Some t0"
  shows "eng_onBatterySince (snd (stepOnBattery now inp e)) = Some t0"
  using assms by (simp add: stepOnBattery_def Let_def)

lemma in_outage_step:
  assumes "in_outage t0 e" and "us_Utility (in_UPS inp) \<noteq> UtilityOnline"
  shows "in_outage t0 (snd (Step now inp e)) \<or> st_ShutdownCommitted (eng_st (snd (Step now inp e)))"
  using assms stepOnBattery_commits [of now inp e] stepOnBattery_holds [of now inp e]
    stepOnBattery_onBatterySince [of inp e t0 now]
  by (cases "outage_commits now inp e") (auto simp: in_outage_def Step_OnBattery)

lemma in_outage_observe:
  assumes "in_outage t0 e" and "\<forall>(t, i) \<in> set xs. us_Utility (in_UPS i) \<noteq> UtilityOnline"
  shows "in_outage t0 (observe e xs) \<or> st_ShutdownCommitted (eng_st (observe e xs))"
  using assms
proof (induction xs rule: rev_induct)
  case Nil
  then show ?case by simp
next
  case (snoc x xs)
  obtain now inp where x: "x = (now, inp)" by force
  show ?case
    using snoc x in_outage_step [of t0 "observe e xs" inp now] Step_committed_mono
    by auto
qed

lemma in_outage_trigger:
  assumes "in_outage t0 e" and "us_Utility (in_UPS inp) = UtilityOnBattery"
    and "trigger_met (eng_cfg e) (in_UPS inp) (time_Sub now (Some t0))"
  shows "st_ShutdownCommitted (eng_st (snd (Step now inp e)))"
proof -
  have "outage_commits now inp e"
    using assms by (simp add: outage_commits_def in_outage_def Let_def)
  then show ?thesis
    using assms stepOnBattery_commits by (simp add: Step_OnBattery in_outage_def)
qed

subsection \<open>Loss of communication during an outage\<close>

lemma unknown_step:
  assumes "st_PowerState (eng_st e) = OnBattery" and "us_Utility (in_UPS inp) = UtilityUnknown"
  shows "st_ShutdownCommitted (eng_st (snd (Step now inp e)))
         \<or> st_PowerState (eng_st (snd (Step now inp e))) = OnBattery
           \<and> eng_unknownSince (snd (Step now inp e))
               = (case eng_unknownSince e of None \<Rightarrow> Some now | t \<Rightarrow> t)"
  using assms
  by (cases "us_LowBattery (in_UPS inp)"; cases "eng_unknownSince e")
    (simp_all add: Step_OnBattery stepOnBattery_def Let_def)

lemma unknown_observe:
  assumes "st_PowerState (eng_st e) = OnBattery" and "eng_unknownSince e = Some t0"
    and "\<forall>(t, i) \<in> set xs. us_Utility (in_UPS i) = UtilityUnknown"
  shows "st_ShutdownCommitted (eng_st (observe e xs))
         \<or> st_PowerState (eng_st (observe e xs)) = OnBattery \<and> eng_unknownSince (observe e xs) = Some t0"
  using assms
proof (induction xs rule: rev_induct)
  case Nil
  then show ?case by simp
next
  case (snoc x xs)
  obtain now inp where x: "x = (now, inp)" by force
  show ?case
    using snoc x unknown_step [of "observe e xs" inp now] Step_committed_mono by auto
qed

subsection \<open>Debounced cancellation\<close>

text \<open>
  The confirmation counter during an outage is one exactly when the last observation was online.
\<close>

definition last_online :: "(instant \<times> inputs) list \<Rightarrow> bool" where
  "last_online h \<longleftrightarrow> h \<noteq> [] \<and> online_sample (snd (last h))"

definition on_battery_uncommitted :: "engine \<Rightarrow> bool" where
  "on_battery_uncommitted e \<longleftrightarrow>
     st_PowerState (eng_st e) = OnBattery \<and> \<not> st_ShutdownCommitted (eng_st e)"

fun stays_on_battery :: "engine \<Rightarrow> (instant \<times> inputs) list \<Rightarrow> bool" where
  "stays_on_battery e [] = on_battery_uncommitted e"
| "stays_on_battery e ((now, inp) # xs) =
     (on_battery_uncommitted e \<and> stays_on_battery (snd (Step now inp e)) xs)"

lemma stays_on_battery_snoc:
  "stays_on_battery e (h @ [x]) \<longleftrightarrow>
     stays_on_battery e h \<and> on_battery_uncommitted (observe e (h @ [x]))"
  by (induction e h rule: stays_on_battery.induct) (cases x, auto)

lemma stays_on_battery_end: "stays_on_battery e h \<Longrightarrow> on_battery_uncommitted (observe e h)"
  by (induction e h rule: stays_on_battery.induct) auto

lemma confirmations_step:
  assumes "st_PowerState (eng_st e) = OnBattery" "\<not> st_ShutdownCommitted (eng_st e)"
    and "st_PowerState (eng_st (snd (Step now inp e))) = OnBattery"
    and "eng_onlineConfirmations e \<in> {0, 1}"
  shows "eng_onlineConfirmations (snd (Step now inp e)) = (if online_sample inp then 1 else 0)"
  using assms stepOnBattery_commits [of now inp e] stepOnBattery_holds [of now inp e]
    stepOnBattery_online [of inp e now]
  by (cases "outage_commits now inp e")
    (auto simp: Step_OnBattery online_sample_def split: if_splits)

lemma confirmations_observe:
  assumes "stays_on_battery e h" and "eng_onlineConfirmations e = 0"
  shows "eng_onlineConfirmations (observe e h) = (if last_online h then 1 else 0)"
  using assms
proof (induction h rule: rev_induct)
  case Nil
  then show ?case by (simp add: last_online_def)
next
  case (snoc x xs)
  obtain now inp where x: "x = (now, inp)" by force
  from snoc.prems(1) have sb: "stays_on_battery e xs"
    and ob: "st_PowerState (eng_st (snd (Step now inp (observe e xs)))) = OnBattery"
    by (simp_all add: stays_on_battery_snoc x on_battery_uncommitted_def)
  from stays_on_battery_end [OF sb]
  have "st_PowerState (eng_st (observe e xs)) = OnBattery"
    and "\<not> st_ShutdownCommitted (eng_st (observe e xs))"
    by (simp_all add: on_battery_uncommitted_def)
  with confirmations_step [OF _ _ ob] snoc.IH [OF sb snoc.prems(2)] show ?case
    by (auto simp: x last_online_def)
qed

end
