(* ===== verification/Policy_Props.thy ===== *)
theory Policy_Props
  imports Policy_Runs
begin

text \<open>
  The properties of the policy engine that the rest of the agent relies on, each with a witness
  evaluated on a concrete configuration.
\<close>

section \<open>A concrete configuration for the witnesses\<close>

definition demo_cfg :: policy_config where
  "demo_cfg =
     \<lparr>pc_GracePeriod = 60 * Second, pc_MaxOnBattery = 600 * Second,
      pc_CriticalCharge = Some (Finite 30), pc_CriticalRuntime = 300 * Second,
      pc_CommunicationLossGrace = 60 * Second, pc_RecoveryEnabled = Some True,
      pc_UtilityStable = 120 * Second, pc_RecoveryChargeMin = Some (Finite 80),
      pc_RecoveryRuntimeMin = 0, pc_RecoveryRechargeTime = 0,
      pc_RecoveryNetworkWait = 300 * Second\<rparr>"

definition demo_in :: "utility_state \<Rightarrow> inputs" where
  "demo_in u =
     \<lparr>in_UPS = \<lparr>us_Utility = u, us_LowBattery = False, us_FSD = False,
                us_ChargePercent = Some (Finite 90), us_RuntimeSeconds = None,
                us_RawStatus = '''', us_Variables = fmempty\<rparr>,
      in_NetworkReady = True, in_HealthSafe = True\<rparr>"

definition demo_fsd :: inputs where
  "demo_fsd = (demo_in UtilityOnline)\<lparr>in_UPS := (in_UPS (demo_in UtilityOnline))\<lparr>us_FSD := True\<rparr>\<rparr>"

definition demo_committed :: power_txn where
  "demo_committed = (New_State ''t'' ''r'')\<lparr>st_PowerState := WaitingForAC, st_ShutdownCommitted := True\<rparr>"

definition demo_outage :: engine where
  "demo_outage = observe (New_Engine demo_cfg (New_State ''t'' ''r''))
     [(0, demo_in UtilityOnline), (Second, demo_in UtilityOnBattery)]"

lemmas demo_defs =
  demo_cfg_def demo_in_def demo_fsd_def demo_committed_def demo_outage_def New_State_def New_Engine_def
  Let_def Step_def step_branch_defs outageTriggers_def recoveryEnabled_def rechargeGate_def
  unsafeUPS_def go_arith preCommitOnlineConfirmations_def outageCheckpointInterval_def Version_def

section \<open>Recovery\<close>

text \<open>
  Claim C1. Recovery is committed only after continuous utility stability: when a step of a process
  started on a consistent transaction decides \<^verbatim>\<open>commit_recovery\<close>, the observations of this
  process end in a stretch that starts online, is online with neither low battery nor FSD
  throughout, and spans at least the configured stability interval (120 s when unset); recovery is
  enabled, the recharge gate holds, and network and health are good in the very same observation.
\<close>

theorem recovery_commit_needs_stable_utility:
  assumes run: "engine_run cfg p h e" and inv: "txn_inv p"
    and step: "fst (Step now inp e) = Inr d" "d_Action d = ActionCommitRecovery"
  shows "\<exists>t0. stable_since t0 (h @ [(now, inp)])
    \<and> pc_UtilityStable (eng_cfg (New_Engine cfg p)) \<le> time_Sub now (Some t0)
    \<and> rechargeGate (eng_cfg (New_Engine cfg p)) (in_UPS inp) (time_Sub now (Some t0))
    \<and> recoveryEnabled cfg \<and> safe_sample inp \<and> in_NetworkReady inp \<and> in_HealthSafe inp"
proof -
  have ps: "st_PowerState (eng_st e) = RecoveryWait"
    and d: "d_Action (fst (stepRecoveryWait now inp e)) = ActionCommitRecovery"
    using Step_commit_recovery_only [OF step] step(2) by auto
  obtain t0 where t0: "eng_onlineSince (snd (stepRecoveryWait now inp e)) = Some t0"
    and g: "recoveryEnabled (eng_cfg e)" "safe_sample inp"
      "pc_UtilityStable (eng_cfg e) \<le> time_Sub now (Some t0)"
      "rechargeGate (eng_cfg e) (in_UPS inp) (time_Sub now (Some t0))"
      "in_NetworkReady inp" "in_HealthSafe inp"
    using stepRecoveryWait_commit [OF d] by blast
  have "t0 = now \<or> eng_onlineSince e = Some t0"
    using stepRecoveryWait_online [OF ps _ t0] run_inv [OF run inv] ps by (auto simp: txn_inv_def)
  then have "stable_since t0 (h @ [(now, inp)])"
    using run_stable_since [OF run inv ps] g(2)
    by (auto simp: safe_sample_def intro: stable_since_start stable_since_extend)
  then show ?thesis
    using g run_cfg [OF run] by (auto simp: recoveryEnabled_def New_Engine_def Let_def)
qed

theorem recovery_commit_needs_stable_utility_witness:
  "\<exists>t0. stable_since t0 [(0, demo_in UtilityOnline), (120 * Second, demo_in UtilityOnline)]
    \<and> pc_UtilityStable (eng_cfg (New_Engine demo_cfg demo_committed)) \<le> time_Sub (120 * Second) (Some t0)"
proof -
  let ?e = "snd (Step 0 (demo_in UtilityOnline) (New_Engine demo_cfg demo_committed))"
  have run: "engine_run demo_cfg demo_committed ([] @ [(0, demo_in UtilityOnline)]) ?e"
    by (intro engine_run.sample engine_run.boot)
  have inv: "txn_inv demo_committed"
    by (simp add: txn_inv_def demo_committed_def New_State_def)
  have step: "fst (Step (120 * Second) (demo_in UtilityOnline) ?e)
      = Inr (changed ActionCommitRecovery R_all_recovery_gates_satisfied)"
    by (simp add: demo_defs)
  show ?thesis
    using recovery_commit_needs_stable_utility [OF run inv step] by auto
qed

text \<open>Only a step that starts or continues a restore, behind every gate, ends in \<^verbatim>\<open>RESTORE_HOSTS\<close>.\<close>

lemma Step_restores:
  assumes "st_PowerState (eng_st (snd (Step now inp e))) = RestoreHosts"
  shows "recoveryEnabled (eng_cfg e) \<and> safe_sample inp \<and> in_HealthSafe inp \<and> in_NetworkReady inp
         \<and> st_PowerState (eng_st e) \<in> {RecoveryStarted, RestoreHosts}"
proof (cases "st_PowerState (eng_st e)")
  case OnBattery
  then show ?thesis
    using assms stepOnBattery_power [of now inp e] by (auto simp: Step_def split: if_splits)
next
  case RecoveryWait
  then show ?thesis
    using assms
    by (cases "eng_onlineSince e"; cases "eng_networkWaitSince e")
      (auto simp: Step_def stepRecoveryWait_def Let_def failSafe_def split: if_splits)
qed (use assms in \<open>cases "us_Utility (in_UPS inp)";
      auto simp: Step_def step_branch_defs Let_def unsafeUPS_def safe_sample_def online_sample_def
        split: if_splits\<close>)+

text \<open>
  Claim C2. Managed hosts are restored only behind live gates: whenever a step ends in
  \<^verbatim>\<open>RESTORE_HOSTS\<close>, the observation it was given shows recovery enabled, utility online without low
  battery or FSD, healthy control stack and ready network. In particular a tick with the network down, an
  unsafe UPS or an unhealthy control stack leaves \<^verbatim>\<open>RESTORE_HOSTS\<close>.
\<close>

theorem restore_only_behind_live_gates:
  assumes "st_PowerState (eng_st (snd (Step now inp e))) = RestoreHosts"
  shows "recoveryEnabled (eng_cfg e) \<and> safe_sample inp \<and> in_HealthSafe inp \<and> in_NetworkReady inp
         \<and> st_PowerState (eng_st e) \<in> {RecoveryStarted, RestoreHosts}"
  by (rule Step_restores [OF assms])

theorem restore_only_behind_live_gates_witness:
  "safe_sample (demo_in UtilityOnline)
   \<and> st_PowerState (eng_st (snd (Step Second (demo_in UtilityOnline)
        ((New_Engine demo_cfg demo_committed)\<lparr>eng_st :=
            demo_committed\<lparr>st_PowerState := RecoveryStarted, st_RecoveryStarted := True\<rparr>\<rparr>)))) = RestoreHosts"
    (is "_ \<and> ?P = RestoreHosts")
proof -
  have "?P = RestoreHosts" by (simp add: demo_defs)
  from restore_only_behind_live_gates [OF this] this show ?thesis by blast
qed

section \<open>Shutdown\<close>

lemma Step_action_commit_iff:
  "(\<exists>d. fst (Step now inp e) = Inr d \<and> d_Action d = ActionCommitShutdown) \<longleftrightarrow>
     st_PowerState (eng_st e) \<notin> {FailedSafe, BootReconcile}
     \<and> (us_FSD (in_UPS inp) \<and> \<not> st_ShutdownCommitted (eng_st e)
        \<or> st_PowerState (eng_st e) = OnBattery \<and> outage_commits now inp e)"
proof (cases "st_PowerState (eng_st e)")
  case OnBattery
  then show ?thesis by (auto simp: Step_def stepOnBattery_commit_iff)
next
  case RecoveryWait
  then show ?thesis
    by (cases "eng_onlineSince e"; cases "eng_networkWaitSince e")
      (simp_all add: Step_def stepRecoveryWait_def failSafe_def Let_def)
qed (auto simp: Step_def stepNormal_def stepWaitingForAC_def reconcileBoot_def failSafe_def Let_def
      stepRecoveryStarted_def stepRestoreHosts_def)


text \<open>
  A committed shutdown is not erased by observations: however the power situation
  develops, every later sequence of observations leaves the transaction committed, and the engine
  never returns to \<^verbatim>\<open>NORMAL\<close>.
\<close>

theorem committed_shutdown_is_kept:
  assumes "txn_inv (eng_st e)" and "st_ShutdownCommitted (eng_st e)"
  shows "st_ShutdownCommitted (eng_st (observe e xs)) \<and> st_PowerState (eng_st (observe e xs)) \<noteq> Normal"
  using observe_committed [OF assms(2), of xs] observe_inv [OF assms(1), of xs]
  by (auto simp: txn_inv_def)

theorem committed_shutdown_is_kept_witness:
  "st_ShutdownCommitted (eng_st (observe (New_Engine demo_cfg demo_committed)
      [(0, demo_in UtilityOnline), (9, demo_in UtilityOnBattery)]))"
proof -
  have "txn_inv (eng_st (New_Engine demo_cfg demo_committed))"
    and "st_ShutdownCommitted (eng_st (New_Engine demo_cfg demo_committed))"
    by (simp_all add: txn_inv_def demo_defs)
  from committed_shutdown_is_kept [OF this] show ?thesis by blast
qed


lemma demo_outage_in_outage: "in_outage Second demo_outage"
  by (simp add: in_outage_def demo_defs)

lemma demo_outage_cfg: "eng_cfg demo_outage = demo_cfg"
  by (simp add: demo_outage_def New_Engine_def Let_def) (simp add: demo_cfg_def Second_def)


text \<open>
  Claim C5. Loss of communication during an outage is bounded: if every observation from the first
  unknown one on is unknown and the configured communication-loss grace has passed since it, the
  shutdown is committed.
\<close>

theorem communication_loss_is_bounded:
  assumes "st_PowerState (eng_st e) = OnBattery" and "eng_unknownSince e = None"
    and "\<forall>(t, i) \<in> set ((t0, i0) # xs @ [(now, inp)]). us_Utility (in_UPS i) = UtilityUnknown"
    and "0 < pc_CommunicationLossGrace (eng_cfg e)"
    and "pc_CommunicationLossGrace (eng_cfg e) \<le> time_Sub now (Some t0)"
  shows "st_ShutdownCommitted (eng_st (observe e ((t0, i0) # xs @ [(now, inp)])))"
proof -
  let ?e1 = "snd (Step t0 i0 e)"
  have unknown: "us_Utility (in_UPS inp) = UtilityUnknown"
    and rest: "\<forall>(t, i) \<in> set xs. us_Utility (in_UPS i) = UtilityUnknown"
    using assms(3) by auto
  have "st_ShutdownCommitted (eng_st ?e1)
        \<or> st_PowerState (eng_st ?e1) = OnBattery \<and> eng_unknownSince ?e1 = Some t0"
    using unknown_step [OF assms(1), of i0 t0] assms(2,3) by auto
  then have "st_ShutdownCommitted (eng_st (observe ?e1 xs))
      \<or> st_PowerState (eng_st (observe ?e1 xs)) = OnBattery \<and> eng_unknownSince (observe ?e1 xs) = Some t0"
    using unknown_observe [OF _ _ rest] observe_committed by blast
  then show ?thesis
  proof
    assume "st_ShutdownCommitted (eng_st (observe ?e1 xs))"
    then show ?thesis by (simp add: Step_committed_mono)
  next
    assume ob: "st_PowerState (eng_st (observe ?e1 xs)) = OnBattery
                \<and> eng_unknownSince (observe ?e1 xs) = Some t0"
    then have "outage_commits now inp (observe ?e1 xs)"
      using assms(4,5) unknown by (simp add: outage_commits_def Let_def)
    then show ?thesis
      using ob stepOnBattery_commits [of now inp "observe ?e1 xs"] by (simp add: Step_OnBattery)
  qed
qed

theorem communication_loss_is_bounded_witness:
  "st_ShutdownCommitted (eng_st (observe demo_outage
      ((5 * Second, demo_in UtilityUnknown) # [] @ [(65 * Second, demo_in UtilityUnknown)])))"
  by (rule communication_loss_is_bounded)
    (simp_all add: demo_outage_cfg, simp_all add: demo_defs)

lemma Step_cancel:
  assumes ob: "st_PowerState (eng_st e) = OnBattery" "\<not> st_ShutdownCommitted (eng_st e)"
    and n: "st_PowerState (eng_st (snd (Step now inp e))) = Normal"
  shows "online_sample inp \<and> 1 \<le> eng_onlineConfirmations e"
proof (cases "us_Utility (in_UPS inp) = UtilityOnline")
  case True
  then show ?thesis
    using ob n stepOnBattery_online(1) [OF True ob(2), of now]
    by (cases "eng_onlineConfirmations e < 1")
      (auto simp: Step_OnBattery online_sample_def split: if_splits)
next
  case False
  then show ?thesis
    using ob n stepOnBattery_commits [of now inp e] stepOnBattery_holds [of now inp e]
    by (cases "outage_commits now inp e") (auto simp: Step_OnBattery split: if_splits)
qed



section \<open>Durable outage progress\<close>

text \<open>
  The checkpointed outage time: \<open>recorded_upto t0 c e\<close> says the last checkpoint was taken at \<open>c\<close>
  and the durable counter covers the whole seconds from \<open>t0\<close> to \<open>c\<close>.
\<close>

definition recorded_upto :: "instant \<Rightarrow> instant \<Rightarrow> engine \<Rightarrow> bool" where
  "recorded_upto t0 c e \<longleftrightarrow>
     eng_lastOutageCheckpoint e = Some c \<and> t0 \<le> c
     \<and> (c - t0) div Second \<le> st_OutageElapsedSeconds (eng_st e)"

lemma go_div_nonneg: "0 \<le> a \<Longrightarrow> go_div a Second = a div Second"
  by (cases "a = 0") (simp_all add: go_div_def Second_def sgn_if)

lemma checkpointOutage_records:
  assumes "recorded_upto t0 c e" and "c \<le> now" and "now - t0 < 2 ^ 63"
  shows "\<exists>c'. recorded_upto t0 c' (snd (checkpointOutage now (time_Sub now (Some t0)) r e))
              \<and> c' \<le> now \<and> now - c' < 30 * Second"
proof -
  have el: "time_Sub now (Some t0) = now - t0"
    and gap: "time_Sub now (Some c) = now - c"
    using assms by (auto simp: recorded_upto_def time_Sub_def sat64_def max_def min_def)
  show ?thesis
  proof (cases "now - c < 30 * Second")
    case True
    then show ?thesis
      using assms gap by (intro exI [of _ c])
        (auto simp: recorded_upto_def checkpointOutage_def outageCheckpointInterval_def)
  next
    case False
    have "go_div (now - t0) Second = (now - t0) div Second"
      using assms by (intro go_div_nonneg) (auto simp: recorded_upto_def)
    moreover have "now - now < 30 * Second" by (simp add: Second_def)
    ultimately show ?thesis
      using False assms gap el
      by (intro exI [of _ now])
        (auto simp: recorded_upto_def checkpointOutage_def outageCheckpointInterval_def Let_def
          recordOutageElapsed_def)
  qed
qed

lemma on_battery_step_records:
  assumes "in_outage t0 e" "recorded_upto t0 c e" "c \<le> now" "now - t0 < 2 ^ 63"
    and "us_Utility (in_UPS inp) = UtilityOnBattery"
    and "\<not> st_ShutdownCommitted (eng_st (snd (Step now inp e)))"
  shows "in_outage t0 (snd (Step now inp e))
         \<and> (\<exists>c'. recorded_upto t0 c' (snd (Step now inp e)) \<and> c' \<le> now \<and> now - c' < 30 * Second)"
proof -
  let ?e = "e\<lparr>eng_onlineConfirmations := 0, eng_unknownSince := None\<rparr>"
  have nc: "\<not> outage_commits now inp e" "\<not> us_FSD (in_UPS inp)"
    using assms(1,6) stepOnBattery_commits [of now inp e]
    by (auto simp: in_outage_def Step_OnBattery split: if_splits)
  then have "\<not> trigger_met (eng_cfg e) (in_UPS inp) (time_Sub now (Some t0))" "\<not> us_LowBattery (in_UPS inp)"
    using assms(1,5) by (auto simp: outage_commits_def in_outage_def Let_def)
  then have "\<exists>r. snd (Step now inp e) = snd (checkpointOutage now (time_Sub now (Some t0)) r ?e)"
    using assms(1,5) nc
    by (auto simp: Step_OnBattery in_outage_def stepOnBattery_def outageTriggers_def trigger_met_def Let_def)
  moreover have "recorded_upto t0 c ?e" using assms(2) by (simp add: recorded_upto_def)
  ultimately show ?thesis
    using checkpointOutage_records [of t0 c ?e now] assms(3,4)
      in_outage_step [OF assms(1), of inp now] assms(5,6) by auto
qed

lemma observe_records:
  assumes "in_outage t0 e" "recorded_upto t0 c e"
    and "sorted (c # map fst xs)" "\<forall>(t, i) \<in> set xs. us_Utility (in_UPS i) = UtilityOnBattery \<and> t - t0 < 2 ^ 63"
    and "\<not> st_ShutdownCommitted (eng_st (observe e xs))"
  shows "in_outage t0 (observe e xs)
         \<and> (\<exists>c'. recorded_upto t0 c' (observe e xs) \<and> c' \<le> last (c # map fst xs)
                 \<and> (xs \<noteq> [] \<longrightarrow> last (map fst xs) - c' < 30 * Second))"
  using assms
proof (induction xs rule: rev_induct)
  case Nil
  then show ?case by auto
next
  case (snoc x xs)
  obtain now inp where x: "x = (now, inp)" by force
  have "\<not> st_ShutdownCommitted (eng_st (observe e xs))"
    using snoc.prems(5) Step_committed_mono by (auto simp: x)
  then obtain c' where "in_outage t0 (observe e xs)" "recorded_upto t0 c' (observe e xs)"
      "c' \<le> last (c # map fst xs)"
    using snoc.IH snoc.prems by (auto simp: sorted_append)
  moreover have "last (c # map fst xs) \<le> now"
    using snoc.prems(3) x by (cases xs rule: rev_cases) (auto simp: sorted_append)
  ultimately show ?case
    using on_battery_step_records [of t0 "observe e xs" c' now inp] snoc.prems x by auto
qed



section \<open>Reboots\<close>

text \<open>
  A reboot during an outage grants no fresh grace period: when a process starts on an
  uncommitted \<^verbatim>\<open>ON_BATTERY\<close> transaction and first sees the UPS on battery, it resumes the outage, and
  at any later time the outage counts as having lasted at least the grace period and at least the
  durably recorded time.
\<close>

theorem reboot_keeps_outage_time:
  assumes "st_PowerState p = OnBattery" "\<not> st_ShutdownCommitted p" "\<not> st_RecoveryStarted p"
    and "us_Utility (in_UPS inp) = UtilityOnBattery" "now \<le> later"
    and "0 \<le> st_OutageElapsedSeconds p" "st_OutageElapsedSeconds p \<le> 9223372036"
    and "0 \<le> pc_GracePeriod cfg" "pc_GracePeriod cfg < 2 ^ 63"
  shows "st_PowerState (eng_st (snd (Step now inp (New_Engine cfg p)))) = OnBattery
    \<and> pc_GracePeriod cfg \<le> time_Sub later (eng_onBatterySince (snd (Step now inp (New_Engine cfg p))))
    \<and> st_OutageElapsedSeconds p * Second
        \<le> time_Sub later (eng_onBatterySince (snd (Step now inp (New_Engine cfg p))))"
proof -
  let ?el = "max (pc_GracePeriod cfg) (st_OutageElapsedSeconds p * Second)"
  have sec: "seconds (st_OutageElapsedSeconds p) = st_OutageElapsedSeconds p * Second"
    by (rule seconds_exact) (use assms in auto)
  have range: "0 \<le> ?el" "?el < 2 ^ 63"
    using assms(6-9) by (auto simp: Second_def)
  then have neg: "int64 (- ?el) = - ?el"
    by (intro int64_id) linarith+
  have "eng_onBatterySince (snd (Step now inp (New_Engine cfg p))) = Some (now - ?el)
        \<and> st_PowerState (eng_st (snd (Step now inp (New_Engine cfg p)))) = OnBattery"
    using assms(1-4) sec neg
    by (auto simp: New_Engine_def Let_def Step_def reconcileBoot_def time_Add_def max_def)
  moreover have "?el \<le> time_Sub later (Some (now - ?el))"
    using range assms(5) by (subst le_time_Sub_iff) auto
  ultimately show ?thesis by auto
qed

theorem reboot_keeps_outage_time_witness:
  "90 * Second \<le> time_Sub (7 * Second) (eng_onBatterySince (snd (Step (5 * Second)
     (demo_in UtilityOnBattery) (New_Engine demo_cfg
       ((New_State ''t'' ''r'')\<lparr>st_PowerState := OnBattery, st_OutageElapsedSeconds := 90\<rparr>)))))"
  using reboot_keeps_outage_time [of "(New_State ''t'' ''r'')\<lparr>st_PowerState := OnBattery,
      st_OutageElapsedSeconds := 90\<rparr>" "demo_in UtilityOnBattery" "5 * Second" "7 * Second" demo_cfg]
  by (simp add: New_State_def demo_in_def demo_cfg_def Second_def)

text \<open>
  Claim C8. The transaction stays consistent in every reachable state of a process, across
  observations, completed phases, failed writes and the orchestrator's rewrites, and in a
  consistent state no observation makes the engine fail with an unsupported-state error.
\<close>

theorem transaction_consistent:
  assumes "engine_run cfg p h e" and "txn_inv p"
  shows "txn_inv (eng_st e) \<and> (\<exists>d. fst (Step now inp e) = Inr d)"
  using run_inv [OF assms] Step_never_fails by blast

theorem transaction_consistent_witness:
  "txn_inv (eng_st (New_Engine demo_cfg demo_committed))
   \<and> (\<exists>d. fst (Step 0 (demo_in UtilityOnline) (New_Engine demo_cfg demo_committed)) = Inr d)"
  by (rule transaction_consistent [OF engine_run.boot])
    (simp add: txn_inv_def demo_committed_def New_State_def)

section \<open>Two departures from the documented policy\<close>

text \<open>
  \<^verbatim>\<open>FAILED_SAFE\<close> does not survive a restart: there is a persisted consistent transaction in
  \<^verbatim>\<open>FAILED_SAFE\<close> from which a new process, given only healthy online observations, proceeds to
  restore hosts. (\<^verbatim>\<open>New\<close> overwrites the persisted power state with \<^verbatim>\<open>BOOT_RECONCILE\<close> and boot
  reconciliation looks at the commit flags only.)
\<close>

theorem failed_safe_is_forgotten_at_boot:
  "\<exists>p h e. st_PowerState p = FailedSafe \<and> txn_inv p \<and> engine_run demo_cfg p h e
     \<and> list_all (\<lambda>(t, i). safe_sample i) h \<and> st_PowerState (eng_st e) = RestoreHosts"
proof -
  let ?p = "demo_committed\<lparr>st_PowerState := FailedSafe\<rparr>"
  let ?h = "[(0, demo_in UtilityOnline), (120 * Second, demo_in UtilityOnline),
             (125 * Second, demo_in UtilityOnline)]"
  have "engine_run cfg p h e \<Longrightarrow> engine_run cfg p (h @ xs) (observe e xs)" for cfg p h e xs
    by (induction xs rule: rev_induct) (auto simp flip: append_assoc intro: engine_run.sample)
  from this [OF engine_run.boot, of demo_cfg ?p ?h]
  have "engine_run demo_cfg ?p ?h (observe (New_Engine demo_cfg ?p) ?h)" by simp
  moreover have "st_PowerState (eng_st (observe (New_Engine demo_cfg ?p) ?h)) = RestoreHosts"
    by (simp add: demo_defs)
  moreover have "list_all (\<lambda>(t, i). safe_sample i) ?h"
    by (simp add: safe_sample_def online_sample_def demo_in_def)
  moreover have "txn_inv ?p" "st_PowerState ?p = FailedSafe"
    by (simp_all add: txn_inv_def demo_committed_def New_State_def)
  ultimately show ?thesis by blast
qed

text \<open>
  The two-sample debounce can be bypassed: an online confirmation counted before an FSD
  commit survives the whole shutdown and recovery, so in a later outage, opened by an unsafe sample
  during host restoration, a single online observation returns the engine to \<^verbatim>\<open>NORMAL\<close>. (The run
  uses \<^verbatim>\<open>beginFreshOutage\<close> as the orchestrator does when recovery is stopped.)
\<close>

theorem debounce_bypassed_after_fsd:
  "\<exists>p h e t1 t2 fresh. txn_inv p \<and> engine_run demo_cfg p h e
     \<and> st_PowerState (eng_st e) = RestoreHosts
     \<and> (let e1 = snd (Step t1 (demo_in UtilityUnknown) e);
            e2 = e1\<lparr>eng_st := (eng_st e1)\<lparr>st_ShutdownCommitted := False, st_RecoveryStarted := False,
                                          st_TransactionID := fresh\<rparr>\<rparr>;
            e3 = snd (Step t2 (demo_in UtilityOnline) e2)
        in st_PowerState (eng_st e1) = OnBattery \<and> txn_rewrite (eng_st e1) (eng_st e2)
           \<and> st_PowerState (eng_st e3) = Normal)"
proof -
  let ?p = "New_State ''t'' ''r''"
  let ?h1 = "[(0, demo_in UtilityOnBattery), (5 * Second, demo_in UtilityOnline),
              (10 * Second, demo_fsd), (15 * Second, demo_in UtilityOnline)]"
  let ?h2 = "[(20 * Second, demo_in UtilityOnline), (140 * Second, demo_in UtilityOnline),
              (145 * Second, demo_in UtilityOnline)]"
  let ?e1 = "snd (MarkShutdownPhaseComplete (observe (New_Engine demo_cfg ?p) ?h1))"
  have obs: "engine_run cfg p h e \<Longrightarrow> engine_run cfg p (h @ xs) (observe e xs)" for cfg p h e xs
    by (induction xs rule: rev_induct) (auto simp flip: append_assoc intro: engine_run.sample)
  have "engine_run demo_cfg ?p ?h1 (observe (New_Engine demo_cfg ?p) ?h1)"
    using obs [OF engine_run.boot, of demo_cfg ?p ?h1] by simp
  then have "engine_run demo_cfg ?p (?h1 @ ?h2) (observe ?e1 ?h2)"
    by (intro obs engine_run.shutdown_done)
  moreover have e1: "eng_st (observe ?e1 ?h2) =
      ?p\<lparr>st_PowerState := RestoreHosts, st_ShutdownCommitted := True, st_RecoveryStarted := True\<rparr>
     \<and> eng_onlineConfirmations (observe ?e1 ?h2) = 1 \<and> eng_cfg (observe ?e1 ?h2) = demo_cfg"
    by (simp add: MarkShutdownPhaseComplete_def demo_defs)
  ultimately obtain e where run: "engine_run demo_cfg ?p (?h1 @ ?h2) e"
    and e: "eng_st e = ?p\<lparr>st_PowerState := RestoreHosts, st_ShutdownCommitted := True,
                            st_RecoveryStarted := True\<rparr>"
      "eng_onlineConfirmations e = 1" "eng_cfg e = demo_cfg"
    by blast
  have ps: "st_PowerState (eng_st e) = RestoreHosts" by (simp add: e)
  have "txn_inv ?p" by (simp add: txn_inv_def New_State_def)
  moreover
  let ?f = "snd (Step (150 * Second) (demo_in UtilityUnknown) e)"
  have f: "eng_st ?f = ?p\<lparr>st_PowerState := OnBattery, st_ShutdownCommitted := True\<rparr>"
      "eng_onlineConfirmations ?f = 1"
    by (simp_all add: Step_def e stepRestoreHosts_def recoveryEnabled_def unsafeUPS_def demo_cfg_def
        demo_in_def New_State_def)
  let ?g = "?f\<lparr>eng_st := (eng_st ?f)\<lparr>st_ShutdownCommitted := False, st_RecoveryStarted := False,
                st_TransactionID := ''f''\<rparr>\<rparr>"
  have gen: "st_PowerState (eng_st (snd (Step t (demo_in UtilityOnline) g))) = Normal"
    if "st_PowerState (eng_st g) = OnBattery" "\<not> st_ShutdownCommitted (eng_st g)"
      "eng_onlineConfirmations g = 1" for t g
    using that
    by (simp add: Step_def stepOnBattery_def Let_def preCommitOnlineConfirmations_def demo_in_def)
  have "st_PowerState (eng_st ?f) = OnBattery" "txn_rewrite (eng_st ?f) (eng_st ?g)"
    by (simp_all add: f txn_rewrite_def)
  moreover have "st_PowerState (eng_st (snd (Step (155 * Second) (demo_in UtilityOnline) ?g))) = Normal"
    by (rule gen) (simp_all add: f)
  ultimately show ?thesis
    unfolding Let_def using run ps by blast
qed

end
