(* ===== verification/State_Writer.thy ===== *)
theory State_Writer
  imports State_Model
begin

text \<open>
  The interface \<^verbatim>\<open>StateWriter\<close> of \<^verbatim>\<open>agent/internal/policy/coordinator.go\<close>: what a writer of complete
  state generations promises to the coordinator. The store implements it, and so does the
  coordinator itself, on top of any writer.
\<close>

section \<open>Names of the enumerations in the state file\<close>

fun power_state_name :: "power_state \<Rightarrow> string" where
  "power_state_name BootReconcile = ''BOOT_RECONCILE''"
| "power_state_name Normal = ''NORMAL''"
| "power_state_name OnBattery = ''ON_BATTERY''"
| "power_state_name ShutdownCommitted = ''SHUTDOWN_COMMITTED''"
| "power_state_name ShutdownInProgress = ''SHUTDOWN_IN_PROGRESS''"
| "power_state_name WaitingForAC = ''WAITING_FOR_AC''"
| "power_state_name RecoveryWait = ''RECOVERY_WAIT''"
| "power_state_name RecoveryStarted = ''RECOVERY_STARTED''"
| "power_state_name RestoreHosts = ''RESTORE_HOSTS''"
| "power_state_name FailedSafe = ''FAILED_SAFE''"
| "power_state_name (OtherPowerState s) = s"

fun shutdown_state_name :: "shutdown_state \<Rightarrow> string" where
  "shutdown_state_name ShutdownNotRequired = ''not_required''"
| "shutdown_state_name ShutdownPlanned = ''planned''"
| "shutdown_state_name ShutdownRequested = ''requested''"
| "shutdown_state_name ShutdownAcknowledged = ''acknowledged''"
| "shutdown_state_name ShutdownCompleted = ''completed''"
| "shutdown_state_name ShutdownUnknown = ''unknown''"
| "shutdown_state_name ShutdownFailed = ''failed''"
| "shutdown_state_name (OtherShutdownState s) = s"

fun recovery_state_name :: "recovery_state \<Rightarrow> string" where
  "recovery_state_name RecoveryNotRequired = ''not_required''"
| "recovery_state_name RecoveryWaiting = ''waiting''"
| "recovery_state_name RecoveryWOLSent = ''wol_sent''"
| "recovery_state_name RecoveryOnline = ''online''"
| "recovery_state_name RecoveryUnknown = ''unknown''"
| "recovery_state_name RecoveryFailed = ''failed''"
| "recovery_state_name (OtherRecoveryState s) = s"

text \<open>The values of the model that stand for a Go string exactly once.\<close>

fun canonical_power :: "power_state \<Rightarrow> bool" where
  "canonical_power (OtherPowerState s) \<longleftrightarrow>
     s \<notin> set (map power_state_name [BootReconcile, Normal, OnBattery, ShutdownCommitted,
       ShutdownInProgress, WaitingForAC, RecoveryWait, RecoveryStarted, RestoreHosts, FailedSafe])"
| "canonical_power _ \<longleftrightarrow> True"

fun canonical_shutdown :: "shutdown_state \<Rightarrow> bool" where
  "canonical_shutdown (OtherShutdownState s) \<longleftrightarrow>
     s \<notin> set (map shutdown_state_name [ShutdownNotRequired, ShutdownPlanned, ShutdownRequested,
       ShutdownAcknowledged, ShutdownCompleted, ShutdownUnknown, ShutdownFailed])"
| "canonical_shutdown _ \<longleftrightarrow> True"

fun canonical_recovery :: "recovery_state \<Rightarrow> bool" where
  "canonical_recovery (OtherRecoveryState s) \<longleftrightarrow>
     s \<notin> set (map recovery_state_name [RecoveryNotRequired, RecoveryWaiting, RecoveryWOLSent,
       RecoveryOnline, RecoveryUnknown, RecoveryFailed])"
| "canonical_recovery _ \<longleftrightarrow> True"

section \<open>States that survive a trip through the state file\<close>

definition in_int64 :: "int \<Rightarrow> bool" where
  "in_int64 n \<longleftrightarrow> - (2 ^ 63) \<le> n \<and> n < 2 ^ 63"

definition f64_rational :: "rat \<Rightarrow> bool" where
  "f64_rational q \<longleftrightarrow> (\<exists>m k. \<bar>m\<bar> < (2::int) ^ 53 \<and>
     (k \<le> 971 \<and> q = of_int m * 2 ^ k \<or> k \<le> (1074::nat) \<and> q = of_int m / 2 ^ k))"

fun encodable_charge :: "float64 option \<Rightarrow> bool" where
  "encodable_charge None \<longleftrightarrow> True"
| "encodable_charge (Some x) \<longleftrightarrow> f64_is_finite x"

text \<open>\<^verbatim>\<open>json.Marshal\<close> of a state fails only on a charge that is not finite.\<close>

definition encodable :: "power_txn \<Rightarrow> bool" where
  "encodable st \<longleftrightarrow> (case st_LastUPS st of None \<Rightarrow> True | Some ob \<Rightarrow> encodable_charge (ob_BatteryCharge ob))"

definition plain_obs :: "ups_observation \<Rightarrow> bool" where
  "plain_obs ob \<longleftrightarrow> ascii (ob_Utility ob) \<and> ascii (ob_RawStatus ob) \<and> ascii (ob_ObservedAtWallclock ob)
     \<and> (\<forall>x. ob_BatteryCharge ob = Some x \<longrightarrow> (\<exists>q. x = Finite q \<and> f64_rational q))
     \<and> (\<forall>n. ob_BatteryRuntimeSeconds ob = Some n \<longrightarrow> in_int64 n)"

definition plain_host :: "host_state \<Rightarrow> bool" where
  "plain_host hs \<longleftrightarrow> canonical_shutdown (hs_ShutdownState hs) \<and> ascii (shutdown_state_name (hs_ShutdownState hs))
     \<and> canonical_recovery (hs_RecoveryState hs) \<and> ascii (recovery_state_name (hs_RecoveryState hs))
     \<and> in_int64 (hs_ShutdownAttempts hs) \<and> in_int64 (hs_WakeAttempts hs)
     \<and> ascii (hs_LastActionID hs) \<and> ascii (hs_LastVerification hs) \<and> ascii (hs_LastError hs)"

text \<open>
  A state made of ASCII text, 64-bit integers and representable charges: what JSON carries without
  loss.
\<close>

definition plain_txn :: "power_txn \<Rightarrow> bool" where
  "plain_txn st \<longleftrightarrow> in_int64 (st_StateVersion st) \<and> ascii (st_TransactionID st)
     \<and> ascii (st_ParentTransactionID st) \<and> canonical_power (st_PowerState st)
     \<and> ascii (power_state_name (st_PowerState st)) \<and> ascii (st_ActiveConfigRevision st)
     \<and> (\<forall>ob. st_LastUPS st = Some ob \<longrightarrow> plain_obs ob) \<and> in_int64 (st_OutageElapsedSeconds st)
     \<and> (\<forall>h hs. fmlookup (hosts_of st) h = Some hs \<longrightarrow> ascii h \<and> plain_host hs)
     \<and> ascii (st_FailedSafeReason st) \<and> ascii (st_Checksum st)"

lemma plain_encodable: "plain_txn st \<Longrightarrow> encodable st"
  by (auto simp: plain_txn_def plain_obs_def encodable_def split: option.splits)
    (metis encodable_charge.elims(3) f64_is_finite.simps(1))

text \<open>A generation without what the writer fills in: sequence number, version and checksum.\<close>

definition txn_content :: "power_txn \<Rightarrow> power_txn" where
  "txn_content st = st\<lparr>st_StateVersion := 0, st_Sequence := 0, st_Checksum := ''''\<rparr>"

lemma txn_content_simps [simp]:
  "st_PowerState (txn_content st) = st_PowerState st"
  "st_ShutdownCommitted (txn_content st) = st_ShutdownCommitted st"
  "st_RecoveryStarted (txn_content st) = st_RecoveryStarted st"
  "st_TransactionID (txn_content st) = st_TransactionID st"
  "st_ParentTransactionID (txn_content st) = st_ParentTransactionID st"
  "st_LastUPS (txn_content st) = st_LastUPS st"
  "st_ActiveConfigRevision (txn_content st) = st_ActiveConfigRevision st"
  "st_Hosts (txn_content st) = st_Hosts st"
  "st_OutageElapsedSeconds (txn_content st) = st_OutageElapsedSeconds st"
  "st_FailedSafeReason (txn_content st) = st_FailedSafeReason st"
  by (simp_all add: txn_content_def)

lemma txn_contentD:
  assumes "txn_content a = txn_content b"
  shows "st_PowerState a = st_PowerState b" "st_ShutdownCommitted a = st_ShutdownCommitted b"
    "st_RecoveryStarted a = st_RecoveryStarted b" "st_TransactionID a = st_TransactionID b"
    "st_ParentTransactionID a = st_ParentTransactionID b" "st_LastUPS a = st_LastUPS b"
    "st_ActiveConfigRevision a = st_ActiveConfigRevision b" "st_Hosts a = st_Hosts b"
    "st_OutageElapsedSeconds a = st_OutageElapsedSeconds b"
    "st_FailedSafeReason a = st_FailedSafeReason b"
  by (simp_all only: txn_content_simps [of a, symmetric] txn_content_simps [of b, symmetric] assms)

lemma txn_content_hosts: "txn_content a = txn_content b \<Longrightarrow> hosts_of a = hosts_of b"
  using txn_contentD(8) [of a b] by (simp add: hosts_of_def)

section \<open>The interface\<close>

text \<open>
  \<open>put\<close> acts on a world \<open>'w\<close>; \<open>durable\<close> is the generation a restarted process would load.
  A successful write returns the generation that is now durable, and it differs from the one
  handed in only in what the writer fills in. A failed write leaves the old generation or, when
  the failure comes after the switch, the attempted one: never anything else.
\<close>

locale state_writer =
  fixes put :: "'w \<Rightarrow> power_txn \<Rightarrow> ('e + power_txn) \<times> 'w"
    and durable :: "'w \<Rightarrow> power_txn option"
    and valid :: "'w \<Rightarrow> bool"
  assumes write_success: "valid w \<Longrightarrow> plain_txn st \<Longrightarrow> put w st = (Inr st', w') \<Longrightarrow>
      durable w' = Some st' \<and> txn_content st' = txn_content st"
    and write_failure: "valid w \<Longrightarrow> plain_txn st \<Longrightarrow> put w st = (Inl err, w') \<Longrightarrow>
      durable w' = durable w \<or> (\<exists>st'. durable w' = Some st' \<and> txn_content st' = txn_content st)"
    and write_valid: "valid w \<Longrightarrow> valid (snd (put w st))"
begin

lemma durable_after_write:
  assumes "valid w" and "plain_txn st"
  shows "durable (snd (put w st)) = durable w
    \<or> (\<exists>st'. durable (snd (put w st)) = Some st' \<and> txn_content st' = txn_content st)"
proof (cases "put w st")
  case (Pair r w')
  then show ?thesis
    using assms write_success [of w st] write_failure [of w st] by (cases r) auto
qed

text \<open>Whatever is durable in the end is the first generation or one of those written since.\<close>

fun write_all :: "'w \<Rightarrow> power_txn list \<Rightarrow> 'w" where
  "write_all w [] = w"
| "write_all w (st # sts) = write_all (snd (put w st)) sts"

lemma durable_write_all:
  assumes "valid w" and "\<forall>st \<in> set sts. plain_txn st"
  shows "durable (write_all w sts) = durable w
    \<or> (\<exists>st \<in> set sts. \<exists>st'. durable (write_all w sts) = Some st' \<and> txn_content st' = txn_content st)"
  using assms
proof (induction sts arbitrary: w)
  case Nil
  then show ?case by simp
next
  case (Cons st sts)
  then show ?case
    using Cons.IH [OF write_valid [OF Cons.prems(1), of st]] durable_after_write [OF Cons.prems(1), of st]
    by auto
qed

end

end
