(* ===== verification/State_Store.thy ===== *)
theory State_Store
  imports State_Writer
begin

text \<open>
  The durable store of \<^verbatim>\<open>agent/internal/state/store.go\<close>: two generations of the transaction in
  \<^verbatim>\<open>current.json\<close> and \<^verbatim>\<open>previous.json\<close>, each with a checksum, replaced by atomic renames. Every
  system call may fail, and the model records every content the directory goes through, so that a
  crash at any point is a statement about one of the recorded directories.

  JSON and SHA-256 are parameters, a record of functions over an arbitrary type of file contents;
  \<open>codec_ok\<close> names what the store relies on.
\<close>

section \<open>File contents and codec\<close>

record 'b codec =
  cd_Marshal :: "power_txn \<Rightarrow> 'b option"
  cd_Encode :: "power_txn \<Rightarrow> 'b option"
  cd_Unmarshal :: "'b \<Rightarrow> power_txn option"
  cd_sha256_hex :: "'b \<Rightarrow> string"

definition codec_ok :: "'b codec \<Rightarrow> bool" where
  "codec_ok cd \<longleftrightarrow>
     (\<forall>st. cd_Marshal cd st \<noteq> None \<longleftrightarrow> encodable st)
     \<and> (\<forall>st. cd_Encode cd st \<noteq> None \<longleftrightarrow> encodable st)
     \<and> (\<forall>st b. plain_txn st \<longrightarrow> cd_Encode cd st = Some b \<longrightarrow> cd_Unmarshal cd b = Some st)
     \<and> (\<forall>b. length (cd_sha256_hex cd b) = 64 \<and> ascii (cd_sha256_hex cd b))"

datatype store_op =
    OpEnsure | OpOpenLock | OpFlock | OpReadCurrent | OpReadPrevious | OpCreateTemp | OpChmodTemp
  | OpWriteTemp | OpSyncTemp | OpCloseTemp | OpReadRotated | OpRotate | OpSyncRotated
  | OpActivate | OpSyncActivated

datatype store_error =
    IOError store_op
  | NotFound
  | DecodeFailed
  | EncodeFailed
  | UnsupportedStateVersion int
  | TransactionIDRequired
  | ConfigRevisionRequired
  | HostsRequired
  | RecoveryRequiresCommit
  | RestoreRequiresRecovery
  | ChecksumMissing
  | ChecksumMismatch
  | ErrNoValidState

datatype source = SourceCurrent | SourcePrevious

record 'b disk =
  dk_current :: "'b option"
  dk_previous :: "'b option"

text \<open>
  The world of a store: its directory, the directories it has gone through, which system call of
  which \<^verbatim>\<open>Write\<close> fails, and how many writes were started.
\<close>

record 'b store_world =
  sw_codec :: "'b codec"
  sw_disk :: "'b disk"
  sw_seen :: "'b disk list"
  sw_fault :: "nat \<Rightarrow> store_op \<Rightarrow> bool"
  sw_calls :: nat

section \<open>Validation and checksums\<close>

definition validateSemantic :: "power_txn \<Rightarrow> store_error option" where
  "validateSemantic st =
     (if st_StateVersion st \<noteq> Version then Some (UnsupportedStateVersion (st_StateVersion st))
      else if st_TransactionID st = '''' then Some TransactionIDRequired
      else if st_ActiveConfigRevision st = '''' then Some ConfigRevisionRequired
      else if st_Hosts st = None then Some HostsRequired
      else if st_RecoveryStarted st \<and> \<not> st_ShutdownCommitted st then Some RecoveryRequiresCommit
      else if st_PowerState st = RestoreHosts \<and> \<not> st_RecoveryStarted st
      then Some RestoreRequiresRecovery
      else None)"

definition checksum :: "'b codec \<Rightarrow> power_txn \<Rightarrow> store_error + string" where
  "checksum cd st =
     (case cd_Marshal cd (st\<lparr>st_Checksum := ''''\<rparr>) of
        None \<Rightarrow> Inl EncodeFailed
      | Some b \<Rightarrow> Inr (cd_sha256_hex cd b))"

definition withChecksum :: "'b codec \<Rightarrow> power_txn \<Rightarrow> store_error + power_txn" where
  "withChecksum cd st =
     (case checksum cd (st\<lparr>st_Checksum := ''''\<rparr>) of
        Inl e \<Rightarrow> Inl e
      | Inr digest \<Rightarrow> Inr (st\<lparr>st_Checksum := digest\<rparr>))"

definition readAndValidate :: "'b codec \<Rightarrow> 'b option \<Rightarrow> store_error + power_txn" where
  "readAndValidate cd file =
     (case file of
        None \<Rightarrow> Inl NotFound
      | Some b \<Rightarrow>
          (case cd_Unmarshal cd b of
             None \<Rightarrow> Inl DecodeFailed
           | Some st \<Rightarrow>
               (case validateSemantic st of
                  Some e \<Rightarrow> Inl e
                | None \<Rightarrow>
                    (if st_Checksum st = '''' then Inl ChecksumMissing
                     else
                       (case checksum cd st of
                          Inl e \<Rightarrow> Inl e
                        | Inr expected \<Rightarrow>
                            (if st_Checksum st \<noteq> expected then Inl ChecksumMismatch
                             else Inr st))))))"

section \<open>Load and Write\<close>

text \<open>Opening or reading a file can fail too: \<open>fault\<close> says for which of the two.\<close>

definition Load :: "'b codec \<Rightarrow> (store_op \<Rightarrow> bool) \<Rightarrow> 'b disk \<Rightarrow> store_error + (power_txn \<times> source)" where
  "Load cd fault d =
     (case (if fault OpReadCurrent then Inl (IOError OpReadCurrent)
            else readAndValidate cd (dk_current d)) of
        Inr st \<Rightarrow> Inr (st, SourceCurrent)
      | Inl _ \<Rightarrow>
          (case (if fault OpReadPrevious then Inl (IOError OpReadPrevious)
                 else readAndValidate cd (dk_previous d)) of
             Inr st \<Rightarrow> Inr (st, SourcePrevious)
           | Inl _ \<Rightarrow> Inl ErrNoValidState))"

type_synonym ('b, 'a) store_proc = "('b store_world, store_error, 'a) proc"

definition sys :: "store_op \<Rightarrow> ('b, unit) store_proc" where
  "sys op = (\<lambda>w. if sw_fault w (sw_calls w) op then (Inl (IOError op), w) else (Inr (), w))"

definition rename_to :: "('b disk \<Rightarrow> 'b disk) \<Rightarrow> ('b, unit) store_proc" where
  "rename_to f = modifyS (\<lambda>w. w\<lparr>sw_disk := f (sw_disk w), sw_seen := sw_seen w @ [f (sw_disk w)]\<rparr>)"

text \<open>The sequence number and version \<^verbatim>\<open>Write\<close> gives to the next generation.\<close>

definition next_generation :: "power_txn \<Rightarrow> 'b store_world \<Rightarrow> power_txn" where
  "next_generation nxt w =
     (let baseSeq = (case Load (sw_codec w) (sw_fault w (sw_calls w)) (sw_disk w) of
                       Inl _ \<Rightarrow> 0 | Inr (current, _) \<Rightarrow> st_Sequence current);
          nxt' = nxt\<lparr>st_Sequence := baseSeq + 1\<rparr>
      in if st_StateVersion nxt' = 0 then nxt'\<lparr>st_StateVersion := Version\<rparr> else nxt')"

text \<open>The temporary file: its whole content, synced and closed, or an error and no file.\<close>

definition write_temp :: "power_txn \<Rightarrow> ('b, 'b) store_proc" where
  "write_temp payload =
     seqE (sys OpCreateTemp) (\<lambda>_.
     seqE (sys OpChmodTemp) (\<lambda>_.
     seqE (getS (\<lambda>w. cd_Encode (sw_codec w) payload)) (\<lambda>enc.
     case enc of
       None \<Rightarrow> throw EncodeFailed
     | Some b \<Rightarrow>
         seqE (sys OpWriteTemp) (\<lambda>_.
         seqE (sys OpSyncTemp) (\<lambda>_.
         seqE (sys OpCloseTemp) (\<lambda>_. return b))))))"

text \<open>The rotation of a valid current generation to \<^verbatim>\<open>previous.json\<close>.\<close>

definition rotate :: "('b, unit) store_proc" where
  "rotate =
     seqE (getS (\<lambda>w. if sw_fault w (sw_calls w) OpReadRotated then Inl (IOError OpReadRotated)
                     else readAndValidate (sw_codec w) (dk_current (sw_disk w)))) (\<lambda>r.
     case r of
       Inl _ \<Rightarrow> return ()
     | Inr _ \<Rightarrow>
         seqE (sys OpRotate) (\<lambda>_.
         seqE (rename_to (\<lambda>d. d\<lparr>dk_current := None, dk_previous := dk_current d\<rparr>)) (\<lambda>_.
         sys OpSyncRotated)))"

text \<open>The final rename, and the whole sequence from the temporary file to it.\<close>

definition activate :: "'b \<Rightarrow> power_txn \<Rightarrow> ('b, power_txn) store_proc" where
  "activate b payload =
     seqE (sys OpActivate) (\<lambda>_.
     seqE (rename_to (\<lambda>d. d\<lparr>dk_current := Some b\<rparr>)) (\<lambda>_.
     seqE (sys OpSyncActivated) (\<lambda>_.
     return payload)))"

definition install :: "power_txn \<Rightarrow> ('b, power_txn) store_proc" where
  "install payload =
     seqE (write_temp payload) (\<lambda>b. seqE rotate (\<lambda>_. activate b payload))"

definition Write :: "power_txn \<Rightarrow> ('b, power_txn) store_proc" where
  "Write nxt =
     seqE (modifyS (\<lambda>w. w\<lparr>sw_calls := sw_calls w + 1\<rparr>)) (\<lambda>_.
     seqE (sys OpEnsure) (\<lambda>_.
     seqE (sys OpOpenLock) (\<lambda>_.
     seqE (sys OpFlock) (\<lambda>_.
     seqE (getS (next_generation nxt)) (\<lambda>nxt.
     case validateSemantic nxt of
       Some e \<Rightarrow> throw e
     | None \<Rightarrow>
         seqE (getS sw_codec) (\<lambda>cd.
         seqE (liftR (withChecksum cd nxt)) install))))))"

definition store_put :: "'b store_world \<Rightarrow> power_txn \<Rightarrow> (store_error + power_txn) \<times> 'b store_world" where
  "store_put w nxt = Write nxt w"

text \<open>What a restarted process loads from a directory.\<close>

definition loaded :: "'b codec \<Rightarrow> 'b disk \<Rightarrow> power_txn option" where
  "loaded cd d = (case Load cd (\<lambda>_. False) d of Inl _ \<Rightarrow> None | Inr (st, _) \<Rightarrow> Some st)"

definition store_durable :: "'b store_world \<Rightarrow> power_txn option" where
  "store_durable w = loaded (sw_codec w) (sw_disk w)"

definition store_valid :: "'b store_world \<Rightarrow> bool" where
  "store_valid w \<longleftrightarrow> codec_ok (sw_codec w)"

section \<open>Reading back what was written\<close>

lemma checksum_ignores [simp]: "checksum cd (st\<lparr>st_Checksum := c\<rparr>) = checksum cd st"
  by (simp add: checksum_def)

lemma withChecksum_content:
  "withChecksum cd st = Inr payload \<Longrightarrow> txn_content payload = txn_content st"
  by (auto simp: withChecksum_def txn_content_def split: sum.splits)

lemma withChecksum_plain:
  assumes "codec_ok cd" "plain_txn st" "withChecksum cd st = Inr payload"
  shows "plain_txn payload" "st_Checksum payload \<noteq> ''''" "checksum cd payload = Inr (st_Checksum payload)"
    "validateSemantic payload = validateSemantic st" "st_Sequence payload = st_Sequence st"
proof -
  obtain b where c: "checksum cd st = Inr (cd_sha256_hex cd b)"
      "payload = st\<lparr>st_Checksum := cd_sha256_hex cd b\<rparr>"
    using assms(3) by (auto simp: withChecksum_def checksum_def split: sum.splits option.splits)
  then have dg: "length (st_Checksum payload) = 64" "ascii (st_Checksum payload)"
    using assms(1) by (auto simp: codec_ok_def)
  then show "st_Checksum payload \<noteq> ''''" by auto
  show "plain_txn payload" using assms(2) dg c(2) by (simp add: plain_txn_def hosts_of_def)
  show "checksum cd payload = Inr (st_Checksum payload)" using c by simp
  show "validateSemantic payload = validateSemantic st" using c(2) by (simp add: validateSemantic_def)
  show "st_Sequence payload = st_Sequence st" using c(2) by simp
qed

lemma read_back:
  assumes "codec_ok cd" "plain_txn st" "validateSemantic st = None"
    and "withChecksum cd st = Inr payload" "cd_Encode cd payload = Some b"
  shows "readAndValidate cd (Some b) = Inr payload"
proof -
  note p = withChecksum_plain [OF assms(1,2,4)]
  have "cd_Unmarshal cd b = Some payload"
    using assms(1,5) p(1) by (simp add: codec_ok_def)
  then show ?thesis
    using p assms(3) by (simp add: readAndValidate_def)
qed

text \<open>Whatever is loaded is semantically valid and carries its own checksum.\<close>

lemma readAndValidate_sound:
  "readAndValidate cd f = Inr st \<Longrightarrow>
     validateSemantic st = None \<and> st_Checksum st \<noteq> '''' \<and> checksum cd st = Inr (st_Checksum st)"
  by (auto simp: readAndValidate_def split: option.splits if_splits sum.splits)

lemma loaded_cases:
  "loaded cd d = (case readAndValidate cd (dk_current d) of
      Inr st \<Rightarrow> Some st
    | Inl _ \<Rightarrow> (case readAndValidate cd (dk_previous d) of Inr st \<Rightarrow> Some st | Inl _ \<Rightarrow> None))"
  by (simp add: loaded_def Load_def split: sum.splits)

section \<open>The three outcomes of a write\<close>

definition rotated :: "'b disk \<Rightarrow> 'b disk" where
  "rotated d = d\<lparr>dk_current := None, dk_previous := dk_current d\<rparr>"

text \<open>
  The generation a write tries to install: \<open>installs w nxt payload b\<close> says \<open>payload\<close> is \<open>nxt\<close>
  completed and valid, and \<open>b\<close> its encoding.
\<close>

definition installs :: "'b store_world \<Rightarrow> power_txn \<Rightarrow> power_txn \<Rightarrow> 'b \<Rightarrow> bool" where
  "installs w nxt payload b \<longleftrightarrow>
     (let nxt' = next_generation nxt (w\<lparr>sw_calls := sw_calls w + 1\<rparr>) in
      validateSemantic nxt' = None \<and> withChecksum (sw_codec w) nxt' = Inr payload
      \<and> cd_Encode (sw_codec w) payload = Some b)"

definition untouched :: "'b store_world \<Rightarrow> 'b store_world \<Rightarrow> bool" where
  "untouched w w' \<longleftrightarrow> sw_disk w' = sw_disk w \<and> sw_seen w' = sw_seen w"

definition only_rotated :: "'b store_world \<Rightarrow> 'b store_world \<Rightarrow> bool" where
  "only_rotated w w' \<longleftrightarrow>
     (\<exists>st. readAndValidate (sw_codec w) (dk_current (sw_disk w)) = Inr st)
     \<and> sw_disk w' = rotated (sw_disk w) \<and> sw_seen w' = sw_seen w @ [rotated (sw_disk w)]"

definition activated :: "'b store_world \<Rightarrow> 'b \<Rightarrow> 'b store_world \<Rightarrow> bool" where
  "activated w b w' \<longleftrightarrow>
     (\<exists>w1. (untouched w w1 \<or> only_rotated w w1)
        \<and> sw_disk w' = (sw_disk w1)\<lparr>dk_current := Some b\<rparr>
        \<and> sw_seen w' = sw_seen w1 @ [(sw_disk w1)\<lparr>dk_current := Some b\<rparr>])"

lemma sys_cases: "sys op w = (r, w') \<Longrightarrow> w' = w \<and> (r = Inr () \<or> r = Inl (IOError op))"
  by (auto simp: sys_def split: if_splits)

lemma write_temp_cases:
  "write_temp payload w = (r, w') \<Longrightarrow>
     w' = w \<and> (case r of Inl _ \<Rightarrow> True | Inr b \<Rightarrow> cd_Encode (sw_codec w) payload = Some b)"
  by (auto simp: write_temp_def sys_def proc_defs split: if_splits option.splits prod.splits sum.splits)

lemma rotate_cases:
  assumes "rotate w = (r, w')"
  shows "sw_codec w' = sw_codec w \<and> sw_fault w' = sw_fault w \<and> sw_calls w' = sw_calls w
     \<and> (untouched w w' \<or> only_rotated w w')"
  using assms
  by (auto simp: rotate_def sys_def proc_defs rename_to_def untouched_def only_rotated_def rotated_def
      split: if_splits sum.splits)

lemma activate_cases:
  assumes "activate b payload w1 = (r, w')" and "untouched w w1 \<or> only_rotated w w1"
  shows "sw_codec w' = sw_codec w1
     \<and> (((\<exists>e. r = Inl e) \<and> (untouched w w' \<or> only_rotated w w'))
       \<or> activated w b w' \<and> (r = Inr payload \<or> r = Inl (IOError OpSyncActivated)))"
  using assms
  by (auto simp: activate_def sys_def proc_defs rename_to_def activated_def split: if_splits)

lemma install_cases:
  assumes "install payload w = (r, w')"
  shows "sw_codec w' = sw_codec w
     \<and> (((\<exists>e. r = Inl e) \<and> (untouched w w' \<or> only_rotated w w'))
       \<or> (\<exists>b. cd_Encode (sw_codec w) payload = Some b \<and> activated w b w'
            \<and> (r = Inr payload \<or> r = Inl (IOError OpSyncActivated))))"
  using assms unfolding install_def
proof (cases rule: seqE_elim)
  case (fails e)
  then show ?thesis using write_temp_cases [of payload w] by (auto simp: untouched_def)
next
  case (passes b w1)
  then have enc: "w1 = w" "cd_Encode (sw_codec w) payload = Some b"
    using write_temp_cases [of payload w] by auto
  from passes(2) show ?thesis
  proof (cases rule: seqE_elim)
    case (fails e)
    then show ?thesis using rotate_cases [of w1] enc by auto
  next
    case (passes u w2)
    then have "untouched w w2 \<or> only_rotated w w2" "sw_codec w2 = sw_codec w"
      using rotate_cases [of w1] enc by auto
    then show ?thesis
      using activate_cases [OF passes(2), of w] enc(2) by auto
  qed
qed

lemma Write_cases:
  assumes "store_put w nxt = (r, w')"
  shows "sw_codec w' = sw_codec w
     \<and> (((\<exists>e. r = Inl e) \<and> (untouched w w' \<or> only_rotated w w'))
       \<or> (\<exists>payload b. installs w nxt payload b \<and> activated w b w'
            \<and> (r = Inr payload \<or> r = Inl (IOError OpSyncActivated))))"
proof -
  let ?w0 = "w\<lparr>sw_calls := sw_calls w + 1\<rparr>"
  let ?n = "next_generation nxt ?w0"
  have "(\<exists>e. r = Inl e \<and> w' = ?w0)
      \<or> (\<exists>payload. validateSemantic ?n = None \<and> withChecksum (sw_codec w) ?n = Inr payload
            \<and> install payload ?w0 = (r, w'))"
    using assms
    by (cases "withChecksum (sw_codec w) ?n")
      (auto simp: store_put_def Write_def sys_def proc_defs liftR_def split: if_splits option.splits,
        metis)
  then consider (early) e where "r = Inl e" "w' = ?w0"
    | (late) payload where "validateSemantic ?n = None" "withChecksum (sw_codec w) ?n = Inr payload"
        "install payload ?w0 = (r, w')"
    by blast
  then show ?thesis
  proof cases
    case early
    then show ?thesis by (simp add: untouched_def)
  next
    case late
    then show ?thesis
      using install_cases [OF late(3)]
      by (auto simp: installs_def untouched_def only_rotated_def activated_def)
  qed
qed

section \<open>Crash safety\<close>

lemma next_generation_content [simp]: "txn_content (next_generation nxt w) = txn_content nxt"
  by (simp add: next_generation_def txn_content_def Let_def split: sum.splits)

lemma next_generation_plain: "plain_txn nxt \<Longrightarrow> plain_txn (next_generation nxt w)"
  by (simp add: next_generation_def plain_txn_def Let_def in_int64_def Version_def)

lemma installs_readable:
  assumes "codec_ok (sw_codec w)" "plain_txn nxt" "installs w nxt payload b"
  shows "readAndValidate (sw_codec w) (Some b) = Inr payload" "txn_content payload = txn_content nxt"
proof -
  let ?n = "next_generation nxt (w\<lparr>sw_calls := sw_calls w + 1\<rparr>)"
  have i: "validateSemantic ?n = None" "withChecksum (sw_codec w) ?n = Inr payload"
      "cd_Encode (sw_codec w) payload = Some b"
    using assms(3) by (auto simp: installs_def Let_def)
  show "readAndValidate (sw_codec w) (Some b) = Inr payload"
    by (rule read_back [OF assms(1) next_generation_plain [OF assms(2)] i])
  show "txn_content payload = txn_content nxt"
    using withChecksum_content [OF i(2)] by simp
qed

lemma loaded_rotated:
  "readAndValidate cd (dk_current d) = Inr st \<Longrightarrow> loaded cd (rotated d) = loaded cd d"
  by (simp add: loaded_cases rotated_def readAndValidate_def)

text \<open>
  Every directory a write goes through, and the one it leaves, loads as the old directory did or as
  the new generation.
\<close>

lemma Write_seen:
  assumes "store_put w nxt = (r, w')" "store_valid w" "plain_txn nxt"
  shows "\<exists>ds. sw_seen w' = sw_seen w @ ds
    \<and> (\<forall>d \<in> insert (sw_disk w') (set ds). loaded (sw_codec w) d = loaded (sw_codec w) (sw_disk w)
         \<or> (\<exists>payload b. installs w nxt payload b \<and> loaded (sw_codec w) d = Some payload))"
proof -
  have cd: "codec_ok (sw_codec w)" using assms(2) by (simp add: store_valid_def)
  from Write_cases [OF assms(1)] consider
      (untouched) "untouched w w'"
    | (rotated) "only_rotated w w'"
    | (activated) payload b where "installs w nxt payload b" "activated w b w'"
    by blast
  then show ?thesis
  proof cases
    case untouched
    then show ?thesis by (simp add: untouched_def)
  next
    case rotated
    then show ?thesis using loaded_rotated by (fastforce simp: only_rotated_def)
  next
    case activated
    then have "loaded (sw_codec w) (d\<lparr>dk_current := Some b\<rparr>) = Some payload" for d
      using installs_readable(1) [OF cd assms(3)] by (simp add: loaded_cases)
    then show ?thesis
      using activated loaded_rotated
      by (fastforce simp: activated_def untouched_def only_rotated_def)
  qed
qed

interpretation store: state_writer store_put store_durable store_valid
proof
  fix w :: "'b store_world" and st st' w'
  assume a: "store_valid w" "plain_txn st" "store_put w st = (Inr st', w')"
  then obtain b where "installs w st st' b" "activated w b w'" "sw_codec w' = sw_codec w"
    using Write_cases [OF a(3)] by auto
  then show "store_durable w' = Some st' \<and> txn_content st' = txn_content st"
    using installs_readable [of w st st' b] a
    by (auto simp: store_durable_def loaded_cases activated_def store_valid_def)
next
  fix w :: "'b store_world" and st w' err
  assume a: "store_valid w" "plain_txn st" "store_put w st = (Inl err, w')"
  show "store_durable w' = store_durable w
        \<or> (\<exists>st'. store_durable w' = Some st' \<and> txn_content st' = txn_content st)"
  proof -
    have cd: "sw_codec w' = sw_codec w" using Write_cases [OF a(3)] by blast
    from Write_seen [OF a(3,1,2)] have "store_durable w' = store_durable w
        \<or> (\<exists>payload b. installs w st payload b \<and> store_durable w' = Some payload)"
      unfolding store_durable_def cd by blast
    then show ?thesis
      using installs_readable(2) [of w st] a(1,2) unfolding store_valid_def by blast
  qed
next
  fix w :: "'b store_world" and st
  assume "store_valid w"
  then show "store_valid (snd (store_put w st))"
  proof (cases "store_put w st")
    case (Pair r w')
    then show ?thesis
      using Write_cases [OF Pair] \<open>store_valid w\<close> by (simp add: store_valid_def)
  qed
qed

section \<open>Properties\<close>

text \<open>A codec for the witnesses: the file holds the state itself.\<close>

definition demo_codec :: "power_txn codec" where
  "demo_codec =
     \<lparr>cd_Marshal = (\<lambda>st. if encodable st then Some st else None),
      cd_Encode = (\<lambda>st. if encodable st then Some st else None),
      cd_Unmarshal = Some, cd_sha256_hex = (\<lambda>_. replicate 64 (CHR ''0''))\<rparr>"

definition demo_world :: "power_txn store_world" where
  "demo_world =
     \<lparr>sw_codec = demo_codec, sw_disk = \<lparr>dk_current = None, dk_previous = None\<rparr>, sw_seen = [],
      sw_fault = (\<lambda>_ _. False), sw_calls = 0\<rparr>"

lemma demo_codec_ok: "codec_ok demo_codec"
  by (auto simp: codec_ok_def demo_codec_def ascii_def)

lemma demo_plain: "plain_txn (New_State ''t'' ''r'')"
  by (simp add: plain_txn_def New_State_def in_int64_def Version_def ascii_def)

text \<open>
  Claim C9. A crash never loses the transaction: at every directory content a write goes through,
  whichever system calls fail, loading yields the generation that was loadable before or the new
  generation, which carries the same content as the state handed to \<^verbatim>\<open>Write\<close>.
\<close>

theorem write_is_crash_safe:
  assumes "codec_ok (sw_codec w)" "plain_txn nxt" "loaded (sw_codec w) (sw_disk w) = Some old"
    and "d \<in> insert (sw_disk (snd (Write nxt w))) (set (drop (length (sw_seen w)) (sw_seen (snd (Write nxt w)))))"
  shows "\<exists>st. loaded (sw_codec w) d = Some st \<and> (st = old \<or> txn_content st = txn_content nxt)"
proof (cases "store_put w nxt")
  case (Pair r w')
  then obtain ds where "sw_seen w' = sw_seen w @ ds"
    and "\<forall>d \<in> insert (sw_disk w') (set ds). loaded (sw_codec w) d = loaded (sw_codec w) (sw_disk w)
         \<or> (\<exists>payload b. installs w nxt payload b \<and> loaded (sw_codec w) d = Some payload)"
    using Write_seen [OF Pair] assms(1,2) by (auto simp: store_valid_def)
  moreover have "snd (Write nxt w) = w'" using Pair by (simp add: store_put_def)
  ultimately show ?thesis
    using assms(3,4) installs_readable(2) [OF assms(1,2)] by auto
qed

text \<open>
  Claim C10. What was written is what a restart loads: after a successful write, loading returns
  exactly the returned generation, from \<^verbatim>\<open>current.json\<close>; it is the state handed in with the next
  sequence number, and it is semantically valid.
\<close>

theorem write_then_load:
  assumes "codec_ok (sw_codec w)" "plain_txn nxt" "Write nxt w = (Inr st, w')"
  shows "Load (sw_codec w') (\<lambda>_. False) (sw_disk w') = Inr (st, SourceCurrent)
    \<and> txn_content st = txn_content nxt \<and> validateSemantic st = None
    \<and> st_Sequence st = (case Load (sw_codec w) (sw_fault w (sw_calls w + 1)) (sw_disk w) of
          Inl _ \<Rightarrow> 1 | Inr (old, _) \<Rightarrow> st_Sequence old + 1)"
proof -
  have p: "store_put w nxt = (Inr st, w')" using assms(3) by (simp add: store_put_def)
  obtain b where i: "installs w nxt st b" "activated w b w'" "sw_codec w' = sw_codec w"
    using Write_cases [OF p] by auto
  have r: "readAndValidate (sw_codec w) (Some b) = Inr st" "txn_content st = txn_content nxt"
    by (rule installs_readable [OF assms(1,2) i(1)])+
  have "st_Sequence st = st_Sequence (next_generation nxt (w\<lparr>sw_calls := sw_calls w + 1\<rparr>))"
    using i(1) withChecksum_plain(5) [OF assms(1) next_generation_plain [OF assms(2)]]
    by (auto simp: installs_def Let_def)
  then show ?thesis
    using r i(2,3) readAndValidate_sound [OF r(1)]
    by (auto simp: Load_def activated_def next_generation_def Let_def split: sum.splits)
qed

text \<open>
  A write goes through when it should: without system-call failures, an encodable state
  with a transaction id, a configuration revision, a host table and coherent recovery flags is
  accepted.
\<close>

theorem write_succeeds:
  assumes "codec_ok (sw_codec w)" "\<forall>op. \<not> sw_fault w (sw_calls w + 1) op" "encodable nxt"
    and "st_StateVersion nxt = 0 \<or> st_StateVersion nxt = Version"
    and "st_TransactionID nxt \<noteq> ''''" "st_ActiveConfigRevision nxt \<noteq> ''''" "st_Hosts nxt \<noteq> None"
    and "st_RecoveryStarted nxt \<longrightarrow> st_ShutdownCommitted nxt"
    and "st_PowerState nxt = RestoreHosts \<longrightarrow> st_RecoveryStarted nxt"
  shows "\<exists>st w'. Write nxt w = (Inr st, w')"
proof -
  let ?w0 = "w\<lparr>sw_calls := sw_calls w + 1\<rparr>"
  let ?n = "next_generation nxt ?w0"
  have v: "validateSemantic ?n = None"
    using assms(4-9) by (auto simp: next_generation_def Let_def validateSemantic_def Version_def)
  have e: "encodable (?n\<lparr>st_Checksum := c\<rparr>)" for c
    using assms(3) by (simp add: encodable_def next_generation_def Let_def)
  then obtain b where "cd_Marshal (sw_codec w) (?n\<lparr>st_Checksum := ''''\<rparr>) = Some b"
    using assms(1) unfolding codec_ok_def by blast
  then have c: "withChecksum (sw_codec w) ?n = Inr (?n\<lparr>st_Checksum := cd_sha256_hex (sw_codec w) b\<rparr>)"
    by (simp add: withChecksum_def checksum_def)
  obtain b' where b': "cd_Encode (sw_codec w) (?n\<lparr>st_Checksum := cd_sha256_hex (sw_codec w) b\<rparr>) = Some b'"
    using e assms(1) unfolding codec_ok_def by blast
  show ?thesis
    using assms(2) v c b'
    by (simp add: Write_def install_def write_temp_def rotate_def activate_def rename_to_def sys_def
        liftR_def proc_defs split: sum.split)
qed

definition demo_stored :: power_txn where
  "demo_stored = (New_State ''t'' ''r'')\<lparr>st_Checksum := replicate 64 (CHR ''0'')\<rparr>"

definition demo_faulty :: "power_txn store_world" where
  "demo_faulty = demo_world\<lparr>sw_disk := \<lparr>dk_current = Some demo_stored, dk_previous = None\<rparr>,
     sw_fault := (\<lambda>_ op. op = OpActivate)\<rparr>"

lemma demo_loaded: "loaded (sw_codec demo_faulty) (sw_disk demo_faulty) = Some demo_stored"
  by (simp add: demo_faulty_def demo_world_def demo_stored_def New_State_def loaded_cases
      readAndValidate_def validateSemantic_def checksum_def demo_codec_def Version_def encodable_def)

lemma demo_write: "\<exists>st w'. Write (New_State ''t'' ''r'') demo_world = (Inr st, w')"
  by (simp add: demo_world_def demo_codec_def New_State_def Write_def install_def write_temp_def
      rotate_def activate_def rename_to_def sys_def liftR_def proc_defs next_generation_def Load_def
      readAndValidate_def validateSemantic_def withChecksum_def checksum_def Version_def encodable_def
      Let_def)

theorem write_is_crash_safe_witness:
  "\<exists>st. loaded (sw_codec demo_faulty) (sw_disk (snd (Write (New_State ''t'' ''r'') demo_faulty))) = Some st
        \<and> (st = demo_stored \<or> txn_content st = txn_content (New_State ''t'' ''r''))"
  by (rule write_is_crash_safe [OF _ demo_plain demo_loaded])
    (simp_all add: demo_faulty_def demo_world_def demo_codec_ok)

theorem write_then_load_witness:
  "\<exists>st w'. Write (New_State ''t'' ''r'') demo_world = (Inr st, w')
     \<and> Load (sw_codec w') (\<lambda>_. False) (sw_disk w') = Inr (st, SourceCurrent)"
proof -
  obtain st w' where "Write (New_State ''t'' ''r'') demo_world = (Inr st, w')"
    using demo_write by blast
  then show ?thesis
    using write_then_load [OF _ demo_plain, of demo_world] by (auto simp: demo_world_def demo_codec_ok)
qed

theorem write_succeeds_witness: "\<exists>st w'. Write (New_State ''t'' ''r'') demo_world = (Inr st, w')"
  by (rule write_succeeds)
    (simp_all add: demo_world_def demo_codec_ok, simp_all add: New_State_def encodable_def)

end
