(* ===== verification/Coordinator.thy ===== *)
theory Coordinator
  imports Policy_Props State_Store
begin

text \<open>
  The coordinator of \<^verbatim>\<open>agent/internal/policy/coordinator.go\<close>: the policy engine coupled to a state
  writer. A changed decision is returned only after its state generation has been written; a failed
  write puts the old transaction back. The writer is an argument of the definitions; the locale
  \<open>coordinated\<close> proves what follows from the writer's contract, and that the coordinator is again a
  writer with the same contract.
\<close>

section \<open>Operations\<close>

record 'w coordinator =
  co_engine :: engine
  co_store :: 'w

datatype 'e coord_error = EngineFailed engine_error | WriteFailed 'e

type_synonym ('w, 'e) writer = "'w \<Rightarrow> power_txn \<Rightarrow> ('e + power_txn) \<times> 'w"

definition NewCoordinator :: "engine \<Rightarrow> 'w \<Rightarrow> 'w coordinator" where
  "NewCoordinator e w = \<lparr>co_engine = e, co_store = w\<rparr>"

definition Coordinator_State :: "'w coordinator \<Rightarrow> power_txn" where
  "Coordinator_State c = eng_st (co_engine c)"

definition set_st :: "power_txn \<Rightarrow> 'w coordinator \<Rightarrow> 'w coordinator" where
  "set_st st c = c\<lparr>co_engine := (co_engine c)\<lparr>eng_st := st\<rparr>\<rparr>"

definition ObserveUPS :: "ups_observation \<Rightarrow> 'w coordinator \<Rightarrow> 'w coordinator" where
  "ObserveUPS ob c = set_st ((Coordinator_State c)\<lparr>st_LastUPS := Some ob\<rparr>) c"

definition Coordinator_Write ::
  "('w, 'e) writer \<Rightarrow> power_txn \<Rightarrow> ('w coordinator, 'e coord_error, power_txn) proc" where
  "Coordinator_Write put nxt = (\<lambda>c.
     case put (co_store c) nxt of
       (Inl err, w') \<Rightarrow> (Inl (WriteFailed err), c\<lparr>co_store := w'\<rparr>)
     | (Inr persisted, w') \<Rightarrow> (Inr persisted, set_st persisted (c\<lparr>co_store := w'\<rparr>)))"

text \<open>
  The common tail of \<^verbatim>\<open>Step\<close>, \<^verbatim>\<open>MarkShutdownPhaseComplete\<close> and \<^verbatim>\<open>MarkRecoveryComplete\<close>: the engine has
  moved to \<open>e'\<close> with decision \<open>d\<close>; write it when it changed, and put \<open>before\<close> back when that
  fails.
\<close>

definition commit_decision ::
  "('w, 'e) writer \<Rightarrow> power_txn \<Rightarrow> decision \<Rightarrow> engine \<Rightarrow> ('w coordinator, 'e coord_error, decision) proc"
  where
  "commit_decision put before d e' = (\<lambda>c.
     if \<not> d_Changed d then (Inr d, c\<lparr>co_engine := e'\<rparr>)
     else
       (case put (co_store c) (eng_st e') of
          (Inl err, w') \<Rightarrow>
            (Inl (WriteFailed err), \<lparr>co_engine = e'\<lparr>eng_st := before\<rparr>, co_store = w'\<rparr>)
        | (Inr persisted, w') \<Rightarrow>
            (Inr d, \<lparr>co_engine = e'\<lparr>eng_st := persisted\<rparr>, co_store = w'\<rparr>)))"

definition Coordinator_Step ::
  "('w, 'e) writer \<Rightarrow> instant \<Rightarrow> inputs \<Rightarrow> ('w coordinator, 'e coord_error, decision) proc" where
  "Coordinator_Step put now inp = (\<lambda>c.
     let before = Coordinator_State c; (r, e') = Step now inp (co_engine c) in
     case r of
       Inl err \<Rightarrow> (Inl (EngineFailed err), c\<lparr>co_engine := e'\<rparr>)
     | Inr d \<Rightarrow> commit_decision put before d e' c)"

definition Coordinator_MarkShutdownPhaseComplete ::
  "('w, 'e) writer \<Rightarrow> ('w coordinator, 'e coord_error, decision) proc" where
  "Coordinator_MarkShutdownPhaseComplete put = (\<lambda>c.
     let before = Coordinator_State c; (d, e') = MarkShutdownPhaseComplete (co_engine c) in
     commit_decision put before d e' c)"

definition Coordinator_MarkRecoveryComplete ::
  "('w, 'e) writer \<Rightarrow> ('w coordinator, 'e coord_error, decision) proc" where
  "Coordinator_MarkRecoveryComplete put = (\<lambda>c.
     let before = Coordinator_State c; (d, e') = MarkRecoveryComplete (co_engine c) in
     commit_decision put before d e' c)"

lemma Coordinator_State_simps [simp]:
  "Coordinator_State (set_st st c) = st"
  "co_store (set_st st c) = co_store c"
  "Coordinator_State (c\<lparr>co_store := w\<rparr>) = Coordinator_State c"
  "co_engine (set_st st c) = (co_engine c)\<lparr>eng_st := st\<rparr>"
  by (simp_all add: Coordinator_State_def set_st_def)

section \<open>Consequences of the writer's contract\<close>

text \<open>
  Decisions the engine takes leave the plain text of the transaction plain: what it writes into it
  are its own constant reasons and elapsed seconds.
\<close>

locale coordinated = state_writer put durable valid
  for put :: "('w, 'e) writer" and durable valid
begin

lemma Write_success:
  assumes "valid (co_store c)" "plain_txn st" "Coordinator_Write put st c = (Inr st', c')"
  shows "durable (co_store c') = Some st'" "Coordinator_State c' = st'" "txn_content st' = txn_content st"
  using assms write_success [of "co_store c" st]
  by (auto simp: Coordinator_Write_def split: prod.splits sum.splits)

lemma Write_failure:
  assumes "Coordinator_Write put st c = (Inl e, c')"
  shows "co_engine c' = co_engine c"
  using assms by (auto simp: Coordinator_Write_def split: prod.splits sum.splits)

lemma commit_decision_changed:
  assumes "valid (co_store c)" "plain_txn (eng_st e')" "d_Changed d"
    and "commit_decision put before d e' c = (Inr d', c')"
  shows "d' = d" "durable (co_store c') = Some (Coordinator_State c')"
    "txn_content (Coordinator_State c') = txn_content (eng_st e')"
  using assms write_success [of "co_store c" "eng_st e'"]
  by (auto simp: commit_decision_def Coordinator_State_def split: prod.splits sum.splits)

lemma commit_decision_failed:
  assumes "commit_decision put before d e' c = (Inl err, c')"
  shows "Coordinator_State c' = before"
  using assms by (auto simp: commit_decision_def Coordinator_State_def split: prod.splits sum.splits if_splits)

end

text \<open>The coordinator is itself a writer with the same contract, its state being the pair.\<close>

sublocale coordinated \<subseteq> cw: state_writer
  "\<lambda>c st. Coordinator_Write put st c" "\<lambda>c. durable (co_store c)" "\<lambda>c. valid (co_store c)"
proof
  show "durable (co_store c') = Some st' \<and> txn_content st' = txn_content st"
    if "valid (co_store c)" "plain_txn st" "Coordinator_Write put st c = (Inr st', c')" for c st st' c'
    using Write_success [OF that] by simp
  show "durable (co_store c') = durable (co_store c)
        \<or> (\<exists>st'. durable (co_store c') = Some st' \<and> txn_content st' = txn_content st)"
    if "valid (co_store c)" "plain_txn st" "Coordinator_Write put st c = (Inl err, c')" for c st err c'
    using that write_failure [of "co_store c" st]
    by (auto simp: Coordinator_Write_def split: prod.splits sum.splits)
  show "valid (co_store (snd (Coordinator_Write put st c)))" if "valid (co_store c)" for c st
    using write_valid [OF that, of st]
    by (auto simp: Coordinator_Write_def split: prod.splits sum.splits)
qed

interpretation durable_policy: coordinated store_put store_durable store_valid
  by unfold_locales

section \<open>The engine writes plain text\<close>

lemma plain_txn_updates:
  "plain_txn st \<Longrightarrow> canonical_power ps \<Longrightarrow> ascii (power_state_name ps) \<Longrightarrow> plain_txn (st\<lparr>st_PowerState := ps\<rparr>)"
  "plain_txn (st\<lparr>st_ShutdownCommitted := b\<rparr>) = plain_txn st"
  "plain_txn (st\<lparr>st_RecoveryStarted := b\<rparr>) = plain_txn st"
  "plain_txn st \<Longrightarrow> in_int64 n \<Longrightarrow> plain_txn (st\<lparr>st_OutageElapsedSeconds := n\<rparr>)"
  "plain_txn st \<Longrightarrow> ascii r \<Longrightarrow> plain_txn (st\<lparr>st_FailedSafeReason := r\<rparr>)"
  by (simp_all add: plain_txn_def)

lemma ascii_names [simp]:
  "ascii (power_state_name BootReconcile)" "ascii (power_state_name Normal)"
  "ascii (power_state_name OnBattery)" "ascii (power_state_name ShutdownCommitted)"
  "ascii (power_state_name ShutdownInProgress)" "ascii (power_state_name WaitingForAC)"
  "ascii (power_state_name RecoveryWait)" "ascii (power_state_name RecoveryStarted)"
  "ascii (power_state_name RestoreHosts)" "ascii (power_state_name FailedSafe)"
  by (simp_all add: ascii_def)

declare power_state_name.simps [simp del]

lemma ascii_reasons [simp]:
  "ascii R_network_wait_expired" "ascii R_network_timeout" "ascii R_health_unsafe_recovery"
  "ascii R_health_unsafe_restoration"
  by (simp_all add: ascii_def R_network_wait_expired_def R_network_timeout_def
      R_health_unsafe_recovery_def R_health_unsafe_restoration_def)

lemma in_int64_zero [simp]: "in_int64 0" by (simp add: in_int64_def)

lemma go_div_Second_range: "- (2 ^ 63) \<le> x \<Longrightarrow> x < 2 ^ 63 \<Longrightarrow> in_int64 (go_div x Second)"
proof -
  assume "- (2 ^ 63) \<le> x" "x < 2 ^ 63"
  moreover have "\<bar>x\<bar> div 1000000000 \<le> \<bar>x\<bar>"
    by linarith
  moreover have "0 \<le> \<bar>x\<bar> div 1000000000" by simp
  ultimately show ?thesis
    by (cases x "0::int" rule: linorder_cases) (simp_all add: in_int64_def go_div_def Second_def)
qed


lemma recordOutageElapsed_plain:
  "plain_txn (eng_st e) \<Longrightarrow> plain_txn (eng_st (recordOutageElapsed (time_Sub now t) e))"
proof -
  have "in_int64 (go_div (time_Sub now t) Second)"
    by (rule go_div_Second_range) (use sat64_range in \<open>auto simp: time_Sub_def split: option.splits\<close>)
  then show "plain_txn (eng_st e) \<Longrightarrow> ?thesis"
    by (simp add: recordOutageElapsed_def Let_def plain_txn_updates)
qed

lemma stepOnBattery_plain:
  assumes "plain_txn (eng_st e)"
  shows "plain_txn (eng_st (snd (stepOnBattery now inp e)))"
proof -
  have commit: "plain_txn (eng_st (snd (commitShutdown r e')))" if "plain_txn (eng_st e')" for r e'
    using that by (simp add: commitShutdown_def plain_txn_updates)
  have check: "plain_txn (eng_st (snd (checkpointOutage now (time_Sub now t) r e')))"
    if "plain_txn (eng_st e')" for t r e'
    using that recordOutageElapsed_plain [OF that, of now t]
    by (simp add: checkpointOutage_def Let_def)
  have "plain_txn (eng_st (snd (outageTriggers now ups e')))" if "plain_txn (eng_st e')" for ups e'
    using that by (simp add: outageTriggers_def Let_def commit check recordOutageElapsed_plain)
  with assms show ?thesis
    by (simp add: stepOnBattery_def Let_def commit plain_txn_updates)
qed

lemma Step_plain:
  assumes "plain_txn (eng_st e)"
  shows "plain_txn (eng_st (snd (Step now inp e)))"
proof -
  have "plain_txn (eng_st (snd (reconcileBoot now inp e)))"
    using assms by (simp add: reconcileBoot_def Let_def plain_txn_updates)
  moreover have "plain_txn (eng_st (snd (stepRecoveryWait now inp e)))"
    using assms
    by (cases "eng_onlineSince e"; cases "eng_networkWaitSince e")
      (simp_all add: stepRecoveryWait_def Let_def failSafe_def plain_txn_updates)
  moreover have "plain_txn (eng_st (snd (stepRecoveryStarted now inp e)))"
    using assms
    by (cases "eng_networkWaitSince e")
      (simp_all add: stepRecoveryStarted_def Let_def failSafe_def plain_txn_updates)
  moreover have "plain_txn (eng_st (snd (stepRestoreHosts now inp e)))"
      "plain_txn (eng_st (snd (stepNormal now inp e)))"
      "plain_txn (eng_st (snd (stepWaitingForAC now inp e)))"
      "plain_txn (eng_st (snd (commitShutdown r e)))" for r
    using assms
    by (simp_all add: stepRestoreHosts_def stepNormal_def stepWaitingForAC_def commitShutdown_def
        Let_def failSafe_def plain_txn_updates)
  ultimately show ?thesis
    using assms stepOnBattery_plain [OF assms]
    by (simp add: Step_def plain_txn_updates split: power_state.split)
qed

lemma Mark_plain:
  assumes "plain_txn (eng_st e)"
  shows "plain_txn (eng_st (snd (MarkShutdownPhaseComplete e)))"
    "plain_txn (eng_st (snd (MarkRecoveryComplete e)))"
  using assms
  by (simp_all add: MarkShutdownPhaseComplete_def MarkRecoveryComplete_def plain_txn_updates)

text \<open>Only a changed decision carries an action.\<close>

definition act_changed :: "decision \<Rightarrow> bool" where
  "act_changed d \<longleftrightarrow> (d_Action d \<noteq> ActionNone \<longrightarrow> d_Changed d)"

lemma act_changed_parts [simp]:
  "act_changed (fst (commitShutdown r e))" "act_changed (fst (failSafe r e))"
  "act_changed (fst (checkpointOutage now t r e))"
  "act_changed \<lparr>d_Changed = True, d_Action = a, d_Reason = r\<rparr>"
  "act_changed \<lparr>d_Changed = b, d_Action = ActionNone, d_Reason = r\<rparr>"
  by (simp_all add: act_changed_def commitShutdown_def failSafe_def)

lemma act_changed_outage: "act_changed (fst (outageTriggers now ups e))"
  by (simp add: outageTriggers_def Let_def)

lemma act_changed_branches:
  "act_changed (fst (stepOnBattery now inp e))"
  "act_changed (fst (stepRecoveryWait now inp e))"
  "act_changed (fst (stepRecoveryStarted now inp e))"
  "act_changed (fst (stepRestoreHosts now inp e))"
  "act_changed (fst (stepNormal now inp e))"
  "act_changed (fst (stepWaitingForAC now inp e))"
  by (simp_all add: stepOnBattery_def stepRecoveryWait_def stepRecoveryStarted_def
      stepRestoreHosts_def stepNormal_def stepWaitingForAC_def act_changed_outage Let_def)

lemma act_changed_boot: "fst (reconcileBoot now inp e) = Inr d \<Longrightarrow> act_changed d"
  by (auto simp: reconcileBoot_def Let_def split: if_splits)

lemma Step_act_changed:
  assumes "fst (Step now inp e) = Inr d"
  shows "act_changed d"
  using assms act_changed_boot [of now inp e d]
  by (cases "st_PowerState (eng_st e)")
    (auto simp: Step_def act_changed_branches split: if_splits)

section \<open>Runs of the coordinator\<close>

text \<open>
  \<open>coord_run put cfg p h c\<close>: a coordinator created on the persisted transaction \<open>p\<close> has been
  used as the orchestrator and the armed runtime use it; \<open>h\<close> lists the observations it was
  stepped with.
\<close>

inductive coord_run ::
  "('w, 'e) writer \<Rightarrow> policy_config \<Rightarrow> power_txn \<Rightarrow> (instant \<times> inputs) list \<Rightarrow> 'w coordinator \<Rightarrow> bool"
  for put cfg p where
  create: "coord_run put cfg p [] (NewCoordinator (New_Engine cfg p) w)"
| step: "coord_run put cfg p h c \<Longrightarrow>
    coord_run put cfg p (h @ [(now, inp)]) (snd (Coordinator_Step put now inp c))"
| observe: "coord_run put cfg p h c \<Longrightarrow> coord_run put cfg p h (ObserveUPS ob c)"
| put_state: "coord_run put cfg p h c \<Longrightarrow> txn_rewrite (Coordinator_State c) st \<Longrightarrow>
    coord_run put cfg p h (snd (Coordinator_Write put st c))"
| shutdown_complete: "coord_run put cfg p h c \<Longrightarrow>
    coord_run put cfg p h (snd (Coordinator_MarkShutdownPhaseComplete put c))"
| recovery_complete: "coord_run put cfg p h c \<Longrightarrow>
    coord_run put cfg p h (snd (Coordinator_MarkRecoveryComplete put c))"

lemma txn_rewrite_content: "txn_content b = txn_content a \<Longrightarrow> txn_rewrite a b"
  by (simp add: txn_rewrite_def txn_contentD [of b a])

lemma txn_rewrite_content_right:
  "txn_rewrite a b \<Longrightarrow> txn_content c = txn_content b \<Longrightarrow> txn_rewrite a c"
  by (simp add: txn_rewrite_def txn_contentD [of c b])

text \<open>The engine inside a coordinator behaves as a run of the engine alone.\<close>

definition preserves_content :: "('w, 'e) writer \<Rightarrow> bool" where
  "preserves_content put \<longleftrightarrow> (\<forall>w st st' w'. put w st = (Inr st', w') \<longrightarrow> txn_content st' = txn_content st)"

lemma preserves_contentD:
  "preserves_content put \<Longrightarrow> put w st = (Inr st', w') \<Longrightarrow> txn_content st' = txn_content st"
  unfolding preserves_content_def by blast

lemma commit_decision_engine:
  assumes "preserves_content put"
  obtains (kept) "co_engine (snd (commit_decision put before d e' c)) = e'"
  | (written) st where "co_engine (snd (commit_decision put before d e' c)) = e'\<lparr>eng_st := st\<rparr>"
      "txn_rewrite (eng_st e') st"
  | (rolled_back) "co_engine (snd (commit_decision put before d e' c)) = e'\<lparr>eng_st := before\<rparr>"
proof (cases "d_Changed d")
  case False
  then show thesis using kept by (simp add: commit_decision_def)
next
  case True
  obtain r w' where p: "put (co_store c) (eng_st e') = (r, w')" by fastforce
  show thesis
  proof (cases r)
    case (Inl err)
    then show thesis using True p rolled_back by (simp add: commit_decision_def)
  next
    case (Inr st)
    then show thesis
      using True p by (intro written [of st])
        (simp_all add: commit_decision_def txn_rewrite_content preserves_contentD [OF assms])
  qed
qed

lemma MarkShutdown_rollback:
  "(snd (MarkShutdownPhaseComplete e))\<lparr>eng_st := eng_st e\<rparr> = e"
  by (simp add: MarkShutdownPhaseComplete_def)

lemma coord_run_engine:
  assumes "coord_run put cfg p h c" and put: "preserves_content put"
  shows "engine_run cfg p h (co_engine c)"
  using assms(1)
proof (induction rule: coord_run.induct)
  case (create w)
  then show ?case by (simp add: NewCoordinator_def engine_run.boot)
next
  case (step h c now inp)
  obtain r e' where s: "Step now inp (co_engine c) = (r, e')" by fastforce
  show ?case
  proof (cases r)
    case (Inl err)
    then show ?thesis
      using engine_run.sample [OF step.IH, of now inp] s by (simp add: Coordinator_Step_def)
  next
    case (Inr d)
    then have eq: "snd (Coordinator_Step put now inp c)
        = snd (commit_decision put (Coordinator_State c) d e' c)"
      using s by (simp add: Coordinator_Step_def)
    show ?thesis
      using engine_run.sample [OF step.IH, of now inp] engine_run.sample_unwritten [OF step.IH, of now inp]
        engine_run.rewrite s eq
      by (cases rule: commit_decision_engine [OF put, of "Coordinator_State c" d e' c])
        (auto simp: Coordinator_State_def)
  qed
next
  case (observe h c ob)
  then show ?case
    using engine_run.rewrite [of cfg p h "co_engine c"]
    by (simp add: ObserveUPS_def Coordinator_State_def txn_rewrite_def)
next
  case (put_state h c st)
  obtain r w' where p: "put (co_store c) st = (r, w')" by fastforce
  show ?case
  proof (cases r)
    case (Inl err)
    then show ?thesis using p put_state.IH by (simp add: Coordinator_Write_def)
  next
    case (Inr st')
    then have "txn_rewrite (eng_st (co_engine c)) st'"
      using txn_rewrite_content_right [OF put_state.hyps(2)] p preserves_contentD [OF put]
      by (simp add: Coordinator_State_def)
    from engine_run.rewrite [OF put_state.IH this] Inr p show ?thesis
      by (simp add: Coordinator_Write_def)
  qed
next
  case (shutdown_complete h c)
  obtain d e' where s: "MarkShutdownPhaseComplete (co_engine c) = (d, e')" by fastforce
  then have "e'\<lparr>eng_st := Coordinator_State c\<rparr> = co_engine c"
    using MarkShutdown_rollback [of "co_engine c"] by (simp add: Coordinator_State_def)
  then show ?case
    using engine_run.shutdown_done [OF shutdown_complete.IH] engine_run.rewrite s shutdown_complete.IH
    by (cases rule: commit_decision_engine [OF put, of "Coordinator_State c" d e' c])
      (auto simp: Coordinator_MarkShutdownPhaseComplete_def)
next
  case (recovery_complete h c)
  obtain d e' where s: "MarkRecoveryComplete (co_engine c) = (d, e')" by fastforce
  then show ?case
    using engine_run.recovery_done [OF recovery_complete.IH]
      engine_run.recovery_done_unwritten [OF recovery_complete.IH] engine_run.rewrite
    by (cases rule: commit_decision_engine [OF put, of "Coordinator_State c" d e' c])
      (auto simp: Coordinator_MarkRecoveryComplete_def Coordinator_State_def)
qed

lemma store_put_preserves_content: "preserves_content store_put"
proof -
  have "txn_content st' = txn_content st" if "store_put w st = (Inr st', w')"
    for w :: "'b store_world" and st st' w'
  proof -
    have "\<exists>b. installs w st st' b" using Write_cases [OF that] by auto
    then show ?thesis
      using withChecksum_content by (fastforce simp: installs_def Let_def)
  qed
  then show ?thesis by (auto simp: preserves_content_def)
qed

section \<open>Properties\<close>

lemma Coordinator_Step_Inr:
  assumes "Coordinator_Step put now inp c = (Inr d, c')"
  shows "fst (Step now inp (co_engine c)) = Inr d"
    and "commit_decision put (Coordinator_State c) d (snd (Step now inp (co_engine c))) c = (Inr d, c')"
  using assms
  by (auto simp: Coordinator_Step_def Let_def commit_decision_def split: prod.splits sum.splits if_splits)

text \<open>
  Claim C11. No action before its state is durable: when a coordinator step over the store returns
  a decision that changed something, in particular any decision with an action, a restart would
  load exactly the state the engine now holds, and that state is what the engine decided.
\<close>

theorem action_only_after_durable_write:
  assumes "codec_ok (sw_codec (co_store c))" "plain_txn (Coordinator_State c)"
    and "Coordinator_Step store_put now inp c = (Inr d, c')"
    and "d_Changed d \<or> d_Action d \<noteq> ActionNone"
  shows "store_durable (co_store c') = Some (Coordinator_State c')
    \<and> txn_content (Coordinator_State c') = txn_content (eng_st (snd (Step now inp (co_engine c))))
    \<and> d_Changed d"
proof -
  let ?e = "snd (Step now inp (co_engine c))"
  note s = Coordinator_Step_Inr [OF assms(3)]
  have "d_Changed d" using assms(4) Step_act_changed [OF s(1)] by (auto simp: act_changed_def)
  moreover have "plain_txn (eng_st ?e)"
    using assms(2) by (intro Step_plain) (simp add: Coordinator_State_def)
  ultimately show ?thesis
    using durable_policy.commit_decision_changed [OF _ _ _ s(2)] assms(1)
    by (simp add: store_valid_def)
qed

text \<open>
  Claim C12. A failed write changes nothing but timers: when a coordinator step over the store
  fails, the in-memory transaction is the one from before the step, and a restart loads the old
  generation or the one that was being written.
\<close>

theorem failed_step_rolls_back:
  assumes "codec_ok (sw_codec (co_store c))" "plain_txn (Coordinator_State c)"
    and "txn_inv (Coordinator_State c)" "Coordinator_Step store_put now inp c = (Inl err, c')"
  shows "Coordinator_State c' = Coordinator_State c
    \<and> (store_durable (co_store c') = store_durable (co_store c)
       \<or> (\<exists>st. store_durable (co_store c') = Some st
            \<and> txn_content st = txn_content (eng_st (snd (Step now inp (co_engine c))))))"
proof -
  let ?e = "snd (Step now inp (co_engine c))"
  obtain d where d: "fst (Step now inp (co_engine c)) = Inr d"
    using Step_never_fails [of "co_engine c" now inp] assms(3) by (auto simp: Coordinator_State_def)
  then have cd: "commit_decision store_put (Coordinator_State c) d ?e c = (Inl err, c')"
    using assms(4) by (auto simp: Coordinator_Step_def Let_def split: prod.splits sum.splits)
  have plain: "plain_txn (eng_st ?e)"
    using assms(2) by (intro Step_plain) (simp add: Coordinator_State_def)
  obtain er where "store_put (co_store c) (eng_st ?e) = (Inl er, co_store c')"
    using cd by (auto simp: commit_decision_def split: prod.splits sum.splits if_splits)
  then show ?thesis
    using store.write_failure [OF _ plain] assms(1) durable_policy.commit_decision_failed [OF cd]
    by (simp add: store_valid_def)
qed

text \<open>
  Claim C13. The coordinator refines the engine: whatever sequence of steps, observations, host
  updates and phase completions it is used for, with writes that succeed or fail, its engine is in
  a state the engine alone reaches on the same observations. The guarantees proved for runs of the
  engine therefore hold for the durable agent.
\<close>

theorem coordinator_refines_engine:
  assumes "coord_run store_put cfg p h c"
  shows "engine_run cfg p h (co_engine c)"
  by (rule coord_run_engine [OF assms store_put_preserves_content])

definition demo_coordinator :: "power_txn store_world coordinator" where
  "demo_coordinator = NewCoordinator (New_Engine demo_cfg (New_State ''t'' ''r'')) demo_world"

theorem coordinator_refines_engine_witness:
  "engine_run demo_cfg (New_State ''t'' ''r'') ([] @ [(0, demo_in UtilityOnline)])
     (co_engine (snd (Coordinator_Step store_put 0 (demo_in UtilityOnline) demo_coordinator)))"
  unfolding demo_coordinator_def
  by (intro coordinator_refines_engine coord_run.intros)

definition demo_normal :: "power_txn store_world \<Rightarrow> power_txn store_world coordinator" where
  "demo_normal w = NewCoordinator
     ((New_Engine demo_cfg (New_State ''t'' ''r''))\<lparr>eng_st := (New_State ''t'' ''r'')\<lparr>st_PowerState := Normal\<rparr>\<rparr>) w"

lemma demo_normal_state:
  "codec_ok (sw_codec (co_store (demo_normal demo_world)))"
  "codec_ok (sw_codec (co_store (demo_normal demo_faulty)))"
  "plain_txn (Coordinator_State (demo_normal w))" "txn_inv (Coordinator_State (demo_normal w))"
  by (simp_all add: demo_normal_def NewCoordinator_def demo_world_def demo_faulty_def demo_codec_ok
      Coordinator_State_def plain_txn_updates demo_plain)
    (simp_all add: New_State_def txn_inv_def)

lemmas store_eval =
  demo_world_def demo_codec_def New_State_def Write_def install_def write_temp_def
  rotate_def activate_def rename_to_def sys_def liftR_def proc_defs next_generation_def Load_def
  readAndValidate_def validateSemantic_def withChecksum_def checksum_def Version_def encodable_def
  Let_def

lemmas demo_coordinator_eval =
  demo_normal_def NewCoordinator_def Coordinator_Step_def Coordinator_State_def commit_decision_def
  store_put_def

theorem action_only_after_durable_write_witness:
  "\<exists>d c'. Coordinator_Step store_put 0 demo_fsd (demo_normal demo_world) = (Inr d, c')
     \<and> d_Action d = ActionCommitShutdown
     \<and> store_durable (co_store c') = Some (Coordinator_State c')"
proof -
  have "\<exists>c'. Coordinator_Step store_put 0 demo_fsd (demo_normal demo_world)
      = (Inr (changed ActionCommitShutdown R_fsd_observed), c')"
    by (simp add: demo_coordinator_eval demo_defs store_eval)
  then show ?thesis
    using action_only_after_durable_write [OF demo_normal_state(1,3), of 0 demo_fsd]
    by fastforce
qed

theorem failed_step_rolls_back_witness:
  "\<exists>err c'. Coordinator_Step store_put 0 demo_fsd (demo_normal demo_faulty) = (Inl err, c')
     \<and> Coordinator_State c' = Coordinator_State (demo_normal demo_faulty)"
proof -
  have "\<exists>c'. Coordinator_Step store_put 0 demo_fsd (demo_normal demo_faulty)
      = (Inl (WriteFailed (IOError OpActivate)), c')"
    by (simp add: demo_coordinator_eval demo_defs store_eval demo_faulty_def demo_stored_def)
  then show ?thesis
    using failed_step_rolls_back [OF demo_normal_state(2,3,4), of 0 demo_fsd] by blast
qed

end
