(* ===== verification/Config_Types.thy ===== *)
theory Config_Types
  imports Prelude
begin

text \<open>
  The canonical configuration of \<^verbatim>\<open>agent/internal/config/config.go\<close>: one record per struct. A pointer
  field is an option, a Go \<^verbatim>\<open>int\<close> an \<open>int\<close>.
\<close>

record status_config =
  sc_Method :: string
  sc_Port :: "int option"
  sc_TimeoutMS :: int
  sc_SuccessConsecutive :: int
  sc_ProbeIntervalSeconds :: int

record shutdown_config =
  sd_Method :: string
  sd_Priority :: int
  sd_TimeoutSeconds :: int
  sd_SSHUser :: "string option"
  sd_SSHKeyFile :: "string option"
  sd_CommandID :: "string option"

record wake_config =
  wk_Enabled :: bool
  wk_MAC :: "string option"
  wk_Interface :: "string option"
  wk_Broadcast :: "string option"
  wk_Port :: int
  wk_Priority :: int
  wk_DelayAfterPreviousSeconds :: int
  wk_MaxAttempts :: int

record host_config =
  hc_ID :: string
  hc_Name :: string
  hc_Address :: "string option"
  hc_DependsOn :: "string list"
  hc_Status :: status_config
  hc_Shutdown :: shutdown_config
  hc_Wake :: wake_config
  hc_RestorePolicy :: string

record dependency_config =
  dc_ID :: string
  dc_Name :: string
  dc_Address :: "string option"
  dc_Status :: status_config
  dc_Priority :: int
  dc_Startup :: string
  dc_Wake :: wake_config

record health_config =
  hl_Enabled :: bool
  hl_IntervalSeconds :: int
  hl_ProbationSeconds :: int
  hl_Autofix :: bool
  hl_MaxRepairAttempts :: int

record recovery_config =
  rc_Enabled :: bool
  rc_UtilityStableSeconds :: int
  rc_BatteryChargeMin :: "int option"
  rc_RuntimeMinSeconds :: "int option"
  rc_RechargeTimeSeconds :: "int option"
  rc_NetworkWaitSeconds :: int

record controller_config =
  cc_RequireUPSBackedPower :: bool
  cc_RequireAutoPowerOn :: bool

record outage_config =
  oc_GracePeriodSeconds :: int
  oc_MaxOnBatterySeconds :: "int option"
  oc_CriticalBatteryPercent :: "int option"
  oc_CriticalRuntimeSeconds :: "int option"
  oc_CommunicationLossGraceSeconds :: int

record synology_compatibility =
  sy_Enabled :: bool
  sy_Username :: string
  sy_Password :: string

record nut_network_config =
  nn_Mode :: string
  nn_ListenIPv4 :: bool
  nn_ListenIPv6 :: bool
  nn_AllowedClients :: "string list"

record nut_config =
  nc_Profile :: string
  nc_UPSName :: string
  nc_Host :: string
  nc_Port :: int
  nc_Driver :: "string option"
  nc_DriverPort :: "string option"
  nc_PowerCycleCapability :: string
  nc_Network :: nut_network_config
  nc_Synology :: synology_compatibility
  nc_HostSyncSeconds :: int
  nc_FinalDelaySeconds :: int

record config =
  cf_ConfigVersion :: int
  cf_Mode :: string
  cf_NUT :: nut_config
  cf_Outage :: outage_config
  cf_Controller :: controller_config
  cf_Recovery :: recovery_config
  cf_Health :: health_config
  cf_Dependencies :: "dependency_config list"
  cf_Hosts :: "host_config list"

end
