(* ===== verification/Host_Recovery.thy ===== *)
theory Host_Recovery
  imports Host_Plan Coordinator Config_Types
begin

text \<open>
  The world the orchestrator acts on, and the recovery executor of
  \<^verbatim>\<open>agent/internal/host/recovery.go\<close>. The prober, the shutdown executor, the FSD requester, the waker
  and the online checker are interfaces in the source; here they are functions on an environment of
  arbitrary type. Every shutdown, FSD and wake command is recorded together with the generation the
  state writer had last reported as persisted.
\<close>

section \<open>Environment, events, errors\<close>

record probe_result =
  pr_Known :: bool
  pr_Online :: bool

datatype shutdown_disposition = DirectRequested | ManagedByNUT | NotRequired

text \<open>A call may change the environment; its error is the text \<^verbatim>\<open>err.Error()\<close>.\<close>

type_synonym ('x, 'a) call = "'x \<Rightarrow> (string + 'a) \<times> 'x"

record 'x prober =
  pb_Check :: "host_config \<Rightarrow> ('x, probe_result) call"
  pb_Wait :: "host_config \<Rightarrow> bool \<Rightarrow> ('x, unit) call"

record 'x recovery_env =
  rv_Online :: "string \<Rightarrow> ('x, bool) call"
  rv_Wake :: "string \<Rightarrow> ('x, unit) call"

text \<open>
  The fields of \<^verbatim>\<open>Controller\<close> that never change: configuration and dependencies. An interface field is
  an option, \<open>None\<close> for nil. The writer is the store below the coordinator.
\<close>

record ('w, 'x, 'e) ctl_deps =
  su_Config :: config
  su_put :: "('w, 'e) writer"
  su_Probe :: "'x prober option"
  su_Shutdown :: "(host_config \<Rightarrow> ('x, shutdown_disposition) call) option"
  su_FSD :: "(string \<Rightarrow> string \<Rightarrow> ('x, unit) call) option"
  su_Recovery :: "'x recovery_env option"
  su_UPSMonConfPath :: string
  su_NewTransactionID :: "('x \<Rightarrow> string \<times> 'x) option"

datatype event =
    EvShutdown string "power_txn option"
  | EvFSD string "power_txn option"
  | EvWake string "power_txn option"

record ('w, 'x) controller =
  ct_policy :: "'w coordinator"
  ct_env :: 'x
  ct_lastRecoveryWakeAt :: gtime
  ct_lastRecoveryWakeHostID :: string
  ct_resumeWakeDelayEvaluated :: bool
  ct_nutFSDTransactionID :: string
  ct_nutFSDNextAttempt :: gtime
  ct_persisted :: "power_txn option"
  ct_trace :: "event list"

datatype 'e ctl_error =
    RetryPending
  | DirectFailedSafe
  | PolicyFailed "'e coord_error"
  | Message string
  | CycleDetected
  | Joined "'e ctl_error list"

type_synonym ('w, 'x, 'e, 'a) ctl = "(('w, 'x) controller, 'e ctl_error, 'a) proc"

definition ctl_state :: "('w, 'x) controller \<Rightarrow> power_txn" where
  "ctl_state c = Coordinator_State (ct_policy c)"

definition ask :: "('x, 'a) call \<Rightarrow> ('w, 'x, 'e, string + 'a) ctl" where
  "ask f = (\<lambda>c. let (r, x') = f (ct_env c) in (Inr r, c\<lparr>ct_env := x'\<rparr>))"

definition record_event :: "(power_txn option \<Rightarrow> event) \<Rightarrow> ('w, 'x, 'e, unit) ctl" where
  "record_event ev = modifyS (\<lambda>c. c\<lparr>ct_trace := ct_trace c @ [ev (ct_persisted c)]\<rparr>)"

text \<open>\<^verbatim>\<open>c.Policy.Write\<close>, and the operations of the coordinator that return a decision.\<close>

definition policy_write :: "('w, 'x, 'e) ctl_deps \<Rightarrow> power_txn \<Rightarrow> ('w, 'x, 'e, power_txn) ctl" where
  "policy_write su st = (\<lambda>c.
     case Coordinator_Write (su_put su) st (ct_policy c) of
       (Inl e, p) \<Rightarrow> (Inl (PolicyFailed e), c\<lparr>ct_policy := p\<rparr>)
     | (Inr st', p) \<Rightarrow> (Inr st', c\<lparr>ct_policy := p, ct_persisted := Some st'\<rparr>))"

definition policy_decide ::
  "('w coordinator, 'e coord_error, decision) proc \<Rightarrow> ('w, 'x, 'e, decision) ctl" where
  "policy_decide m = (\<lambda>c.
     case m (ct_policy c) of
       (Inl e, p) \<Rightarrow> (Inl (PolicyFailed e), c\<lparr>ct_policy := p\<rparr>)
     | (Inr d, p) \<Rightarrow>
         (Inr d, c\<lparr>ct_policy := p,
                    ct_persisted := (if d_Changed d then Some (Coordinator_State p) else ct_persisted c)\<rparr>))"

text \<open>
  Assigning to an element of a map that the engine's transaction shares: the host table of the
  in-memory transaction changes without a write.
\<close>

definition alias_hosts :: "host_map \<Rightarrow> ('w, 'x, 'e, unit) ctl" where
  "alias_hosts m = modifyS (\<lambda>c. c\<lparr>ct_policy :=
     set_st ((Coordinator_State (ct_policy c))\<lparr>st_Hosts := Some m\<rparr>) (ct_policy c)\<rparr>)"

section \<open>Choosing the next host\<close>

definition cfg_by_id :: "host_cfg list \<Rightarrow> cfg_map" where
  "cfg_by_id hosts = fold (\<lambda>h m. fmupd (hp_ID h) h m) hosts fmempty"

definition dep_ready :: "cfg_map \<Rightarrow> host_map \<Rightarrow> string \<Rightarrow> bool" where
  "dep_ready byID states dep =
     (case fmlookup byID dep of
        None \<Rightarrow> True
      | Some dcfg \<Rightarrow>
          (case fmlookup states dep of
             None \<Rightarrow> True
           | Some ds \<Rightarrow> \<not> (EligibleForRestore dcfg ds \<and> hs_RecoveryState ds \<noteq> RecoveryOnline)))"

fun first_ready :: "cfg_map \<Rightarrow> host_map \<Rightarrow> string list \<Rightarrow> host_cfg option" where
  "first_ready byID states [] = None"
| "first_ready byID states (hid # plan) =
     (let hs = lookup_host states hid; cfg = cfg_at byID hid in
      if hs_RecoveryState hs = RecoveryOnline \<or> hs_RecoveryState hs = RecoveryNotRequired
         \<or> hs_RecoveryState hs = RecoveryFailed
      then first_ready byID states plan
      else if list_all (dep_ready byID states) (hp_DependsOn cfg) then Some cfg
      else first_ready byID states plan)"

text \<open>\<open>Inl\<close> is the dependency-cycle error; \<open>None\<close> means no host is ready.\<close>

definition NextRecoveryHost :: "host_cfg list \<Rightarrow> host_map \<Rightarrow> unit + host_cfg option" where
  "NextRecoveryHost hosts states =
     (case BuildRecoveryPlan hosts states of
        None \<Rightarrow> Inl ()
      | Some plan \<Rightarrow> Inr (first_ready (cfg_by_id hosts) states plan))"

section \<open>Running one recovery step\<close>

definition effective_max_attempts :: "host_cfg \<Rightarrow> int" where
  "effective_max_attempts cfg = (if hp_WakeMaxAttempts cfg \<le> 0 then 5 else hp_WakeMaxAttempts cfg)"

definition wake_action_id :: "string \<Rightarrow> string \<Rightarrow> int \<Rightarrow> string" where
  "wake_action_id tx hid n = ''wake:'' @ tx @ '':'' @ hid @ '':'' @ itoa n"

definition M_max_wake :: string where
  "M_max_wake = ''maximum wake attempts reached''"

definition V_online :: string where "V_online = ''online''"
definition V_offline :: string where "V_offline = ''offline''"
definition V_unknown :: string where "V_unknown = ''unknown''"

definition err_text :: "string + 'a \<Rightarrow> string" where
  "err_text r = (case r of Inl e \<Rightarrow> e | Inr _ \<Rightarrow> '''')"

text \<open>
  The tail of \<^verbatim>\<open>RunNext\<close> after the wake attempt is durable: send the packet; a failure is noted in the
  host's entry, first in the table the engine shares and then in a further generation.
\<close>

definition wake_host ::
  "('w, 'x, 'e) ctl_deps \<Rightarrow> 'x recovery_env \<Rightarrow> string \<Rightarrow> power_txn
     \<Rightarrow> ('w, 'x, 'e, string \<times> 'e ctl_error option) ctl" where
  "wake_host su rv hid persisted =
     seqE (record_event (EvWake hid)) (\<lambda>_.
     seqE (ask (rv_Wake rv hid)) (\<lambda>r.
     case r of
       Inr _ \<Rightarrow> return (hid, None)
     | Inl msg \<Rightarrow>
         (let hs = (lookup_host (hosts_of persisted) hid)\<lparr>hs_LastError := msg\<rparr>;
              persisted' = put_host hid hs persisted
          in seqE (alias_hosts (hosts_of persisted')) (\<lambda>_.
             tryE (policy_write su persisted')
               (\<lambda>e. return (hid, Some e))
               (\<lambda>updated. return (hid, Some (Message msg)))))))"

text \<open>
  \<^verbatim>\<open>RunNext\<close> returns a host identifier and an error, which does not abort the caller by itself; the
  state it also returns is dropped by its only caller and left out. Its argument \<open>st\<close> owns its host
  table (the caller clones it).
\<close>

definition RunNext ::
  "('w, 'x, 'e) ctl_deps \<Rightarrow> 'x recovery_env \<Rightarrow> power_txn \<Rightarrow> host_cfg list
     \<Rightarrow> ('w, 'x, 'e, string \<times> 'e ctl_error option) ctl" where
  "RunNext su rv st hosts =
     (case NextRecoveryHost hosts (hosts_of st) of
        Inl _ \<Rightarrow> return ('''', Some CycleDetected)
      | Inr None \<Rightarrow> return ('''', None)
      | Inr (Some cfg) \<Rightarrow>
          (let hid = hp_ID cfg; hs = lookup_host (hosts_of st) hid in
           seqE (ask (rv_Online rv hid)) (\<lambda>online.
           if online = Inr True then
             tryE (policy_write su
                     (put_host hid (hs\<lparr>hs_RecoveryState := RecoveryOnline, hs_LastVerification := V_online\<rparr>) st))
               (\<lambda>e. return (hid, Some e))
               (\<lambda>persisted. return (hid, None))
           else if hs_WakeAttempts hs \<ge> effective_max_attempts cfg then
             tryE (policy_write su
                     (put_host hid (hs\<lparr>hs_RecoveryState := RecoveryFailed, hs_LastError := M_max_wake\<rparr>) st))
               (\<lambda>e. return (hid, Some e))
               (\<lambda>persisted. return (hid, Some (Message (''host '' @ hid @ '': '' @ M_max_wake))))
           else
             (let n = hs_WakeAttempts hs + 1;
                  hs' = hs\<lparr>hs_WakeAttempts := n, hs_RecoveryState := RecoveryWOLSent,
                           hs_LastActionID := wake_action_id (st_TransactionID st) hid n,
                           hs_LastVerification := V_offline, hs_LastError := err_text online\<rparr>
              in tryE (policy_write su (put_host hid hs' st))
                   (\<lambda>e. return (hid, Some e))
                   (\<lambda>persisted. wake_host su rv hid persisted)))))"

end
