(* ===== verification/Orchestrator.thy ===== *)
theory Orchestrator
  imports Host_Recovery
begin

text \<open>
  The controller of \<^verbatim>\<open>agent/internal/orchestrator/controller.go\<close>: it steps the policy, opens an outage
  by recording which hosts were online, drives the shutdown of the fleet (direct hosts first, then
  the NUT group through FSD), and restores hosts one at a time. One definition per method; the order
  of durable writes and external commands is that of the code.
\<close>

section \<open>Helpers\<close>

definition maxDirectShutdownAttempts :: int where "maxDirectShutdownAttempts = 3"
definition maxNUTFSDShutdownAttempts :: int where "maxNUTFSDShutdownAttempts = 6"

definition cloneState :: "power_txn \<Rightarrow> power_txn" where
  "cloneState st = st\<lparr>st_Hosts := Some (hosts_of st)\<rparr>"

definition toHostConfig :: "host_config \<Rightarrow> host_cfg" where
  "toHostConfig h =
     \<lparr>hp_ID = hc_ID h, hp_ShutdownMethod = sd_Method (hc_Shutdown h),
      hp_ShutdownPriority = sd_Priority (hc_Shutdown h), hp_WakeEnabled = wk_Enabled (hc_Wake h),
      hp_WakePriority = wk_Priority (hc_Wake h), hp_WakeMaxAttempts = wk_MaxAttempts (hc_Wake h),
      hp_WakeDelayAfterPreviousSeconds = wk_DelayAfterPreviousSeconds (hc_Wake h),
      hp_WakeMAC = (case wk_MAC (hc_Wake h) of None \<Rightarrow> '''' | Some s \<Rightarrow> s),
      hp_WakeInterface = (case wk_Interface (hc_Wake h) of None \<Rightarrow> '''' | Some s \<Rightarrow> s),
      hp_WakeBroadcast = (case wk_Broadcast (hc_Wake h) of None \<Rightarrow> '''' | Some s \<Rightarrow> s),
      hp_WakePort = wk_Port (hc_Wake h), hp_RestorePolicy = hc_RestorePolicy h,
      hp_DependsOn = hc_DependsOn h\<rparr>"

definition toHostConfigs :: "host_config list \<Rightarrow> host_cfg list" where
  "toHostConfigs hosts = map toHostConfig hosts"

definition zero_host_config :: host_config where
  "zero_host_config =
     \<lparr>hc_ID = '''', hc_Name = '''', hc_Address = None, hc_DependsOn = [],
      hc_Status = \<lparr>sc_Method = '''', sc_Port = None, sc_TimeoutMS = 0, sc_SuccessConsecutive = 0,
                   sc_ProbeIntervalSeconds = 0\<rparr>,
      hc_Shutdown = \<lparr>sd_Method = '''', sd_Priority = 0, sd_TimeoutSeconds = 0, sd_SSHUser = None,
                     sd_SSHKeyFile = None, sd_CommandID = None\<rparr>,
      hc_Wake = \<lparr>wk_Enabled = False, wk_MAC = None, wk_Interface = None, wk_Broadcast = None,
                 wk_Port = 0, wk_Priority = 0, wk_DelayAfterPreviousSeconds = 0, wk_MaxAttempts = 0\<rparr>,
      hc_RestorePolicy = ''''\<rparr>"

text \<open>\<^verbatim>\<open>byID\<close>: the last host with an identifier wins, a missing one reads as the zero value.\<close>

definition host_by_id :: "host_config list \<Rightarrow> string \<Rightarrow> host_config" where
  "host_by_id hosts hid =
     (case fmlookup (fold (\<lambda>h m. fmupd (hc_ID h) h m) hosts fmempty) hid of
        None \<Rightarrow> zero_host_config | Some h \<Rightarrow> h)"

definition probeable :: "host_config \<Rightarrow> bool" where
  "probeable h \<longleftrightarrow> hc_Address h \<noteq> None \<and> sc_Method (hc_Status h) \<noteq> ''none''"

definition ctl_host :: "string \<Rightarrow> ('w, 'x) controller \<Rightarrow> host_state" where
  "ctl_host hid c = lookup_host (hosts_of (ctl_state c)) hid"

definition persistHost :: "('w, 'x, 'e) ctl_deps \<Rightarrow> string \<Rightarrow> host_state \<Rightarrow> ('w, 'x, 'e, unit) ctl" where
  "persistHost su hid hs =
     seqE (getS ctl_state) (\<lambda>st.
     seqE (policy_write su (put_host hid hs (cloneState st))) (\<lambda>_. return ()))"

definition M_previously_exhausted :: string where
  "M_previously_exhausted = ''direct shutdown previously exhausted retries''"
definition M_cannot_reconcile :: string where
  "M_cannot_reconcile = ''cannot reconcile prior shutdown without status probe''"
definition M_probe_unknown :: string where
  "M_probe_unknown = ''shutdown state probe returned unknown''"
definition M_still_online :: string where
  "M_still_online = ''direct shutdown exhausted 3 attempts while host is still online''"
definition M_exhausted :: "string \<Rightarrow> string" where
  "M_exhausted err = ''direct shutdown exhausted 3 attempts: '' @ err"
definition M_fsd_exhausted :: string where
  "M_fsd_exhausted =
     ''NUT FSD exhausted 6 attempts; native upsmon low-battery shutdown remains the fallback''"
definition M_dependency_failed :: "string \<Rightarrow> string" where
  "M_dependency_failed dep = ''managed recovery dependency failed: '' @ dep"
definition M_failed_safe :: "string \<Rightarrow> string \<Rightarrow> string" where
  "M_failed_safe hid reason = ''host '' @ hid @ '': '' @ reason"
definition shutdown_action_id :: "string \<Rightarrow> string \<Rightarrow> int \<Rightarrow> string" where
  "shutdown_action_id tx hid n = ''shutdown:'' @ tx @ '':'' @ hid @ '':'' @ itoa n"
definition fsd_action_id :: "string \<Rightarrow> string \<Rightarrow> int \<Rightarrow> string" where
  "fsd_action_id tx hid n = ''fsd:'' @ tx @ '':'' @ hid @ '':'' @ itoa n"
definition resume_marker :: string where
  "resume_marker = ''__resume__''"

section \<open>Opening an outage\<close>

definition initial_shutdown_state :: "host_config \<Rightarrow> shutdown_state" where
  "initial_shutdown_state h =
     (if sd_Method (hc_Shutdown h) = ''none'' then ShutdownNotRequired else ShutdownPlanned)"

definition initial_recovery_state :: "host_config \<Rightarrow> recovery_state" where
  "initial_recovery_state h =
     (if \<not> wk_Enabled (hc_Wake h) \<or> hc_RestorePolicy h = ''never'' then RecoveryNotRequired
      else RecoveryWaiting)"

text \<open>What a probe says about a host at the start of an outage.\<close>

definition snapshot_host :: "bool \<Rightarrow> (string + probe_result) option \<Rightarrow> host_state \<Rightarrow> host_state" where
  "snapshot_host offlineKnown probe hs =
     (case probe of
        None \<Rightarrow> hs\<lparr>hs_WasOnline := None, hs_LastVerification := V_unknown\<rparr>
      | Some (Inl err) \<Rightarrow>
          hs\<lparr>hs_WasOnline := None, hs_LastVerification := V_unknown, hs_LastError := err\<rparr>
      | Some (Inr res) \<Rightarrow>
          (if pr_Known res \<and> pr_Online res
           then hs\<lparr>hs_WasOnline := Some True, hs_LastVerification := V_online\<rparr>
           else if pr_Known res \<and> offlineKnown
           then hs\<lparr>hs_WasOnline := Some False, hs_LastVerification := V_offline\<rparr>
           else hs\<lparr>hs_WasOnline := None, hs_LastVerification := V_unknown\<rparr>))"

fun snapshot_loop ::
  "'x prober \<Rightarrow> bool \<Rightarrow> host_config list \<Rightarrow> power_txn \<Rightarrow> ('w, 'x, 'e, power_txn) ctl" where
  "snapshot_loop pb offlineKnown [] st = return st"
| "snapshot_loop pb offlineKnown (h # hosts) st =
     (if fmlookup (hosts_of st) (hc_ID h) \<noteq> None \<and> hs_WasOnline (lookup_host (hosts_of st) (hc_ID h)) \<noteq> None
      then snapshot_loop pb offlineKnown hosts st
      else
        (let hs = (lookup_host (hosts_of st) (hc_ID h))\<lparr>hs_ShutdownState := initial_shutdown_state h,
                      hs_RecoveryState := initial_recovery_state h\<rparr>
         in if \<not> probeable h
            then snapshot_loop pb offlineKnown hosts (put_host (hc_ID h) (snapshot_host offlineKnown None hs) st)
            else
              seqE (ask (pb_Check pb h)) (\<lambda>r.
              snapshot_loop pb offlineKnown hosts
                (put_host (hc_ID h) (snapshot_host offlineKnown (Some r) hs) st))))"

definition snapshotHosts :: "('w, 'x, 'e) ctl_deps \<Rightarrow> bool \<Rightarrow> ('w, 'x, 'e, unit) ctl" where
  "snapshotHosts su offlineKnown =
     (case su_Probe su of
        None \<Rightarrow> throw (Message ''host prober is required'')
      | Some pb \<Rightarrow>
          seqE (getS ctl_state) (\<lambda>st.
          seqE (snapshot_loop pb offlineKnown (cf_Hosts (su_Config su)) (cloneState st)) (\<lambda>st'.
          seqE (policy_write su st') (\<lambda>_. return ()))))"

definition resetRecoveryWakeDelay :: "('w, 'x, 'e, unit) ctl" where
  "resetRecoveryWakeDelay = modifyS (\<lambda>c.
     c\<lparr>ct_lastRecoveryWakeAt := None, ct_lastRecoveryWakeHostID := '''',
       ct_resumeWakeDelayEvaluated := False\<rparr>)"

definition fresh_outage :: "power_txn \<Rightarrow> power_txn" where
  "fresh_outage st = st\<lparr>st_Hosts := Some fmempty, st_ShutdownCommitted := False,
     st_RecoveryStarted := False, st_FailedSafeReason := ''''\<rparr>"

definition draw :: "('x \<Rightarrow> string \<times> 'x) \<Rightarrow> ('w, 'x, 'e, string) ctl" where
  "draw gen = (\<lambda>c. let (tid, x') = gen (ct_env c) in (Inr tid, c\<lparr>ct_env := x'\<rparr>))"

definition beginFreshOutage :: "('w, 'x, 'e) ctl_deps \<Rightarrow> ('w, 'x, 'e, unit) ctl" where
  "beginFreshOutage su =
     seqE resetRecoveryWakeDelay (\<lambda>_.
     seqE (getS ctl_state) (\<lambda>st.
     seqE (case su_NewTransactionID su of
             None \<Rightarrow> return (cloneState st)
           | Some gen \<Rightarrow>
               seqE (draw gen) (\<lambda>tid.
               if tid = '''' then throw (Message ''new transaction id is empty'')
               else return ((cloneState st)\<lparr>st_ParentTransactionID := st_TransactionID st,
                                            st_TransactionID := tid\<rparr>))) (\<lambda>st'.
     seqE (policy_write su (fresh_outage st')) (\<lambda>_.
     snapshotHosts su True))))"

section \<open>Direct hosts\<close>

definition enterShutdownFailedSafe ::
  "('w, 'x, 'e) ctl_deps \<Rightarrow> string \<Rightarrow> host_state \<Rightarrow> string \<Rightarrow> ('w, 'x, 'e, unit) ctl" where
  "enterShutdownFailedSafe su hid hs reason =
     seqE (getS ctl_state) (\<lambda>st.
     seqE (policy_write su
             ((put_host hid (hs\<lparr>hs_ShutdownState := ShutdownFailed, hs_LastError := reason\<rparr>) (cloneState st))
                \<lparr>st_PowerState := FailedSafe, st_FailedSafeReason := M_failed_safe hid reason\<rparr>)) (\<lambda>_.
     return ()))"

text \<open>The end of \<^verbatim>\<open>settleDirect\<close>: wait until the host is observed offline.\<close>

definition await_offline ::
  "('w, 'x, 'e) ctl_deps \<Rightarrow> 'x prober \<Rightarrow> host_config \<Rightarrow> ('w, 'x, 'e, unit) ctl" where
  "await_offline su pb h =
     (if \<not> probeable h then return ()
      else
        seqE (ask (pb_Wait pb h False)) (\<lambda>r.
        seqE (getS (ctl_host (hc_ID h))) (\<lambda>hs.
        case r of
          Inl err \<Rightarrow>
            seqE (persistHost su (hc_ID h) (hs\<lparr>hs_ShutdownState := ShutdownUnknown,
                    hs_LastError := err, hs_LastVerification := V_unknown\<rparr>)) (\<lambda>_.
            throw RetryPending)
        | Inr _ \<Rightarrow>
            persistHost su (hc_ID h) (hs\<lparr>hs_ShutdownState := ShutdownCompleted,
              hs_LastError := '''', hs_LastVerification := V_offline\<rparr>))))"

text \<open>What the result of the shutdown command leads to.\<close>

definition direct_result ::
  "('w, 'x, 'e) ctl_deps \<Rightarrow> 'x prober \<Rightarrow> host_config \<Rightarrow> string + shutdown_disposition \<Rightarrow> ('w, 'x, 'e, unit) ctl"
  where
  "direct_result su pb h r =
     (let hid = hc_ID h in
      seqE (getS (ctl_host hid)) (\<lambda>hs.
      case r of
        Inl err \<Rightarrow>
          (if hs_ShutdownAttempts hs \<ge> maxDirectShutdownAttempts then
             seqE (enterShutdownFailedSafe su hid (hs\<lparr>hs_LastError := err\<rparr>) (M_exhausted err)) (\<lambda>_.
             throw DirectFailedSafe)
           else
             seqE (persistHost su hid (hs\<lparr>hs_LastError := err, hs_ShutdownState := ShutdownUnknown\<rparr>)) (\<lambda>_.
             throw RetryPending))
      | Inr NotRequired \<Rightarrow> persistHost su hid (hs\<lparr>hs_ShutdownState := ShutdownNotRequired\<rparr>)
      | Inr ManagedByNUT \<Rightarrow>
          throw (Message (''pre-FSD host '' @ hid @ '' unexpectedly delegated to NUT''))
      | Inr DirectRequested \<Rightarrow>
          seqE (persistHost su hid (hs\<lparr>hs_ShutdownState := ShutdownAcknowledged\<rparr>)) (\<lambda>_.
          await_offline su pb h)))"

text \<open>One more attempt, durable before the command is sent.\<close>

definition attempt_direct ::
  "('w, 'x, 'e) ctl_deps \<Rightarrow> 'x prober \<Rightarrow> (host_config \<Rightarrow> ('x, shutdown_disposition) call)
     \<Rightarrow> host_config \<Rightarrow> string \<Rightarrow> host_state \<Rightarrow> ('w, 'x, 'e, unit) ctl" where
  "attempt_direct su pb sd h tx hs =
     (let hid = hc_ID h in
      if hs_ShutdownAttempts hs \<ge> maxDirectShutdownAttempts then
        seqE (enterShutdownFailedSafe su hid hs M_still_online) (\<lambda>_. throw DirectFailedSafe)
      else
        (let n = hs_ShutdownAttempts hs + 1 in
         seqE (persistHost su hid (hs\<lparr>hs_ShutdownAttempts := n, hs_ShutdownState := ShutdownRequested,
                 hs_LastActionID := shutdown_action_id tx hid n, hs_LastError := ''''\<rparr>)) (\<lambda>_.
         seqE (record_event (EvShutdown hid)) (\<lambda>_.
         seqE (ask (sd h)) (direct_result su pb h)))))"

text \<open>A host with an earlier request of unknown outcome is probed before anything else is done.\<close>

definition reconcile_direct ::
  "('w, 'x, 'e) ctl_deps \<Rightarrow> 'x prober \<Rightarrow> (host_config \<Rightarrow> ('x, shutdown_disposition) call)
     \<Rightarrow> host_config \<Rightarrow> string \<Rightarrow> host_state \<Rightarrow> ('w, 'x, 'e, unit) ctl" where
  "reconcile_direct su pb sd h tx hs =
     (let hid = hc_ID h in
      if \<not> probeable h then
        seqE (persistHost su hid (hs\<lparr>hs_ShutdownState := ShutdownUnknown,
                hs_LastError := M_cannot_reconcile\<rparr>)) (\<lambda>_. throw RetryPending)
      else
        seqE (ask (pb_Check pb h)) (\<lambda>r.
        case r of
          Inl err \<Rightarrow>
            seqE (persistHost su hid (hs\<lparr>hs_ShutdownState := ShutdownUnknown, hs_LastError := err\<rparr>)) (\<lambda>_.
            throw RetryPending)
        | Inr res \<Rightarrow>
            (if \<not> pr_Known res then
               seqE (persistHost su hid (hs\<lparr>hs_ShutdownState := ShutdownUnknown,
                       hs_LastError := M_probe_unknown\<rparr>)) (\<lambda>_. throw RetryPending)
             else if \<not> pr_Online res then
               persistHost su hid (hs\<lparr>hs_ShutdownState := ShutdownCompleted,
                 hs_LastVerification := V_offline, hs_LastError := ''''\<rparr>)
             else attempt_direct su pb sd h tx hs)))"

definition settleDirect ::
  "('w, 'x, 'e) ctl_deps \<Rightarrow> 'x prober \<Rightarrow> (host_config \<Rightarrow> ('x, shutdown_disposition) call)
     \<Rightarrow> host_config \<Rightarrow> ('w, 'x, 'e, unit) ctl" where
  "settleDirect su pb sd h =
     seqE (getS ctl_state) (\<lambda>st.
     let hid = hc_ID h; hs = lookup_host (hosts_of st) hid; tx = st_TransactionID st in
     if hs_ShutdownState hs = ShutdownCompleted \<or> hs_ShutdownState hs = ShutdownNotRequired
     then return ()
     else if hs_ShutdownState hs = ShutdownFailed then
       seqE (enterShutdownFailedSafe su hid hs M_previously_exhausted) (\<lambda>_. throw DirectFailedSafe)
     else if hs_ShutdownState hs = ShutdownRequested \<or> hs_ShutdownState hs = ShutdownAcknowledged
             \<or> hs_ShutdownState hs = ShutdownUnknown
     then reconcile_direct su pb sd h tx hs
     else attempt_direct su pb sd h tx hs)"

section \<open>The NUT group\<close>

definition prepareNUTGroup ::
  "('w, 'x, 'e) ctl_deps \<Rightarrow> 'x prober \<Rightarrow> string list \<Rightarrow> ('w, 'x, 'e, unit) ctl" where
  "prepareNUTGroup su pb ids =
     forE ids (\<lambda>hid.
       seqE (getS (ctl_host hid)) (\<lambda>hs.
       let h = host_by_id (cf_Hosts (su_Config su)) hid in
       if hs_ShutdownState hs = ShutdownCompleted \<or> \<not> probeable h then return ()
       else
         seqE (ask (pb_Check pb h)) (\<lambda>r.
         case r of
           Inl _ \<Rightarrow> return ()
         | Inr res \<Rightarrow>
             (if pr_Known res \<and> \<not> pr_Online res
              then persistHost su hid (hs\<lparr>hs_ShutdownState := ShutdownCompleted,
                     hs_LastVerification := V_offline\<rparr>)
              else return ()))))"

definition raise_joined :: "('w, 'x, 'e, 'e ctl_error list) ctl \<Rightarrow> ('w, 'x, 'e, unit) ctl" where
  "raise_joined m = seqE m (\<lambda>errs. if errs = [] then return () else throw (Joined errs))"

definition markNUTRequested :: "('w, 'x, 'e) ctl_deps \<Rightarrow> string list \<Rightarrow> ('w, 'x, 'e, unit) ctl" where
  "markNUTRequested su ids =
     raise_joined (forJoin ids (\<lambda>hid.
       seqE (getS ctl_state) (\<lambda>st.
       let hs = lookup_host (hosts_of st) hid; n = hs_ShutdownAttempts hs + 1 in
       if hs_ShutdownState hs = ShutdownCompleted then return ()
       else persistHost su hid (hs\<lparr>hs_ShutdownAttempts := n, hs_ShutdownState := ShutdownRequested,
              hs_LastActionID := fsd_action_id (st_TransactionID st) hid n, hs_LastError := ''''\<rparr>))))"

definition markNUTAcknowledged :: "('w, 'x, 'e) ctl_deps \<Rightarrow> string list \<Rightarrow> ('w, 'x, 'e, unit) ctl" where
  "markNUTAcknowledged su ids =
     raise_joined (forJoin ids (\<lambda>hid.
       seqE (getS (ctl_host hid)) (\<lambda>hs.
       if hs_ShutdownState hs \<noteq> ShutdownRequested then return ()
       else persistHost su hid (hs\<lparr>hs_ShutdownState := ShutdownAcknowledged, hs_LastError := ''''\<rparr>))))"

definition markNUTError :: "('w, 'x, 'e) ctl_deps \<Rightarrow> string list \<Rightarrow> string \<Rightarrow> ('w, 'x, 'e, unit) ctl" where
  "markNUTError su ids cause =
     raise_joined (forJoin ids (\<lambda>hid.
       seqE (getS (ctl_host hid)) (\<lambda>hs.
       if hs_ShutdownState hs = ShutdownCompleted then return ()
       else persistHost su hid (hs\<lparr>hs_ShutdownState := ShutdownUnknown, hs_LastError := cause\<rparr>))))"

definition verifyNUTGroup ::
  "('w, 'x, 'e) ctl_deps \<Rightarrow> 'x prober \<Rightarrow> string list \<Rightarrow> ('w, 'x, 'e, unit) ctl" where
  "verifyNUTGroup su pb ids =
     raise_joined (forJoin ids (\<lambda>hid.
       seqE (getS (ctl_host hid)) (\<lambda>hs.
       let h = host_by_id (cf_Hosts (su_Config su)) hid in
       if hs_ShutdownState hs = ShutdownCompleted \<or> \<not> probeable h then return ()
       else
         seqE (ask (pb_Wait pb h False)) (\<lambda>r.
         seqE (getS (ctl_host hid)) (\<lambda>hs.
         case r of
           Inl err \<Rightarrow>
             persistHost su hid (hs\<lparr>hs_ShutdownState := ShutdownUnknown, hs_LastError := err,
               hs_LastVerification := V_unknown\<rparr>)
         | Inr _ \<Rightarrow>
             persistHost su hid (hs\<lparr>hs_ShutdownState := ShutdownCompleted, hs_LastError := '''',
               hs_LastVerification := V_offline\<rparr>))))))"

definition maxNUTAttempts :: "string list \<Rightarrow> ('w, 'x) controller \<Rightarrow> int" where
  "maxNUTAttempts ids c = fold (\<lambda>hid n. max n (hs_ShutdownAttempts (ctl_host hid c))) ids 0"

definition enterNUTGroupFailedSafe ::
  "('w, 'x, 'e) ctl_deps \<Rightarrow> string list \<Rightarrow> string \<Rightarrow> ('w, 'x, 'e, unit) ctl" where
  "enterNUTGroupFailedSafe su ids reason =
     seqE (getS ctl_state) (\<lambda>st.
     seqE (policy_write su
       ((fold (\<lambda>hid st. let hs = lookup_host (hosts_of st) hid in
                 if hs_ShutdownState hs = ShutdownCompleted then st
                 else put_host hid (hs\<lparr>hs_ShutdownState := ShutdownFailed, hs_LastError := reason\<rparr>) st)
              ids (cloneState st))
          \<lparr>st_PowerState := FailedSafe, st_FailedSafeReason := reason\<rparr>)) (\<lambda>_.
     return ()))"

definition shouldAttemptNUTFSD :: "instant \<Rightarrow> string \<Rightarrow> ('w, 'x, 'e, bool) ctl" where
  "shouldAttemptNUTFSD now tx =
     seqE (modifyS (\<lambda>c. if ct_nutFSDTransactionID c \<noteq> tx
                        then c\<lparr>ct_nutFSDTransactionID := tx, ct_nutFSDNextAttempt := None\<rparr> else c)) (\<lambda>_.
     getS (\<lambda>c. ct_nutFSDNextAttempt c = None \<or> \<not> time_Before now (ct_nutFSDNextAttempt c)))"

text \<open>The doubling loop, at most \<open>n\<close> times and while below a minute, and its cap.\<close>

fun double_below_minute :: "nat \<Rightarrow> duration \<Rightarrow> duration" where
  "double_below_minute 0 d = d"
| "double_below_minute (Suc n) d = (if d < Minute then double_below_minute n (d * 2) else d)"

definition retry_delay :: "int \<Rightarrow> duration" where
  "retry_delay attempt = min Minute (double_below_minute (nat (attempt - 1)) (5 * Second))"

definition scheduleNUTFSDRetry :: "instant \<Rightarrow> string \<Rightarrow> int \<Rightarrow> ('w, 'x, 'e, unit) ctl" where
  "scheduleNUTFSDRetry now tx attempt = modifyS (\<lambda>c.
     c\<lparr>ct_nutFSDTransactionID := tx, ct_nutFSDNextAttempt := time_Add now (retry_delay attempt)\<rparr>)"

definition clearNUTFSDRetry :: "string \<Rightarrow> ('w, 'x, 'e, unit) ctl" where
  "clearNUTFSDRetry tx = modifyS (\<lambda>c. c\<lparr>ct_nutFSDTransactionID := tx, ct_nutFSDNextAttempt := None\<rparr>)"

definition upsmonPath :: "('w, 'x, 'e) ctl_deps \<Rightarrow> string" where
  "upsmonPath su = (if su_UPSMonConfPath su \<noteq> '''' then su_UPSMonConfPath su else ''/etc/nut/upsmon.conf'')"

section \<open>Shutting the fleet down\<close>

text \<open>The loop over the direct hosts; the sentinel errors end the phase quietly (\<open>False\<close>).\<close>

fun settle_all ::
  "('w, 'x, 'e) ctl_deps \<Rightarrow> 'x prober \<Rightarrow> (host_config \<Rightarrow> ('x, shutdown_disposition) call)
     \<Rightarrow> string list \<Rightarrow> ('w, 'x, 'e, bool) ctl" where
  "settle_all su pb sd [] = return True"
| "settle_all su pb sd (hid # ids) =
     tryE (settleDirect su pb sd (host_by_id (cf_Hosts (su_Config su)) hid))
       (\<lambda>e. if e = RetryPending \<or> e = DirectFailedSafe then return False else throw e)
       (\<lambda>_. settle_all su pb sd ids)"

definition phase_complete :: "('w, 'x, 'e) ctl_deps \<Rightarrow> ('w, 'x, 'e, unit) ctl" where
  "phase_complete su =
     seqE (policy_decide (Coordinator_MarkShutdownPhaseComplete (su_put su))) (\<lambda>_. return ())"

text \<open>
  The request itself, once it is due: mark the group, send FSD, then acknowledge and verify or note
  the failure and schedule a retry.
\<close>

definition request_group_fsd ::
  "('w, 'x, 'e) ctl_deps \<Rightarrow> 'x prober \<Rightarrow> (string \<Rightarrow> string \<Rightarrow> ('x, unit) call) \<Rightarrow> instant \<Rightarrow> string list
     \<Rightarrow> string \<Rightarrow> int \<Rightarrow> ('w, 'x, 'e, unit) ctl" where
  "request_group_fsd su pb fsd now ids tx attempt =
     (let ups = nc_UPSName (cf_NUT (su_Config su)) in
      seqE (markNUTRequested su ids) (\<lambda>_.
      seqE (record_event (EvFSD ups)) (\<lambda>_.
      seqE (ask (fsd ups (upsmonPath su))) (\<lambda>r.
      case r of
        Inl err \<Rightarrow>
          tryE (markNUTError su ids err)
            (\<lambda>e. throw (Joined [Message err, e]))
            (\<lambda>_. scheduleNUTFSDRetry now tx attempt)
      | Inr _ \<Rightarrow>
          seqE (clearNUTFSDRetry tx) (\<lambda>_.
          seqE (markNUTAcknowledged su ids) (\<lambda>_.
          seqE (verifyNUTGroup su pb ids) (\<lambda>_.
          phase_complete su)))))))"

definition shutdown_nut_group ::
  "('w, 'x, 'e) ctl_deps \<Rightarrow> 'x prober \<Rightarrow> instant \<Rightarrow> string list \<Rightarrow> ('w, 'x, 'e, unit) ctl" where
  "shutdown_nut_group su pb now ids =
     (case su_FSD su of
        None \<Rightarrow> throw (Message ''FSD requester is required for NUT-managed hosts'')
      | Some fsd \<Rightarrow>
          (if nc_Profile (cf_NUT (su_Config su)) = ''remote-client''
           then throw (Message ''remote-client profile cannot request FSD'')
           else
             seqE (prepareNUTGroup su pb ids) (\<lambda>_.
             seqE (getS (maxNUTAttempts ids)) (\<lambda>attempts.
             if attempts \<ge> maxNUTFSDShutdownAttempts
             then enterNUTGroupFailedSafe su ids M_fsd_exhausted
             else
               seqE (getS ctl_state) (\<lambda>st.
               seqE (shouldAttemptNUTFSD now (st_TransactionID st)) (\<lambda>due.
               if \<not> due then return ()
               else request_group_fsd su pb fsd now ids (st_TransactionID st) (attempts + 1)))))))"

definition executeShutdown :: "('w, 'x, 'e) ctl_deps \<Rightarrow> instant \<Rightarrow> ('w, 'x, 'e, unit) ctl" where
  "executeShutdown su now =
     (case (su_Probe su, su_Shutdown su) of
        (Some pb, Some sd) \<Rightarrow>
          (let plan = BuildShutdownPlan (toHostConfigs (cf_Hosts (su_Config su))) in
           seqE (settle_all su pb sd (sp_PreFSD plan)) (\<lambda>settled.
           if \<not> settled then return ()
           else if sp_NUTGroup plan \<noteq> [] then shutdown_nut_group su pb now (sp_NUTGroup plan)
           else phase_complete su))
      | _ \<Rightarrow> throw (Message ''shutdown dependencies are required''))"

section \<open>Restoring hosts\<close>

definition recovery_terminal :: "recovery_state \<Rightarrow> bool" where
  "recovery_terminal r \<longleftrightarrow> r = RecoveryOnline \<or> r = RecoveryFailed \<or> r = RecoveryNotRequired"

definition recoverySettled :: "host_cfg list \<Rightarrow> host_map \<Rightarrow> bool" where
  "recoverySettled hosts states =
     list_all (\<lambda>h. case fmlookup states (hp_ID h) of
         None \<Rightarrow> True
       | Some hs \<Rightarrow> EligibleForRestore h hs \<longrightarrow> recovery_terminal (hs_RecoveryState hs)) hosts"

text \<open>The first dependency that is managed, eligible and failed.\<close>

definition failed_dependency :: "cfg_map \<Rightarrow> host_map \<Rightarrow> string list \<Rightarrow> string option" where
  "failed_dependency byID states deps =
     List.find (\<lambda>dep. case fmlookup byID dep of
         None \<Rightarrow> False
       | Some dcfg \<Rightarrow>
           EligibleForRestore dcfg (lookup_host states dep)
           \<and> hs_RecoveryState (lookup_host states dep) = RecoveryFailed) deps"

fun mark_blocked :: "cfg_map \<Rightarrow> host_cfg list \<Rightarrow> host_map \<Rightarrow> bool \<Rightarrow> host_map \<times> bool" where
  "mark_blocked byID [] states chg = (states, chg)"
| "mark_blocked byID (h # hosts) states chg =
     (let hs = lookup_host states (hp_ID h) in
      if \<not> EligibleForRestore h hs \<or> hs_RecoveryState hs = RecoveryOnline
         \<or> hs_RecoveryState hs = RecoveryFailed
      then mark_blocked byID hosts states chg
      else
        (case failed_dependency byID states (hp_DependsOn h) of
           None \<Rightarrow> mark_blocked byID hosts states chg
         | Some dep \<Rightarrow>
             mark_blocked byID hosts
               (fmupd (hp_ID h) (hs\<lparr>hs_RecoveryState := RecoveryFailed,
                                   hs_LastError := M_dependency_failed dep\<rparr>) states) True))"

definition markBlockedRecovery :: "host_cfg list \<Rightarrow> host_map \<Rightarrow> host_map \<times> bool" where
  "markBlockedRecovery hosts states = mark_blocked (cfg_by_id hosts) hosts states False"

definition recoveryHasPriorWake :: "host_map \<Rightarrow> bool" where
  "recoveryHasPriorWake states =
     fBex (fmdom states) (\<lambda>hid. let hs = lookup_host states hid in
       hs_WakeAttempts hs > 0 \<or> hs_RecoveryState hs = RecoveryWOLSent
       \<or> hs_RecoveryState hs = RecoveryOnline)"

definition recovery_complete :: "('w, 'x, 'e) ctl_deps \<Rightarrow> ('w, 'x, 'e, unit) ctl" where
  "recovery_complete su =
     seqE resetRecoveryWakeDelay (\<lambda>_.
     seqE (policy_decide (Coordinator_MarkRecoveryComplete (su_put su))) (\<lambda>_. return ()))"

text \<open>
  The delay between wakes of different hosts: whether the next host must wait at this tick. The
  first tick after a start that finds earlier wakes starts a full delay.
\<close>

definition wake_delayed :: "instant \<Rightarrow> host_cfg \<Rightarrow> host_map \<Rightarrow> ('w, 'x, 'e, bool) ctl" where
  "wake_delayed now nxt states =
     (let delay = seconds (hp_WakeDelayAfterPreviousSeconds nxt) in
      seqE (getS id) (\<lambda>c.
      seqE (modifyS (\<lambda>c. c\<lparr>ct_resumeWakeDelayEvaluated := True\<rparr>)) (\<lambda>_.
      if \<not> ct_resumeWakeDelayEvaluated c \<and> recoveryHasPriorWake states \<and> delay > 0 then
        seqE (modifyS (\<lambda>c. c\<lparr>ct_lastRecoveryWakeAt := Some now,
                             ct_lastRecoveryWakeHostID := resume_marker\<rparr>)) (\<lambda>_. return True)
      else
        return (delay > 0 \<and> ct_lastRecoveryWakeAt c \<noteq> None
                \<and> hp_ID nxt \<noteq> ct_lastRecoveryWakeHostID c
                \<and> time_Sub now (ct_lastRecoveryWakeAt c) < delay))))"

text \<open>The call of \<^verbatim>\<open>RunNext\<close> and what follows it.\<close>

definition run_recovery ::
  "('w, 'x, 'e) ctl_deps \<Rightarrow> 'x recovery_env \<Rightarrow> instant \<Rightarrow> host_cfg list \<Rightarrow> power_txn \<Rightarrow> int
     \<Rightarrow> ('w, 'x, 'e, unit) ctl" where
  "run_recovery su rv now hosts st beforeAttempts =
     seqE (RunNext su rv (cloneState st) hosts) (\<lambda>(hid, err).
     seqE (modifyS (\<lambda>c.
             if hid \<noteq> '''' \<and> hs_WakeAttempts (ctl_host hid c) > beforeAttempts
             then c\<lparr>ct_lastRecoveryWakeAt := Some now, ct_lastRecoveryWakeHostID := hid\<rparr> else c)) (\<lambda>_.
     case err of
       Some e \<Rightarrow> if hid \<noteq> '''' then return () else throw e
     | None \<Rightarrow>
         seqE (getS ctl_state) (\<lambda>st.
         if hid = '''' \<and> recoverySettled hosts (hosts_of st) then recovery_complete su
         else return ())))"

text \<open>The step once blocked hosts are marked: finish, wait, or run the next host.\<close>

definition continue_recovery ::
  "('w, 'x, 'e) ctl_deps \<Rightarrow> 'x recovery_env \<Rightarrow> instant \<Rightarrow> host_cfg list \<Rightarrow> power_txn \<Rightarrow> ('w, 'x, 'e, unit) ctl"
  where
  "continue_recovery su rv now hosts st =
     (if recoverySettled hosts (hosts_of st) then recovery_complete su
      else
        (case NextRecoveryHost hosts (hosts_of st) of
           Inl _ \<Rightarrow> throw CycleDetected
         | Inr None \<Rightarrow> run_recovery su rv now hosts st 0
         | Inr (Some nxt) \<Rightarrow>
             seqE (wake_delayed now nxt (hosts_of st)) (\<lambda>delayed.
             if delayed then return ()
             else run_recovery su rv now hosts st
                    (hs_WakeAttempts (lookup_host (hosts_of st) (hp_ID nxt))))))"

definition executeRecoveryStep :: "('w, 'x, 'e) ctl_deps \<Rightarrow> instant \<Rightarrow> ('w, 'x, 'e, unit) ctl" where
  "executeRecoveryStep su now =
     (case su_Recovery su of
        None \<Rightarrow> throw (Message ''recovery runner is required'')
      | Some rv \<Rightarrow>
          (let hosts = toHostConfigs (cf_Hosts (su_Config su)) in
           seqE (getS ctl_state) (\<lambda>st0.
           case markBlockedRecovery hosts (hosts_of st0) of
             (states, blocked) \<Rightarrow>
               if blocked then
                 seqE (alias_hosts states) (\<lambda>_.
                 seqE (policy_write su (st0\<lparr>st_Hosts := Some states\<rparr>)) (\<lambda>_.
                 seqE (getS ctl_state) (\<lambda>st.
                 continue_recovery su rv now hosts st)))
               else continue_recovery su rv now hosts st0)))"

section \<open>One tick\<close>

definition policy_step :: "('w, 'x, 'e) ctl_deps \<Rightarrow> instant \<Rightarrow> inputs \<Rightarrow> ('w, 'x, 'e, decision) ctl" where
  "policy_step su now inp = policy_decide (Coordinator_Step (su_put su) now inp)"

text \<open>What follows the action of a decision: the work of the phase the transaction is in.\<close>

definition tick_phase :: "('w, 'x, 'e) ctl_deps \<Rightarrow> instant \<Rightarrow> decision \<Rightarrow> ('w, 'x, 'e, decision) ctl" where
  "tick_phase su now d =
     seqE (seqE (getS ctl_state) (\<lambda>st.
           if st_PowerState st = ShutdownInProgress \<and> d_Action d = ActionNone
           then executeShutdown su now else return ())) (\<lambda>_.
     seqE (seqE (getS ctl_state) (\<lambda>st.
           if st_PowerState st = RestoreHosts \<and> d_Action d = ActionNone
           then executeRecoveryStep su now else return ())) (\<lambda>_.
     return d))"

definition Tick :: "('w, 'x, 'e) ctl_deps \<Rightarrow> instant \<Rightarrow> inputs \<Rightarrow> ('w, 'x, 'e, decision) ctl" where
  "Tick su now inp =
     seqE (getS (\<lambda>c. st_PowerState (ctl_state c))) (\<lambda>before.
     seqE (policy_step su now inp) (\<lambda>d.
     seqE (getS (\<lambda>c. st_PowerState (ctl_state c))) (\<lambda>after.
     seqE (if before = Normal \<and> after = OnBattery then beginFreshOutage su
           else if before = BootReconcile \<and> after = OnBattery then snapshotHosts su False
           else return ()) (\<lambda>_.
     case d_Action d of
       ActionCommitShutdown \<Rightarrow>
         seqE (policy_step su now inp) (\<lambda>_.
         seqE (executeShutdown su now) (\<lambda>_. tick_phase su now d))
     | ActionStartRestore \<Rightarrow>
         seqE (executeRecoveryStep su now) (\<lambda>_. tick_phase su now d)
     | ActionStopRecovery \<Rightarrow>
         seqE (getS (\<lambda>c. st_PowerState (ctl_state c))) (\<lambda>ps.
         seqE (if ps = OnBattery then beginFreshOutage su else return ()) (\<lambda>_.
         return d))
     | _ \<Rightarrow> tick_phase su now d))))"

end
