(* ===== verification/Shutdown_Order.thy ===== *)
theory Shutdown_Order
  imports Orchestrator
begin

text \<open>
  What the orchestrator may send and when: the commands a persisted generation authorizes, and the
  proof that the shutdown phase sends no other, operation by operation, over any state writer that
  keeps the content of what it is given.
\<close>

section \<open>Rules for the controller's primitives\<close>

lemma wp_ask: "(\<And>r x'. Q r (c\<lparr>ct_env := x'\<rparr>)) \<Longrightarrow> wp (ask f) Q E c"
  by (simp add: wp_def ask_def Let_def split: prod.split)

lemma wp_draw: "(\<And>tid x'. Q tid (c\<lparr>ct_env := x'\<rparr>)) \<Longrightarrow> wp (draw gen) Q E c"
  by (simp add: wp_def draw_def Let_def split: prod.split)

lemma wp_record_event [simp]:
  "wp (record_event ev) Q E = (\<lambda>c. Q () (c\<lparr>ct_trace := ct_trace c @ [ev (ct_persisted c)]\<rparr>))"
  by (simp add: record_event_def)

lemma wp_policy_write:
  assumes "preserves_content (su_put su)"
    and "\<And>st' p. txn_content st' = txn_content st \<Longrightarrow> Coordinator_State p = st' \<Longrightarrow>
           Q st' (c\<lparr>ct_policy := p, ct_persisted := Some st'\<rparr>)"
    and "\<And>e p. co_engine p = co_engine (ct_policy c) \<Longrightarrow> E (PolicyFailed e) (c\<lparr>ct_policy := p\<rparr>)"
  shows "wp (policy_write su st) Q E c"
proof (cases "su_put su (co_store (ct_policy c)) st")
  case (Pair r w')
  show ?thesis
  proof (cases r)
    case (Inl e)
    then show ?thesis
      using Pair assms(3) [of "(ct_policy c)\<lparr>co_store := w'\<rparr>" "WriteFailed e"]
      by (simp add: wp_def policy_write_def Coordinator_Write_def)
  next
    case (Inr st')
    then show ?thesis
      using Pair assms(2) [of st' "set_st st' ((ct_policy c)\<lparr>co_store := w'\<rparr>)"]
        preserves_contentD [OF assms(1)]
      by (simp add: wp_def policy_write_def Coordinator_Write_def)
  qed
qed

lemma ctl_state_simps [simp]:
  "ctl_state (c\<lparr>ct_env := x\<rparr>) = ctl_state c"
  "ctl_state (c\<lparr>ct_trace := t\<rparr>) = ctl_state c"
  "ctl_state (c\<lparr>ct_persisted := p\<rparr>) = ctl_state c"
  "ctl_state (c\<lparr>ct_policy := q\<rparr>) = Coordinator_State q"
  "ctl_state (c\<lparr>ct_policy := q, ct_persisted := p\<rparr>) = Coordinator_State q"
  "ctl_state (c\<lparr>ct_nutFSDTransactionID := tx\<rparr>) = ctl_state c"
  "ctl_state (c\<lparr>ct_nutFSDNextAttempt := g\<rparr>) = ctl_state c"
  "ctl_state (c\<lparr>ct_lastRecoveryWakeAt := g\<rparr>) = ctl_state c"
  "ctl_state (c\<lparr>ct_lastRecoveryWakeHostID := tx\<rparr>) = ctl_state c"
  "ctl_state (c\<lparr>ct_resumeWakeDelayEvaluated := b\<rparr>) = ctl_state c"
  by (simp_all add: ctl_state_def)

section \<open>What is allowed\<close>

definition resolved :: "host_state \<Rightarrow> bool" where
  "resolved hs \<longleftrightarrow> hs_ShutdownState hs \<in> {ShutdownCompleted, ShutdownNotRequired, ShutdownAcknowledged}"

definition ctl_plan :: "('w, 'x, 'e) ctl_deps \<Rightarrow> shutdown_plan" where
  "ctl_plan su = BuildShutdownPlan (toHostConfigs (cf_Hosts (su_Config su)))"

definition shutting_down :: "power_txn \<Rightarrow> bool" where
  "shutting_down st \<longleftrightarrow> st_PowerState st = ShutdownInProgress \<and> st_ShutdownCommitted st"

text \<open>
  \<open>allowed su ev\<close>: the generation persisted when the command was sent authorizes it.
\<close>

fun allowed :: "('w, 'x, 'e) ctl_deps \<Rightarrow> event \<Rightarrow> bool" where
  "allowed su (EvShutdown hid p) \<longleftrightarrow>
     (case p of None \<Rightarrow> False
      | Some st \<Rightarrow> shutting_down st \<and> hid \<in> set (sp_PreFSD (ctl_plan su))
          \<and> hs_ShutdownState (lookup_host (hosts_of st) hid) = ShutdownRequested
          \<and> hs_ShutdownAttempts (lookup_host (hosts_of st) hid) \<le> maxDirectShutdownAttempts)"
| "allowed su (EvFSD ups p) \<longleftrightarrow>
     nc_Profile (cf_NUT (su_Config su)) \<noteq> ''remote-client'' \<and> ups = nc_UPSName (cf_NUT (su_Config su))
     \<and> (case p of None \<Rightarrow> False
      | Some st \<Rightarrow> shutting_down st
          \<and> list_all (\<lambda>hid. resolved (lookup_host (hosts_of st) hid)) (sp_PreFSD (ctl_plan su))
          \<and> list_all (\<lambda>hid. hs_ShutdownState (lookup_host (hosts_of st) hid) \<in> {ShutdownCompleted, ShutdownRequested}
                \<and> hs_ShutdownAttempts (lookup_host (hosts_of st) hid) \<le> maxNUTFSDShutdownAttempts)
              (sp_NUTGroup (ctl_plan su)))"
| "allowed su (EvWake hid p) \<longleftrightarrow>
     (case p of None \<Rightarrow> False
      | Some st \<Rightarrow> st_PowerState st = RestoreHosts \<and> st_RecoveryStarted st
          \<and> hs_RecoveryState (lookup_host (hosts_of st) hid) = RecoveryWOLSent
          \<and> (\<exists>cfg \<in> set (toHostConfigs (cf_Hosts (su_Config su))). hp_ID cfg = hid
               \<and> EligibleForRestore cfg (lookup_host (hosts_of st) hid)
               \<and> list_all (dep_ready (cfg_by_id (toHostConfigs (cf_Hosts (su_Config su)))) (hosts_of st)) (hp_DependsOn cfg)
               \<and> hs_WakeAttempts (lookup_host (hosts_of st) hid) \<le> effective_max_attempts cfg))"

text \<open>The persisted generation is the in-memory transaction, up to the UPS observation.\<close>

definition synced :: "('w, 'x) controller \<Rightarrow> bool" where
  "synced c \<longleftrightarrow> (\<exists>d. ct_persisted c = Some d
     \<and> (txn_content d)\<lparr>st_LastUPS := None\<rparr> = (txn_content (ctl_state c))\<lparr>st_LastUPS := None\<rparr>)"

text \<open>
  A lawful controller: every command it ever sent was authorized, its transaction is consistent, and
  what it knows of a shutdown in progress is durable.
\<close>

definition lawful :: "('w, 'x, 'e) ctl_deps \<Rightarrow> ('w, 'x) controller \<Rightarrow> bool" where
  "lawful su c \<longleftrightarrow> list_all (allowed su) (ct_trace c) \<and> txn_inv (ctl_state c)
     \<and> (st_PowerState (ctl_state c) = ShutdownInProgress \<longrightarrow> synced c)"

definition downing :: "('w, 'x, 'e) ctl_deps \<Rightarrow> ('w, 'x) controller \<Rightarrow> bool" where
  "downing su c \<longleftrightarrow> lawful su c \<and> st_PowerState (ctl_state c) = ShutdownInProgress"

definition host_written :: "('w, 'x) controller \<Rightarrow> string \<Rightarrow> host_state \<Rightarrow> ('w, 'x) controller \<Rightarrow> bool" where
  "host_written c hid hs c' \<longleftrightarrow>
     hosts_of (ctl_state c') = fmupd hid hs (hosts_of (ctl_state c))
     \<and> st_PowerState (ctl_state c') = st_PowerState (ctl_state c)
     \<and> st_ShutdownCommitted (ctl_state c') = st_ShutdownCommitted (ctl_state c)
     \<and> st_RecoveryStarted (ctl_state c') = st_RecoveryStarted (ctl_state c)
     \<and> ct_persisted c' = Some (ctl_state c') \<and> ct_trace c' = ct_trace c"

lemma synced_written: "ct_persisted c = Some (ctl_state c) \<Longrightarrow> synced c"
  by (simp add: synced_def)

lemma txn_inv_cong:
  "st_PowerState a = st_PowerState b \<Longrightarrow> st_ShutdownCommitted a = st_ShutdownCommitted b \<Longrightarrow>
     st_RecoveryStarted a = st_RecoveryStarted b \<Longrightarrow> txn_inv a = txn_inv b"
  by (simp add: txn_inv_def)

lemma host_written_lawful:
  assumes "host_written c hid hs c'"
  shows "lawful su c \<Longrightarrow> lawful su c'"
    and "downing su c \<Longrightarrow> downing su c'"
    and "lookup_host (hosts_of (ctl_state c')) k = (if hid = k then hs else lookup_host (hosts_of (ctl_state c)) k)"
  using assms txn_inv_cong [of "ctl_state c'" "ctl_state c"] synced_written [of c']
  by (simp_all add: host_written_def lawful_def downing_def lookup_host_upd)

lemma synced_frame [simp]:
  "synced (c\<lparr>ct_env := x\<rparr>) = synced c"
  "synced (c\<lparr>ct_trace := t\<rparr>) = synced c"
  "synced (c\<lparr>ct_nutFSDTransactionID := tx\<rparr>) = synced c"
  "synced (c\<lparr>ct_nutFSDNextAttempt := g\<rparr>) = synced c"
  "synced (c\<lparr>ct_lastRecoveryWakeAt := g\<rparr>) = synced c"
  "synced (c\<lparr>ct_lastRecoveryWakeHostID := tx\<rparr>) = synced c"
  "synced (c\<lparr>ct_resumeWakeDelayEvaluated := b\<rparr>) = synced c"
  by (simp_all add: synced_def)

lemma lawful_frame [simp]:
  "lawful su (c\<lparr>ct_env := x\<rparr>) = lawful su c"
  "lawful su (c\<lparr>ct_nutFSDTransactionID := tx\<rparr>) = lawful su c"
  "lawful su (c\<lparr>ct_nutFSDNextAttempt := g\<rparr>) = lawful su c"
  "lawful su (c\<lparr>ct_lastRecoveryWakeAt := g\<rparr>) = lawful su c"
  "lawful su (c\<lparr>ct_lastRecoveryWakeHostID := tx\<rparr>) = lawful su c"
  "lawful su (c\<lparr>ct_resumeWakeDelayEvaluated := b\<rparr>) = lawful su c"
  by (simp_all add: lawful_def)

lemma downing_frame [simp]:
  "downing su (c\<lparr>ct_env := x\<rparr>) = downing su c"
  "downing su (c\<lparr>ct_nutFSDTransactionID := tx\<rparr>) = downing su c"
  "downing su (c\<lparr>ct_nutFSDNextAttempt := g\<rparr>) = downing su c"
  by (simp_all add: downing_def synced_def)

lemma ctl_host_frame [simp]:
  "ctl_host hid (c\<lparr>ct_env := x\<rparr>) = ctl_host hid c"
  "ctl_host hid (c\<lparr>ct_trace := t\<rparr>) = ctl_host hid c"
  by (simp_all add: ctl_host_def)

lemma cloneState_simps [simp]:
  "hosts_of (cloneState st) = hosts_of st" "st_PowerState (cloneState st) = st_PowerState st"
  "st_ShutdownCommitted (cloneState st) = st_ShutdownCommitted st"
  "st_RecoveryStarted (cloneState st) = st_RecoveryStarted st"
  "st_TransactionID (cloneState st) = st_TransactionID st"
  by (simp_all add: cloneState_def)

locale durable_ctl =
  fixes su :: "('w, 'x, 'e) ctl_deps"
  assumes put: "preserves_content (su_put su)"
begin

lemma wp_write_lawful:
  assumes "lawful su c" "txn_inv st"
    and "\<And>c'. txn_content (ctl_state c') = txn_content st \<Longrightarrow> ct_persisted c' = Some (ctl_state c') \<Longrightarrow>
           ct_trace c' = ct_trace c \<Longrightarrow> lawful su c' \<Longrightarrow> Q (ctl_state c') c'"
    and "\<And>e c'. lawful su c' \<Longrightarrow> E (PolicyFailed e) c'"
  shows "wp (policy_write su st) Q E c"
proof (rule wp_policy_write [OF put])
  fix st' and p :: "'w coordinator"
  assume st': "txn_content st' = txn_content st" "Coordinator_State p = st'"
  let ?c = "c\<lparr>ct_policy := p, ct_persisted := Some st'\<rparr>"
  have "txn_inv st'" using assms(2) txn_inv_cong [of st' st] txn_contentD [OF st'(1)] by simp
  then have "lawful su ?c"
    using assms(1) st' synced_written [of ?c] by (simp add: lawful_def)
  then show "Q st' ?c" using assms(3) [of ?c] st' by simp
next
  fix e and p :: "'w coordinator"
  assume "co_engine p = co_engine (ct_policy c)"
  then have "lawful su (c\<lparr>ct_policy := p\<rparr>)"
    using assms(1) by (simp add: lawful_def synced_def ctl_state_def Coordinator_State_def)
  then show "E (PolicyFailed e) (c\<lparr>ct_policy := p\<rparr>)" by (rule assms(4))
qed

lemma wp_persistHost:
  assumes "lawful su c"
    and "\<And>c'. host_written c hid hs c' \<Longrightarrow> lawful su c' \<Longrightarrow> Q () c'"
    and "\<And>e c'. lawful su c' \<Longrightarrow> E (PolicyFailed e) c'"
  shows "wp (persistHost su hid hs) Q E c"
  unfolding persistHost_def wp_seqE wp_getS wp_return
proof (rule wp_write_lawful [OF assms(1)])
  show "txn_inv (put_host hid hs (cloneState (ctl_state c)))"
    using assms(1) txn_inv_cong [of "put_host hid hs (cloneState (ctl_state c))" "ctl_state c"]
    by (simp add: lawful_def)
next
  fix c' :: "('w, 'x) controller"
  assume a: "txn_content (ctl_state c') = txn_content (put_host hid hs (cloneState (ctl_state c)))"
    "ct_persisted c' = Some (ctl_state c')" "ct_trace c' = ct_trace c" "lawful su c'"
  then have "host_written c hid hs c'"
    using txn_contentD [OF a(1)] txn_content_hosts [OF a(1)] by (simp add: host_written_def)
  then show "Q () c'" using assms(2) a(4) by blast
qed (rule assms(3))

lemma wp_enterShutdownFailedSafe:
  assumes "lawful su c" "\<And>c'. lawful su c' \<Longrightarrow> Q () c'" "\<And>e c'. lawful su c' \<Longrightarrow> E e c'"
  shows "wp (enterShutdownFailedSafe su hid hs reason) Q E c"
  unfolding enterShutdownFailedSafe_def wp_seqE wp_getS wp_return
proof (rule wp_write_lawful [OF assms(1)])
  let ?st = "(put_host hid (hs\<lparr>hs_ShutdownState := ShutdownFailed, hs_LastError := reason\<rparr>)
      (cloneState (ctl_state c)))\<lparr>st_PowerState := FailedSafe, st_FailedSafeReason := M_failed_safe hid reason\<rparr>"
  show "txn_inv ?st"
    by (rule txn_inv_moves(4)) (use assms(1) in \<open>simp add: lawful_def txn_inv_def\<close>)
qed (use assms in auto)

end

section \<open>Direct hosts\<close>

definition host_of :: "('w, 'x) controller \<Rightarrow> string \<Rightarrow> host_state" where
  "host_of c hid = lookup_host (hosts_of (ctl_state c)) hid"

definition settled_at :: "('w, 'x, 'e) ctl_deps \<Rightarrow> ('w, 'x) controller \<Rightarrow> string \<Rightarrow> ('w, 'x) controller \<Rightarrow> bool" where
  "settled_at su c hid c' \<longleftrightarrow> downing su c' \<and> resolved (host_of c' hid)
     \<and> (\<forall>k. k \<noteq> hid \<longrightarrow> host_of c' k = host_of c k)"

lemma host_of_written:
  "host_written c hid hs c' \<Longrightarrow> host_of c' k = (if hid = k then hs else host_of c k)"
  by (simp add: host_of_def host_written_lawful(3))

lemma host_of_frame [simp]:
  "host_of (c\<lparr>ct_env := x\<rparr>) = host_of c" "host_of (c\<lparr>ct_trace := t\<rparr>) = host_of c"
  by (simp_all add: host_of_def fun_eq_iff)

lemma settled_at_env [simp]: "settled_at su (c\<lparr>ct_env := x\<rparr>) = settled_at su c"
  by (simp add: settled_at_def fun_eq_iff)

lemma ctl_host_host_of: "ctl_host hid c = host_of c hid"
  by (simp add: ctl_host_def host_of_def)

lemma downing_lawful: "downing su c \<Longrightarrow> lawful su c"
  by (simp add: downing_def)

lemma resolved_states [simp]:
  "resolved (hs\<lparr>hs_ShutdownState := ShutdownCompleted\<rparr>)"
  "resolved (hs\<lparr>hs_ShutdownState := ShutdownNotRequired\<rparr>)"
  "resolved (hs\<lparr>hs_ShutdownState := ShutdownAcknowledged\<rparr>)"
  "resolved (hs\<lparr>hs_LastError := e\<rparr>) = resolved hs"
  "resolved (hs\<lparr>hs_LastVerification := e\<rparr>) = resolved hs"
  by (simp_all add: resolved_def)

context durable_ctl
begin

lemma wp_persist_settled:
  assumes "downing su c" "resolved hs" "\<And>k. k \<noteq> hid \<Longrightarrow> host_of c k = host_of c0 k"
    and "\<And>e c'. lawful su c' \<Longrightarrow> E e c'"
  shows "wp (persistHost su hid hs) (\<lambda>_. settled_at su c0 hid) E c"
  using assms
  by (intro wp_persistHost) (auto simp: downing_lawful settled_at_def host_of_written host_written_lawful(2))

lemma wp_await_offline:
  assumes "downing su c" "resolved (host_of c (hc_ID h))" "\<And>k. k \<noteq> hc_ID h \<Longrightarrow> host_of c k = host_of c0 k"
  shows "wp (await_offline su pb h) (\<lambda>_. settled_at su c0 (hc_ID h)) (\<lambda>_. lawful su) c"
proof (cases "probeable h")
  case False
  then show ?thesis using assms by (simp add: await_offline_def settled_at_def)
next
  case True
  have "wp (persistHost su (hc_ID h) hs) (\<lambda>_. lawful su) (\<lambda>_. lawful su) (c\<lparr>ct_env := x\<rparr>)" for hs x
    using assms(1) by (intro wp_persistHost) (simp_all add: downing_lawful)
  moreover have "wp (persistHost su (hc_ID h) (hs\<lparr>hs_ShutdownState := ShutdownCompleted,
      hs_LastError := '''', hs_LastVerification := V_offline\<rparr>)) (\<lambda>_. settled_at su c0 (hc_ID h)) (\<lambda>_. lawful su)
      (c\<lparr>ct_env := x\<rparr>)" for hs x
    using assms by (intro wp_persist_settled) (simp_all add: resolved_def)
  ultimately show ?thesis
    unfolding await_offline_def using True by (auto intro!: wp_ask split: sum.split)
qed

lemma wp_lawful_persist:
  assumes "lawful su c" "\<And>c'. lawful su c' \<Longrightarrow> Q () c'" "\<And>e c'. lawful su c' \<Longrightarrow> E e c'"
  shows "wp (persistHost su hid hs) Q E c"
  using assms by (intro wp_persistHost) auto

lemma event_shutdown_lawful:
  assumes "downing su c" "host_written c hid hs c'" "hid \<in> set (sp_PreFSD (ctl_plan su))"
    and "hs_ShutdownState hs = ShutdownRequested" "hs_ShutdownAttempts hs \<le> maxDirectShutdownAttempts"
  shows "lawful su (c'\<lparr>ct_trace := ct_trace c' @ [EvShutdown hid (ct_persisted c')]\<rparr>)"
    "downing su (c'\<lparr>ct_trace := ct_trace c' @ [EvShutdown hid (ct_persisted c')]\<rparr>)"
proof -
  have d: "downing su c'" by (rule host_written_lawful(2) [OF assms(2,1)])
  have "st_PowerState (ctl_state c') = ShutdownInProgress" "txn_inv (ctl_state c')"
    using d by (simp_all add: downing_def lawful_def)
  then have "shutting_down (ctl_state c')" by (simp add: shutting_down_def txn_inv_def)
  then have "allowed su (EvShutdown hid (ct_persisted c'))"
    using assms host_written_lawful(3) [OF assms(2), of hid] by (simp add: host_written_def)
  then show "lawful su (c'\<lparr>ct_trace := ct_trace c' @ [EvShutdown hid (ct_persisted c')]\<rparr>)"
    using d by (simp add: lawful_def downing_def)
  then show "downing su (c'\<lparr>ct_trace := ct_trace c' @ [EvShutdown hid (ct_persisted c')]\<rparr>)"
    using d by (simp add: downing_def synced_def)
qed

lemma wp_direct_result:
  assumes "downing su c" "\<And>k. k \<noteq> hc_ID h \<Longrightarrow> host_of c k = host_of c0 k"
  shows "wp (direct_result su pb h r) (\<lambda>_. settled_at su c0 (hc_ID h)) (\<lambda>_. lawful su) c"
proof -
  have l: "lawful su c" using assms(1) by (rule downing_lawful)
  have "wp (persistHost su (hc_ID h) (hs\<lparr>hs_ShutdownState := ShutdownAcknowledged\<rparr>))
      (\<lambda>_. wp (await_offline su pb h) (\<lambda>_. settled_at su c0 (hc_ID h)) (\<lambda>_. lawful su)) (\<lambda>_. lawful su) c" for hs
    using assms by (intro wp_persistHost [OF l] wp_await_offline)
      (simp_all add: host_of_written host_written_lawful(2))
  moreover have "wp (persistHost su (hc_ID h) (hs\<lparr>hs_ShutdownState := ShutdownNotRequired\<rparr>))
      (\<lambda>_. settled_at su c0 (hc_ID h)) (\<lambda>_. lawful su) c" for hs
    using assms by (intro wp_persist_settled) simp_all
  ultimately show ?thesis
    using l by (auto simp: direct_result_def Let_def wp_enterShutdownFailedSafe wp_lawful_persist
        split: sum.split shutdown_disposition.split)
qed

lemma wp_attempt_direct:
  assumes "downing su c" "hc_ID h \<in> set (sp_PreFSD (ctl_plan su))"
  shows "wp (attempt_direct su pb sd h tx hs) (\<lambda>_. settled_at su c (hc_ID h)) (\<lambda>_. lawful su) c"
proof (cases "hs_ShutdownAttempts hs \<ge> maxDirectShutdownAttempts")
  case True
  then show ?thesis
    unfolding attempt_direct_def Let_def using assms(1)
    by (simp add: wp_enterShutdownFailedSafe downing_lawful)
next
  case False
  let ?hid = "hc_ID h"
  let ?hs = "hs\<lparr>hs_ShutdownAttempts := hs_ShutdownAttempts hs + 1, hs_ShutdownState := ShutdownRequested,
      hs_LastActionID := shutdown_action_id tx ?hid (hs_ShutdownAttempts hs + 1), hs_LastError := ''''\<rparr>"
  have "wp (persistHost su ?hid ?hs)
     (\<lambda>_ c1. wp (ask (sd h)) (\<lambda>r. wp (direct_result su pb h r) (\<lambda>_. settled_at su c ?hid) (\<lambda>_. lawful su))
        (\<lambda>_. lawful su) (c1\<lparr>ct_trace := ct_trace c1 @ [EvShutdown ?hid (ct_persisted c1)]\<rparr>))
     (\<lambda>_. lawful su) c"
  proof (rule wp_persistHost)
    show "lawful su c" using assms(1) by (rule downing_lawful)
  next
    fix c1 :: "('w, 'x) controller"
    assume w: "host_written c ?hid ?hs c1"
    let ?c2 = "c1\<lparr>ct_trace := ct_trace c1 @ [EvShutdown ?hid (ct_persisted c1)]\<rparr>"
    have "downing su ?c2"
      by (rule event_shutdown_lawful(2) [OF assms(1) w assms(2)]) (use False in simp_all)
    moreover have "k \<noteq> ?hid \<Longrightarrow> host_of c1 k = host_of c k" for k
      using host_of_written [OF w] by simp
    ultimately show "wp (ask (sd h)) (\<lambda>r. wp (direct_result su pb h r) (\<lambda>_. settled_at su c ?hid) (\<lambda>_. lawful su))
        (\<lambda>_. lawful su) ?c2"
      by (intro wp_ask wp_direct_result) simp_all
  qed
  then show ?thesis using False by (simp add: attempt_direct_def Let_def)
qed

lemma wp_reconcile_direct:
  assumes "downing su c" "hc_ID h \<in> set (sp_PreFSD (ctl_plan su))"
  shows "wp (reconcile_direct su pb sd h tx hs) (\<lambda>_. settled_at su c (hc_ID h)) (\<lambda>_. lawful su) c"
proof -
  let ?hid = "hc_ID h"
  have l: "lawful su c" using assms(1) by (rule downing_lawful)
  have attempt: "wp (attempt_direct su pb sd h tx hs) (\<lambda>_. settled_at su c ?hid) (\<lambda>_. lawful su) (c\<lparr>ct_env := x\<rparr>)" for x
    using wp_attempt_direct [of "c\<lparr>ct_env := x\<rparr>" h] assms by simp
  have completed: "wp (persistHost su ?hid (hs\<lparr>hs_ShutdownState := ShutdownCompleted,
      hs_LastVerification := V_offline, hs_LastError := ''''\<rparr>)) (\<lambda>_. settled_at su c ?hid) (\<lambda>_. lawful su)
      (c\<lparr>ct_env := x\<rparr>)" for x
    using assms by (intro wp_persist_settled) (simp_all add: resolved_def)
  have pending: "wp (persistHost su ?hid hs) (\<lambda>_. lawful su) (\<lambda>_. lawful su) (c\<lparr>ct_env := x\<rparr>)" for hs x
    using l by (intro wp_lawful_persist) simp_all
  show ?thesis
    using pending [of _ "ct_env c"]
    by (auto simp: reconcile_direct_def Let_def attempt completed pending split: sum.split intro!: wp_ask)
qed

lemma wp_settleDirect:
  assumes "downing su c" "hc_ID h \<in> set (sp_PreFSD (ctl_plan su))"
  shows "wp (settleDirect su pb sd h) (\<lambda>_. settled_at su c (hc_ID h)) (\<lambda>_. lawful su) c"
proof -
  let ?hs = "lookup_host (hosts_of (ctl_state c)) (hc_ID h)"
  have "settled_at su c (hc_ID h) c"
    if "hs_ShutdownState ?hs = ShutdownCompleted \<or> hs_ShutdownState ?hs = ShutdownNotRequired"
    using that assms(1) by (auto simp: settled_at_def resolved_def host_of_def)
  then show ?thesis
    by (simp add: settleDirect_def Let_def wp_enterShutdownFailedSafe wp_reconcile_direct [OF assms]
        wp_attempt_direct [OF assms] downing_lawful [OF assms(1)])
qed

end

section \<open>The shutdown phase\<close>

lemma host_by_id_ID:
  assumes "hid \<in> set (map hc_ID hosts)"
  shows "hc_ID (host_by_id hosts hid) = hid"
proof -
  let ?F = "\<lambda>m. fold (\<lambda>h m. fmupd (hc_ID h) h m) hosts m"
  let ?ok = "\<lambda>m. \<forall>k h. fmlookup m k = Some h \<longrightarrow> hc_ID h = k"
  have ok: "?ok (?F fmempty)"
    by (rule fold_invariant [where Q = "\<lambda>_. True"]) auto
  have "hid \<in> set (map hc_ID hosts) \<or> hid |\<in>| fmdom m \<Longrightarrow> hid |\<in>| fmdom (?F m)" for m
    by (induction hosts arbitrary: m) auto
  then obtain h where "fmlookup (?F fmempty) hid = Some h"
    using assms by (meson fmlookup_dom_iff)
  then show ?thesis using ok by (simp add: host_by_id_def)
qed

lemma ctl_plan_ids:
  "hid \<in> set (sp_PreFSD (ctl_plan su)) \<Longrightarrow> hid \<in> set (map hc_ID (cf_Hosts (su_Config su)))"
  "hid \<in> set (sp_NUTGroup (ctl_plan su)) \<Longrightarrow> hid \<in> set (map hc_ID (cf_Hosts (su_Config su)))"
  by (auto simp: ctl_plan_def BuildShutdownPlan_def toHostConfigs_def toHostConfig_def Let_def)

lemma plan_host_ID:
  "hid \<in> set (sp_PreFSD (ctl_plan su)) \<Longrightarrow> hc_ID (host_by_id (cf_Hosts (su_Config su)) hid) = hid"
  by (intro host_by_id_ID ctl_plan_ids)

definition all_resolved :: "string list \<Rightarrow> ('w, 'x) controller \<Rightarrow> bool" where
  "all_resolved ids c \<longleftrightarrow> (\<forall>hid \<in> set ids. resolved (host_of c hid))"

lemma settled_at_resolved:
  "settled_at su c hid c' \<Longrightarrow> all_resolved ids c \<Longrightarrow> all_resolved (hid # ids) c'"
  by (auto simp: settled_at_def all_resolved_def)

context durable_ctl
begin

lemma wp_settle_all:
  assumes "set ids \<subseteq> set (sp_PreFSD (ctl_plan su))" "downing su c" "all_resolved before c"
  shows "wp (settle_all su pb sd ids)
     (\<lambda>b c'. lawful su c' \<and> (b \<longrightarrow> downing su c' \<and> all_resolved (ids @ before) c')) (\<lambda>_. lawful su) c"
  using assms
proof (induction ids arbitrary: c before)
  case Nil
  then show ?case by (simp add: downing_lawful)
next
  case (Cons hid ids)
  let ?h = "host_by_id (cf_Hosts (su_Config su)) hid"
  let ?Q = "\<lambda>b c'. lawful su c' \<and> (b \<longrightarrow> downing su c' \<and> all_resolved ((hid # ids) @ before) c')"
  have hid: "hc_ID ?h = hid" using Cons.prems(1) by (simp add: plan_host_ID)
  have "wp (settleDirect su pb sd ?h) (\<lambda>_. settled_at su c hid) (\<lambda>_. lawful su) c"
    using wp_settleDirect [of c ?h] Cons.prems hid by simp
  moreover have "wp (settle_all su pb sd ids) ?Q (\<lambda>_. lawful su) c'" if s: "settled_at su c hid c'" for c'
  proof -
    have "wp (settle_all su pb sd ids)
       (\<lambda>b c'. lawful su c' \<and> (b \<longrightarrow> downing su c' \<and> all_resolved (ids @ hid # before) c')) (\<lambda>_. lawful su) c'"
      using Cons.prems settled_at_resolved [OF s Cons.prems(3)] s
      by (intro Cons.IH) (simp_all add: settled_at_def)
    then show ?thesis by (rule wp_conseq) (auto simp: all_resolved_def)
  qed
  ultimately show ?case
    by simp (elim wp_conseq; simp)
qed

lemma wp_prepareNUTGroup:
  assumes "downing su c" "all_resolved pre c"
  shows "wp (prepareNUTGroup su pb ids) (\<lambda>_ c'. downing su c' \<and> all_resolved pre c') (\<lambda>_. lawful su) c"
proof -
  let ?I = "\<lambda>c'. downing su c' \<and> all_resolved pre c'"
  have completed: "wp (persistHost su hid (hs\<lparr>hs_ShutdownState := ShutdownCompleted, hs_LastVerification := V_offline\<rparr>))
      (\<lambda>_. ?I) (\<lambda>_. lawful su) c'" if "?I c'" for hid hs c'
    using that by (intro wp_persistHost)
      (auto simp: downing_lawful host_written_lawful(2) all_resolved_def host_of_written)
  show ?thesis
    unfolding prepareNUTGroup_def
  proof (rule wp_forE [where I = "\<lambda>_. ?I"])
    fix pre' x post and s :: "('w, 'x) controller"
    assume s: "?I s"
    have env: "?I (s\<lparr>ct_env := x\<rparr>)" for x using s by (simp add: all_resolved_def)
    show "wp (seqE (getS (ctl_host x)) (\<lambda>hs. let h = host_by_id (cf_Hosts (su_Config su)) x in
         if hs_ShutdownState hs = ShutdownCompleted \<or> \<not> probeable h then return ()
         else seqE (ask (pb_Check pb h)) (\<lambda>r. case r of Inl _ \<Rightarrow> return ()
           | Inr res \<Rightarrow> (if pr_Known res \<and> \<not> pr_Online res
                then persistHost su x (hs\<lparr>hs_ShutdownState := ShutdownCompleted, hs_LastVerification := V_offline\<rparr>)
                else return ())))) (\<lambda>_. ?I) (\<lambda>_. lawful su) s"
      using s env by (auto simp: Let_def completed intro!: wp_ask split: sum.split)
  qed (use assms in simp)
qed


lemma wp_raise_joined: "wp (raise_joined m) Q E = wp m (\<lambda>es. if es = [] then Q () else E (Joined es)) E"
proof -
  have "(\<lambda>x. wp (if x = [] then return () else throw (Joined x)) Q E) = (\<lambda>es. if es = [] then Q () else E (Joined es))"
    by (rule ext) simp
  then show ?thesis by (simp add: raise_joined_def)
qed

text \<open>The loops over the group that only need to stay lawful.\<close>

lemma wp_group_lawful:
  assumes "lawful su c" and "\<And>hid s. lawful su s \<Longrightarrow> wp (f hid) (\<lambda>_. lawful su) (\<lambda>_. lawful su) s"
  shows "wp (raise_joined (forJoin ids f)) (\<lambda>_. lawful su) (\<lambda>_. lawful su) c"
proof -
  have "wp (forJoin ids f) (\<lambda>_. lawful su) (\<lambda>_. lawful su) c"
    by (rule wp_forJoin) (use assms in auto)
  then show ?thesis unfolding wp_raise_joined by (rule wp_conseq) simp_all
qed

lemma wp_mark_lawful:
  assumes "lawful su c"
  shows "wp (markNUTError su ids cause) (\<lambda>_. lawful su) (\<lambda>_. lawful su) c"
    "wp (markNUTAcknowledged su ids) (\<lambda>_. lawful su) (\<lambda>_. lawful su) c"
    "wp (verifyNUTGroup su pb ids) (\<lambda>_. lawful su) (\<lambda>_. lawful su) c"
  unfolding markNUTError_def markNUTAcknowledged_def verifyNUTGroup_def
  by (intro wp_group_lawful [OF assms]; auto simp: Let_def intro!: wp_ask wp_lawful_persist split: sum.split)+

definition nut_ready :: "host_state \<Rightarrow> bool" where
  "nut_ready hs \<longleftrightarrow> hs_ShutdownState hs \<in> {ShutdownCompleted, ShutdownRequested}
     \<and> hs_ShutdownAttempts hs \<le> maxNUTFSDShutdownAttempts"

lemma wp_markNUTRequested:
  assumes c: "downing su c" "all_resolved pre c"
    and few: "\<forall>hid \<in> set ids. hs_ShutdownAttempts (host_of c hid) < maxNUTFSDShutdownAttempts"
    and ids: "distinct ids" "set ids \<inter> set pre = {}"
  shows "wp (markNUTRequested su ids)
     (\<lambda>_ c'. downing su c' \<and> all_resolved pre c' \<and> (\<forall>hid \<in> set ids. nut_ready (host_of c' hid)))
     (\<lambda>_. lawful su) c"
proof -
  let ?I = "\<lambda>ds s. downing su s \<and> all_resolved pre s \<and> (\<forall>hid \<in> set ds. nut_ready (host_of s hid))
      \<and> (\<forall>hid \<in> set ids - set ds. hs_ShutdownAttempts (host_of s hid) < maxNUTFSDShutdownAttempts)"
  let ?f = "\<lambda>hid. seqE (getS ctl_state) (\<lambda>st.
       let hs = lookup_host (hosts_of st) hid; n = hs_ShutdownAttempts hs + 1 in
       if hs_ShutdownState hs = ShutdownCompleted then return ()
       else persistHost su hid (hs\<lparr>hs_ShutdownAttempts := n, hs_ShutdownState := ShutdownRequested,
              hs_LastActionID := fsd_action_id (st_TransactionID st) hid n, hs_LastError := ''''\<rparr>))"
  have "wp (forJoin ids ?f) (\<lambda>es s. lawful su s \<and> (es = [] \<longrightarrow> ?I ids s)) (\<lambda>_. lawful su) c"
  proof (rule wp_forJoin_none [where I = ?I and J = "lawful su"])
    show "?I [] c" using c few by simp
    show "lawful su c" using c(1) by (rule downing_lawful)
    show "lawful su s" if "?I ds s" for ds and s :: "('w, 'x) controller"
      using that by (simp add: downing_lawful)
    show "wp (?f x) (\<lambda>_. lawful su) (\<lambda>_. lawful su) s" if "lawful su s" for x and s :: "('w, 'x) controller"
      using that by (simp add: Let_def wp_lawful_persist)
    show "wp (?f x) (\<lambda>_. ?I (ds @ [x])) (\<lambda>_. lawful su) s"
      if x: "ids = ds @ x # post" and s: "?I ds s" for ds x post and s :: "('w, 'x) controller"
    proof -
      have xin: "x \<in> set ids" "x \<notin> set ds" "x \<notin> set pre" using x ids by auto
      then have "hs_ShutdownAttempts (host_of s x) < maxNUTFSDShutdownAttempts" using s by blast
      then have "hs_ShutdownAttempts (host_of s x) \<le> maxNUTFSDShutdownAttempts"
          "hs_ShutdownAttempts (host_of s x) + 1 \<le> maxNUTFSDShutdownAttempts"
        by simp_all
      then show ?thesis
        using s xin unfolding wp_seqE wp_getS Let_def wp_return
        by (auto simp: nut_ready_def host_of_def [symmetric] all_resolved_def downing_lawful host_of_written
            host_written_lawful(2) intro!: wp_persistHost split: if_splits)
    qed
  qed
  then show ?thesis
    unfolding markNUTRequested_def wp_raise_joined by (rule wp_conseq) auto
qed

lemma event_fsd_lawful:
  assumes c: "downing su c" "all_resolved (sp_PreFSD (ctl_plan su)) c"
    and nut: "\<forall>hid \<in> set (sp_NUTGroup (ctl_plan su)). nut_ready (host_of c hid)"
    and prof: "nc_Profile (cf_NUT (su_Config su)) \<noteq> ''remote-client''"
  shows "lawful su (c\<lparr>ct_trace := ct_trace c @ [EvFSD (nc_UPSName (cf_NUT (su_Config su))) (ct_persisted c)]\<rparr>)"
proof -
  obtain d where d: "ct_persisted c = Some d"
      "(txn_content d)\<lparr>st_LastUPS := None\<rparr> = (txn_content (ctl_state c))\<lparr>st_LastUPS := None\<rparr>"
    using c(1) by (auto simp: downing_def lawful_def synced_def)
  have same: "st_PowerState d = st_PowerState (ctl_state c)"
      "st_ShutdownCommitted d = st_ShutdownCommitted (ctl_state c)" "st_Hosts d = st_Hosts (ctl_state c)"
    using arg_cong [OF d(2), of st_PowerState] arg_cong [OF d(2), of st_ShutdownCommitted]
      arg_cong [OF d(2), of st_Hosts] by simp_all
  then have "hosts_of d = hosts_of (ctl_state c)" by (simp add: hosts_of_def)
  moreover have "shutting_down d"
    using c(1) same by (simp add: shutting_down_def downing_def lawful_def txn_inv_def)
  ultimately have "allowed su (EvFSD (nc_UPSName (cf_NUT (su_Config su))) (ct_persisted c))"
    using c(2) nut prof d(1)
    by (simp add: list_all_iff all_resolved_def nut_ready_def host_of_def)
  then show ?thesis using c(1) by (simp add: downing_def lawful_def)
qed

lemma wp_decide_lawful:
  assumes "lawful su c" "txn_inv (eng_st e')"
    and quiet: "\<not> d_Changed d \<Longrightarrow> st_PowerState (eng_st e') = ShutdownInProgress \<Longrightarrow> eng_st e' = ctl_state c"
    and pass: "\<And>c'. lawful su c' \<Longrightarrow> ct_trace c' = ct_trace c \<Longrightarrow>
      (if d_Changed d then ct_persisted c' = Some (ctl_state c') \<and> txn_content (ctl_state c') = txn_content (eng_st e')
       else ct_persisted c' = ct_persisted c \<and> ctl_state c' = eng_st e') \<Longrightarrow> Q d c'"
    and fail: "\<And>e c'. lawful su c' \<Longrightarrow> E e c'"
  shows "wp (policy_decide (\<lambda>p. commit_decision (su_put su) (ctl_state c) d e' p)) Q E c"
proof (cases "d_Changed d")
  case False
  let ?c = "c\<lparr>ct_policy := (ct_policy c)\<lparr>co_engine := e'\<rparr>\<rparr>"
  have "lawful su ?c"
    using assms(1,2) quiet [OF False] by (auto simp: lawful_def synced_def Coordinator_State_def)
  then show ?thesis
    using False pass [of ?c]
    by (simp add: wp_def policy_decide_def commit_decision_def Coordinator_State_def)
next
  case True
  obtain r w' where p: "su_put su (co_store (ct_policy c)) (eng_st e') = (r, w')" by fastforce
  show ?thesis
  proof (cases r)
    case (Inl err)
    let ?c = "c\<lparr>ct_policy := \<lparr>co_engine = e'\<lparr>eng_st := ctl_state c\<rparr>, co_store = w'\<rparr>\<rparr>"
    have "lawful su ?c" using assms(1) by (simp add: lawful_def synced_def Coordinator_State_def)
    then show ?thesis
      using True Inl p fail by (simp add: wp_def policy_decide_def commit_decision_def)
  next
    case (Inr st)
    let ?c = "c\<lparr>ct_policy := \<lparr>co_engine = e'\<lparr>eng_st := st\<rparr>, co_store = w'\<rparr>, ct_persisted := Some st\<rparr>"
    have st: "txn_content st = txn_content (eng_st e')"
      using preserves_contentD [OF put] p Inr by simp
    then have "txn_inv st"
      using assms(2) txn_inv_cong [of st "eng_st e'"] txn_contentD [OF st] by simp
    then have "lawful su ?c" using assms(1) by (simp add: lawful_def synced_def Coordinator_State_def)
    then show ?thesis
      using True Inr p st pass [of ?c]
      by (simp add: wp_def policy_decide_def commit_decision_def Coordinator_State_def)
  qed
qed

lemma wp_mark_decides:
  assumes "lawful su c" "\<And>d c'. lawful su c' \<Longrightarrow> Q d c'" "\<And>e c'. lawful su c' \<Longrightarrow> E e c'"
  shows "wp (policy_decide (Coordinator_MarkShutdownPhaseComplete (su_put su))) Q E c"
    "wp (policy_decide (Coordinator_MarkRecoveryComplete (su_put su))) Q E c"
proof -
  have inv: "txn_inv (eng_st (co_engine (ct_policy c)))"
    using assms(1) by (simp add: lawful_def ctl_state_def Coordinator_State_def)
  note decide = wp_decide_lawful [OF assms(1), where Q = Q and E = E, OF _ _ assms(2,3)]
  have quiet: "\<not> d_Changed (fst (MarkShutdownPhaseComplete e)) \<Longrightarrow> eng_st (snd (MarkShutdownPhaseComplete e)) = eng_st e"
      "\<not> d_Changed (fst (MarkRecoveryComplete e)) \<Longrightarrow> eng_st (snd (MarkRecoveryComplete e)) = eng_st e" for e
    by (auto simp: MarkShutdownPhaseComplete_def MarkRecoveryComplete_def)
  have "wp (policy_decide (Coordinator_MarkShutdownPhaseComplete (su_put su))) Q E c
     = wp (policy_decide (commit_decision (su_put su) (ctl_state c)
         (fst (MarkShutdownPhaseComplete (co_engine (ct_policy c))))
         (snd (MarkShutdownPhaseComplete (co_engine (ct_policy c)))))) Q E c"
    by (simp add: wp_def policy_decide_def Coordinator_MarkShutdownPhaseComplete_def ctl_state_def
        split_def Let_def)
  then show "wp (policy_decide (Coordinator_MarkShutdownPhaseComplete (su_put su))) Q E c"
    using decide [OF Mark_inv(1) [OF inv]] quiet(1) by (simp add: ctl_state_def Coordinator_State_def)
  have "wp (policy_decide (Coordinator_MarkRecoveryComplete (su_put su))) Q E c
     = wp (policy_decide (commit_decision (su_put su) (ctl_state c)
         (fst (MarkRecoveryComplete (co_engine (ct_policy c))))
         (snd (MarkRecoveryComplete (co_engine (ct_policy c)))))) Q E c"
    by (simp add: wp_def policy_decide_def Coordinator_MarkRecoveryComplete_def ctl_state_def
        split_def Let_def)
  then show "wp (policy_decide (Coordinator_MarkRecoveryComplete (su_put su))) Q E c"
    using decide [OF Mark_inv(2) [OF inv]] quiet(2) by (simp add: ctl_state_def Coordinator_State_def)
qed

lemma wp_phase_complete:
  assumes "lawful su c"
  shows "wp (phase_complete su) (\<lambda>_. lawful su) (\<lambda>_. lawful su) c"
  unfolding phase_complete_def wp_seqE wp_return by (rule wp_mark_decides(1) [OF assms])

lemma wp_request_group_fsd:
  assumes c: "downing su c" "all_resolved (sp_PreFSD (ctl_plan su)) c"
    and few: "\<forall>hid \<in> set (sp_NUTGroup (ctl_plan su)). hs_ShutdownAttempts (host_of c hid) < maxNUTFSDShutdownAttempts"
    and ids: "distinct (sp_NUTGroup (ctl_plan su))" "set (sp_NUTGroup (ctl_plan su)) \<inter> set (sp_PreFSD (ctl_plan su)) = {}"
    and prof: "nc_Profile (cf_NUT (su_Config su)) \<noteq> ''remote-client''"
  shows "wp (request_group_fsd su pb fsd now (sp_NUTGroup (ctl_plan su)) tx attempt) (\<lambda>_. lawful su) (\<lambda>_. lawful su) c"
proof -
  let ?ids = "sp_NUTGroup (ctl_plan su)" and ?ups = "nc_UPSName (cf_NUT (su_Config su))"
  let ?rest = "\<lambda>r. case r of
        Inl err \<Rightarrow>
          tryE (markNUTError su ?ids err)
            (\<lambda>e. throw (Joined [Message err, e]))
            (\<lambda>_. scheduleNUTFSDRetry now tx attempt)
      | Inr _ \<Rightarrow>
          seqE (clearNUTFSDRetry tx) (\<lambda>_.
          seqE (markNUTAcknowledged su ?ids) (\<lambda>_.
          seqE (verifyNUTGroup su pb ?ids) (\<lambda>_.
          phase_complete su)))"
  have fails: "wp (markNUTError su ?ids err) (\<lambda>_ s. lawful su s) (\<lambda>_ s. lawful su s) s" if "lawful su s" for err s
    by (rule wp_mark_lawful(1) [OF that])
  have passes: "wp (markNUTAcknowledged su ?ids) (\<lambda>_. wp (verifyNUTGroup su pb ?ids)
      (\<lambda>_. wp (phase_complete su) (\<lambda>_. lawful su) (\<lambda>_. lawful su)) (\<lambda>_. lawful su)) (\<lambda>_. lawful su) s"
    if "lawful su s" for s
    by (rule wp_conseq [OF wp_mark_lawful(2) [OF that]])
      (auto intro: wp_phase_complete wp_conseq [OF wp_mark_lawful(3)])
  have rest: "wp (?rest r) (\<lambda>_. lawful su) (\<lambda>_. lawful su) s" if "lawful su s" for r s
    using that fails passes
    by (cases r) (simp_all add: scheduleNUTFSDRetry_def clearNUTFSDRetry_def)
  have "wp (ask (fsd ?ups (upsmonPath su))) (\<lambda>r. wp (?rest r) (\<lambda>_. lawful su) (\<lambda>_. lawful su)) (\<lambda>_. lawful su)
      (s\<lparr>ct_trace := ct_trace s @ [EvFSD ?ups (ct_persisted s)]\<rparr>)"
    if "downing su s \<and> all_resolved (sp_PreFSD (ctl_plan su)) s \<and> (\<forall>hid \<in> set ?ids. nut_ready (host_of s hid))" for s
    using that by (intro wp_ask rest) (simp add: event_fsd_lawful [OF _ _ _ prof])
  then show ?thesis
    unfolding request_group_fsd_def Let_def wp_seqE wp_record_event
    by (intro wp_conseq [OF wp_markNUTRequested [OF c few ids]]) auto
qed

lemma wp_enterNUTGroupFailedSafe:
  assumes "lawful su c"
  shows "wp (enterNUTGroupFailedSafe su ids reason) (\<lambda>_. lawful su) (\<lambda>_. lawful su) c"
proof -
  let ?f = "\<lambda>hid st. let hs = lookup_host (hosts_of st) hid in
      if hs_ShutdownState hs = ShutdownCompleted then st
      else put_host hid (hs\<lparr>hs_ShutdownState := ShutdownFailed, hs_LastError := reason\<rparr>) st"
  have "txn_inv st \<Longrightarrow> txn_inv (fold ?f ids st)" for st
    by (rule fold_invariant [where Q = "\<lambda>_. True"])
      (auto simp: Let_def txn_inv_cong [of "put_host _ _ _"])
  then have "txn_inv (fold ?f ids (cloneState (ctl_state c)))"
    using assms txn_inv_cong [of "cloneState (ctl_state c)" "ctl_state c"] by (simp add: lawful_def)
  then have "txn_inv ((fold ?f ids (cloneState (ctl_state c)))\<lparr>st_PowerState := FailedSafe, st_FailedSafeReason := reason\<rparr>)"
    by (intro txn_inv_moves(4)) (simp add: txn_inv_def)
  then show ?thesis
    unfolding enterNUTGroupFailedSafe_def wp_seqE wp_getS wp_return
    by (intro wp_write_lawful [OF assms]) auto
qed

lemma maxNUTAttempts_bound:
  assumes "maxNUTAttempts ids c < n"
  shows "\<forall>hid \<in> set ids. hs_ShutdownAttempts (host_of c hid) < n"
proof -
  have "fold (\<lambda>hid n. max n (hs_ShutdownAttempts (ctl_host hid c))) ids m < n \<Longrightarrow>
      m < n \<and> (\<forall>hid \<in> set ids. hs_ShutdownAttempts (host_of c hid) < n)" for m
  proof (induction ids arbitrary: m)
    case (Cons a ids)
    then show ?case
      using Cons.IH [of "max m (hs_ShutdownAttempts (ctl_host a c))"] by (simp add: ctl_host_host_of)
  qed simp
  then show ?thesis using assms by (auto simp: maxNUTAttempts_def)
qed

lemma wp_shutdown_nut_group:
  assumes c: "downing su c" "all_resolved (sp_PreFSD (ctl_plan su)) c"
    and ids: "distinct (sp_NUTGroup (ctl_plan su))" "set (sp_NUTGroup (ctl_plan su)) \<inter> set (sp_PreFSD (ctl_plan su)) = {}"
  shows "wp (shutdown_nut_group su pb now (sp_NUTGroup (ctl_plan su))) (\<lambda>_. lawful su) (\<lambda>_. lawful su) c"
proof -
  let ?ids = "sp_NUTGroup (ctl_plan su)"
  have due: "wp (shouldAttemptNUTFSD now tx) (\<lambda>b. wp (if \<not> b then return ()
      else request_group_fsd su pb fsd now ?ids tx n) (\<lambda>_. lawful su) (\<lambda>_. lawful su)) (\<lambda>_. lawful su) s"
    if s: "downing su s" "all_resolved (sp_PreFSD (ctl_plan su)) s"
      "\<not> maxNUTFSDShutdownAttempts \<le> maxNUTAttempts ?ids s"
      and prof: "nc_Profile (cf_NUT (su_Config su)) \<noteq> ''remote-client''" for s fsd tx n
  proof -
    let ?t = "if ct_nutFSDTransactionID s \<noteq> tx
        then s\<lparr>ct_nutFSDTransactionID := tx, ct_nutFSDNextAttempt := None\<rparr> else s"
    have "host_of ?t = host_of s" by (simp add: host_of_def fun_eq_iff)
    then have "wp (request_group_fsd su pb fsd now ?ids tx n) (\<lambda>_. lawful su) (\<lambda>_. lawful su) ?t" "lawful su ?t"
      using s maxNUTAttempts_bound [of ?ids s]
      by (auto intro!: wp_request_group_fsd ids prof simp: all_resolved_def downing_lawful)
    then show ?thesis
      by (cases "ct_nutFSDTransactionID s = tx") (simp_all add: shouldAttemptNUTFSD_def)
  qed
  show ?thesis
    unfolding shutdown_nut_group_def
    using downing_lawful [OF c(1)]
    by (auto simp: downing_lawful split: option.split
        intro!: wp_conseq [OF wp_prepareNUTGroup [OF c]] wp_enterNUTGroupFailedSafe due)
qed

lemma wp_executeShutdown:
  assumes c: "downing su c"
    and ids: "distinct (sp_NUTGroup (ctl_plan su))" "set (sp_NUTGroup (ctl_plan su)) \<inter> set (sp_PreFSD (ctl_plan su)) = {}"
  shows "wp (executeShutdown su now) (\<lambda>_. lawful su) (\<lambda>_. lawful su) c"
proof (cases "su_Probe su = None \<or> su_Shutdown su = None")
  case True
  then show ?thesis
    using downing_lawful [OF c] by (auto simp: executeShutdown_def split: option.split)
next
  case False
  then obtain pb sd where deps: "su_Probe su = Some pb" "su_Shutdown su = Some sd" by auto
  have "wp (settle_all su pb sd (sp_PreFSD (ctl_plan su)))
     (\<lambda>b s. lawful su s \<and> (b \<longrightarrow> downing su s \<and> all_resolved (sp_PreFSD (ctl_plan su) @ []) s)) (\<lambda>_. lawful su) c"
    by (rule wp_settle_all [OF subset_refl c]) (simp add: all_resolved_def)
  then show ?thesis
    unfolding executeShutdown_def deps ctl_plan_def [symmetric] Let_def option.case prod.case wp_seqE
    by (rule wp_conseq) (auto intro: wp_shutdown_nut_group [OF _ _ ids] wp_phase_complete)
qed

end

lemma plan_ids_disjoint:
  assumes "distinct (map hc_ID (cf_Hosts (su_Config su)))"
  shows "distinct (sp_NUTGroup (ctl_plan su))"
    "set (sp_NUTGroup (ctl_plan su)) \<inter> set (sp_PreFSD (ctl_plan su)) = {}"
proof -
  let ?hs = "toHostConfigs (cf_Hosts (su_Config su))"
  have d: "distinct (map hp_ID ?hs)"
    using assms by (simp add: toHostConfigs_def toHostConfig_def comp_def)
  then show "distinct (sp_NUTGroup (ctl_plan su))"
    by (simp add: ctl_plan_def BuildShutdownPlan_def Let_def distinct_map inj_on_def)
  show "set (sp_NUTGroup (ctl_plan su)) \<inter> set (sp_PreFSD (ctl_plan su)) = {}"
  proof (rule ccontr)
    assume "set (sp_NUTGroup (ctl_plan su)) \<inter> set (sp_PreFSD (ctl_plan su)) \<noteq> {}"
    then obtain a b where "a \<in> set ?hs" "b \<in> set ?hs" "hp_ID a = hp_ID b"
        "hp_ShutdownMethod a = ''nut''" "direct_method (hp_ShutdownMethod b)"
      by (fastforce simp: ctl_plan_def BuildShutdownPlan_def Let_def)
    moreover from this d have "a = b" by (auto simp: distinct_map inj_on_def)
    ultimately show False by (simp add: direct_method_def)
  qed
qed

end
