(* ===== verification/Recovery_Order.thy ===== *)
theory Recovery_Order
  imports Shutdown_Order
begin

text \<open>
  The same for the operations outside the shutdown phase: restoring hosts and opening an outage.
\<close>

section \<open>The recovery phase\<close>

lemma cfg_by_id_lookup:
  assumes "distinct (map hp_ID hosts)" "h \<in> set hosts"
  shows "fmlookup (cfg_by_id hosts) (hp_ID h) = Some h"
proof -
  have "distinct (map hp_ID hosts) \<Longrightarrow> h \<in> set hosts \<or> (hp_ID h \<notin> hp_ID ` set hosts \<and> fmlookup m (hp_ID h) = Some h) \<Longrightarrow>
      fmlookup (fold (\<lambda>h m. fmupd (hp_ID h) h m) hosts m) (hp_ID h) = Some h" for m
  proof (induction hosts arbitrary: m)
    case (Cons a hosts)
    then show ?case by (auto simp: image_iff)
  qed simp
  then show ?thesis using assms by (simp add: cfg_by_id_def)
qed

lemma first_ready_sound:
  "first_ready byID states plan = Some cfg \<Longrightarrow>
     \<exists>hid \<in> set plan. cfg = cfg_at byID hid \<and> list_all (dep_ready byID states) (hp_DependsOn cfg)"
  by (induction plan) (auto simp: Let_def split: if_splits)

lemma eligible_map_range:
  "fmlookup (eligible_map hosts states) hid = Some h \<Longrightarrow> h \<in> set hosts \<and> hp_ID h = hid"
proof -
  let ?ok = "\<lambda>el. \<forall>hid h. fmlookup el hid = Some h \<longrightarrow> h \<in> set hosts \<and> hp_ID h = hid"
  have "?ok (eligible_map hosts states)"
    unfolding eligible_map_def
    by (rule fold_invariant [where Q = "\<lambda>h. h \<in> set hosts"]) (auto split: option.splits if_splits)
  then show "fmlookup (eligible_map hosts states) hid = Some h \<Longrightarrow> h \<in> set hosts \<and> hp_ID h = hid" by blast
qed

lemma NextRecoveryHost_sound:
  assumes d: "distinct (map hp_ID hosts)" and n: "NextRecoveryHost hosts states = Inr (Some cfg)"
  shows "cfg \<in> set hosts \<and> EligibleForRestore cfg (lookup_host states (hp_ID cfg))
    \<and> list_all (dep_ready (cfg_by_id hosts) states) (hp_DependsOn cfg) \<and> hp_ID cfg \<notin> set (hp_DependsOn cfg)"
proof -
  obtain plan where plan: "BuildRecoveryPlan hosts states = Some plan"
    and fr: "first_ready (cfg_by_id hosts) states plan = Some cfg"
    using n by (auto simp: NextRecoveryHost_def split: option.splits)
  let ?el = "eligible_map hosts states"
  have g: "plan = greedy ?el []" "set plan = fset (fmdom ?el)"
    using plan by (auto simp: BuildRecoveryPlan_greedy Let_def split: if_splits)
  obtain hid where hid: "hid \<in> set plan" "cfg = cfg_at (cfg_by_id hosts) hid"
      "list_all (dep_ready (cfg_by_id hosts) states) (hp_DependsOn cfg)"
    using first_ready_sound [OF fr] by blast
  obtain h st where h: "h \<in> set hosts" "hp_ID h = hid" "fmlookup states hid = Some st" "EligibleForRestore h st"
    using hid(1) g(2) eligible_map_dom by blast
  have c: "cfg = h" using cfg_by_id_lookup [OF d h(1)] hid(2) h(2) by (simp add: cfg_at_def)
  have el: "cfg_at ?el hid = h"
  proof -
    have "hid |\<in>| fmdom ?el" using hid(1) g(2) by auto
    then have "fmlookup ?el hid = Some (cfg_at ?el hid)" by (auto simp: cfg_at_def fmlookup_dom_iff)
    then have "cfg_at ?el hid \<in> set hosts \<and> hp_ID (cfg_at ?el hid) = hid"
      using eligible_map_range by blast
    then show ?thesis using h(1,2) d by (auto simp: distinct_map inj_on_def)
  qed
  have "hid \<notin> set (hp_DependsOn h)"
  proof
    assume self: "hid \<in> set (hp_DependsOn h)"
    have o: "ordered ?el plan" using greedy_ordered [of ?el "[]"] g(1) by (simp add: ordered_def)
    obtain i where i: "i < length plan" "plan ! i = hid" using hid(1) by (metis in_set_conv_nth)
    have "hid \<in> set (deps_in ?el hid)" using self el hid(1) g(2) by (simp add: deps_in_def)
    then have "hid \<in> set (take i plan)" using o i by (auto simp: ordered_def)
    then obtain j where "j < i" "plan ! j = hid" by (auto simp: in_set_conv_nth)
    then show False using o i by (auto simp: ordered_def nth_eq_iff_index_eq)
  qed
  then show ?thesis
    using h c hid(3) by (simp add: lookup_host_def)
qed

lemma dep_ready_upd:
  "dep \<noteq> hid \<Longrightarrow> dep_ready byID (fmupd hid hs states) dep = dep_ready byID states dep"
  by (simp add: dep_ready_def split: option.split)

lemma Eligible_cong: "hs_WasOnline a = hs_WasOnline b \<Longrightarrow> EligibleForRestore cfg a = EligibleForRestore cfg b"
  by (simp add: EligibleForRestore_def)

text \<open>A transaction in the restoration phase, with its own host table.\<close>

definition restoring :: "power_txn \<Rightarrow> bool" where
  "restoring st \<longleftrightarrow> st_PowerState st = RestoreHosts \<and> st_RecoveryStarted st \<and> txn_inv st"

lemma restoring_put [simp]: "restoring (put_host hid hs st) = restoring st"
  using txn_inv_cong [of "put_host hid hs st" st] by (simp add: restoring_def)

lemma event_wake_lawful:
  assumes n: "NextRecoveryHost hosts (hosts_of st) = Inr (Some cfg)"
    and hosts: "hosts = toHostConfigs (cf_Hosts (su_Config su))" "distinct (map hp_ID hosts)"
    and c: "lawful su c" "ct_persisted c = Some (ctl_state c)"
      "txn_content (ctl_state c) = txn_content (put_host (hp_ID cfg) hs' st)" "restoring st"
    and hs': "hs_RecoveryState hs' = RecoveryWOLSent" "hs_WakeAttempts hs' \<le> effective_max_attempts cfg"
      "hs_WasOnline hs' = hs_WasOnline (lookup_host (hosts_of st) (hp_ID cfg))"
  shows "lawful su (c\<lparr>ct_trace := ct_trace c @ [EvWake (hp_ID cfg) (ct_persisted c)]\<rparr>)"
proof -
  note s = NextRecoveryHost_sound [OF hosts(2) n]
  have h: "hosts_of (ctl_state c) = fmupd (hp_ID cfg) hs' (hosts_of st)"
    using txn_content_hosts [OF c(3)] by simp
  have "list_all (dep_ready (cfg_by_id hosts) (hosts_of (ctl_state c))) (hp_DependsOn cfg)"
    using s unfolding h list_all_iff by (metis dep_ready_upd)
  moreover have "EligibleForRestore cfg hs'" using s Eligible_cong [OF hs'(3)] by blast
  moreover have "st_PowerState (ctl_state c) = RestoreHosts" "st_RecoveryStarted (ctl_state c)"
    using txn_contentD [OF c(3)] c(4) by (simp_all add: restoring_def)
  ultimately have "allowed su (EvWake (hp_ID cfg) (Some (ctl_state c)))"
    using s hs'(1,2) hosts(1) by (auto simp: h lookup_host_upd)
  then show ?thesis using c(1,2) by (simp add: lawful_def)
qed

context durable_ctl
begin

lemma wp_alias_hosts:
  assumes "lawful su c" "st_PowerState (ctl_state c) \<noteq> ShutdownInProgress" "\<And>c'. lawful su c' \<Longrightarrow> ct_trace c' = ct_trace c \<Longrightarrow>
      ctl_state c' = (ctl_state c)\<lparr>st_Hosts := Some m\<rparr> \<Longrightarrow> Q () c'"
  shows "wp (alias_hosts m) Q E c"
proof -
  let ?c = "c\<lparr>ct_policy := set_st ((Coordinator_State (ct_policy c))\<lparr>st_Hosts := Some m\<rparr>) (ct_policy c)\<rparr>"
  have "ctl_state ?c = (ctl_state c)\<lparr>st_Hosts := Some m\<rparr>" by (simp add: ctl_state_def)
  moreover from this have "lawful su ?c"
    using assms(1) txn_inv_cong [of "(ctl_state c)\<lparr>st_Hosts := Some m\<rparr>" "ctl_state c"]
      by (simp add: lawful_def assms(2))
  ultimately show ?thesis using assms(3) [of ?c] by (simp add: alias_hosts_def)
qed

lemma wp_wake_host:
  assumes "lawful su (c\<lparr>ct_trace := ct_trace c @ [EvWake hid (ct_persisted c)]\<rparr>)" "txn_inv persisted"
    "st_PowerState (ctl_state c) \<noteq> ShutdownInProgress"
  shows "wp (wake_host su rv hid persisted) (\<lambda>_. lawful su) (\<lambda>_. lawful su) c"
proof -
  have inv: "txn_inv (put_host hid hs persisted)" for hs
    using assms(2) txn_inv_cong [of "put_host hid hs persisted" persisted] by simp
  have "wp (policy_write su (put_host hid hs persisted)) (\<lambda>_. lawful su) (\<lambda>_. lawful su) s"
    if "lawful su s" for hs s
    by (rule wp_write_lawful [OF that inv])
  then show ?thesis
    unfolding wake_host_def Let_def using assms(1,3)
    by (auto intro!: wp_ask wp_alias_hosts split: sum.split)
qed

lemma wp_RunNext:
  assumes c: "lawful su c" and st: "restoring st"
    and hosts: "hosts = toHostConfigs (cf_Hosts (su_Config su))" "distinct (map hp_ID hosts)"
  shows "wp (RunNext su rv st hosts) (\<lambda>_. lawful su) (\<lambda>_. lawful su) c"
proof (cases "NextRecoveryHost hosts (hosts_of st)")
  case (Inl u)
  then show ?thesis using c by (simp add: RunNext_def)
next
  case (Inr r)
  show ?thesis
  proof (cases r)
    case None
    then show ?thesis using Inr c by (simp add: RunNext_def)
  next
    case (Some cfg)
    let ?hid = "hp_ID cfg"
    let ?hs = "lookup_host (hosts_of st) ?hid"
    have inv: "txn_inv (put_host ?hid hs st)" for hs
      using st txn_inv_cong [of "put_host ?hid hs st" st] by (simp add: restoring_def)
    have plain: "wp (policy_write su (put_host ?hid hs st)) (\<lambda>_. lawful su) (\<lambda>_. lawful su) s"
      if "lawful su s" for hs s
      by (rule wp_write_lawful [OF that inv])
    have wake: "wp (policy_write su (put_host ?hid (?hs\<lparr>hs_WakeAttempts := n, hs_RecoveryState := RecoveryWOLSent,
           hs_LastActionID := a, hs_LastVerification := v, hs_LastError := e\<rparr>) st))
        (\<lambda>x. wp (wake_host su rv ?hid x) (\<lambda>_. lawful su) (\<lambda>_. lawful su)) (\<lambda>_. lawful su) s"
      if "lawful su s" "n \<le> effective_max_attempts cfg" for n a v e s
    proof (rule wp_write_lawful [OF that(1) inv])
      fix c' :: "('w, 'x) controller"
      assume c': "txn_content (ctl_state c') = txn_content (put_host ?hid (?hs\<lparr>hs_WakeAttempts := n,
            hs_RecoveryState := RecoveryWOLSent, hs_LastActionID := a, hs_LastVerification := v, hs_LastError := e\<rparr>) st)"
        "ct_persisted c' = Some (ctl_state c')" "lawful su c'"
      show "wp (wake_host su rv ?hid (ctl_state c')) (\<lambda>_. lawful su) (\<lambda>_. lawful su) c'"
        using event_wake_lawful [OF Inr [unfolded Some] hosts c'(3,2,1) st] that(2) c'(3)
          txn_contentD [OF c'(1)] st
        by (intro wp_wake_host) (simp_all add: lawful_def restoring_def)
    qed
    show ?thesis
      unfolding RunNext_def Inr Some Let_def sum.case option.case wp_seqE
      by (rule wp_ask) (use c in \<open>simp add: plain wake\<close>)
  qed
qed

end

definition same_flags :: "power_txn \<Rightarrow> power_txn \<Rightarrow> bool" where
  "same_flags a b \<longleftrightarrow> st_PowerState a = st_PowerState b
     \<and> st_ShutdownCommitted a = st_ShutdownCommitted b \<and> st_RecoveryStarted a = st_RecoveryStarted b"

lemma same_flags_inv: "same_flags a b \<Longrightarrow> txn_inv a = txn_inv b"
  unfolding same_flags_def by (intro txn_inv_cong) auto

context durable_ctl
begin

lemma wp_recovery_complete:
  assumes "lawful su c"
  shows "wp (recovery_complete su) (\<lambda>_. lawful su) (\<lambda>_. lawful su) c"
proof -
  have "wp (policy_decide (Coordinator_MarkRecoveryComplete (su_put su))) (\<lambda>_. lawful su) (\<lambda>_. lawful su) c'"
    if "lawful su c'" for c'
    by (rule wp_mark_decides(2) [OF that])
  then show ?thesis
    using assms by (simp add: recovery_complete_def resetRecoveryWakeDelay_def)
qed

lemma wp_wake_delayed:
  assumes "lawful su c"
    and "\<And>b c'. lawful su c' \<Longrightarrow> ctl_state c' = ctl_state c \<Longrightarrow> Q b c'"
  shows "wp (wake_delayed now nxt states) Q E c"
  using assms by (simp add: wake_delayed_def Let_def)

lemma wp_run_recovery:
  assumes c: "lawful su c" and st: "restoring st"
    and hosts: "hosts = toHostConfigs (cf_Hosts (su_Config su))" "distinct (map hp_ID hosts)"
  shows "wp (run_recovery su rv now hosts st n) (\<lambda>_. lawful su) (\<lambda>_. lawful su) c"
proof -
  have "restoring (cloneState st)"
    using st same_flags_inv [of "cloneState st" st] by (simp add: restoring_def same_flags_def)
  note run = wp_RunNext [OF c this hosts]
  show ?thesis
    unfolding run_recovery_def wp_seqE split_def
    by (rule wp_conseq [OF run]) (auto simp: wp_recovery_complete split: option.split)
qed

lemma wp_executeRecoveryStep:
  assumes c: "lawful su c" "st_PowerState (ctl_state c) = RestoreHosts"
    and ids: "distinct (map hc_ID (cf_Hosts (su_Config su)))"
  shows "wp (executeRecoveryStep su now) (\<lambda>_. lawful su) (\<lambda>_. lawful su) c"
proof -
  let ?hosts = "toHostConfigs (cf_Hosts (su_Config su))"
  have hosts: "distinct (map hp_ID ?hosts)"
    using ids by (simp add: toHostConfigs_def toHostConfig_def comp_def)
  have r0: "restoring (ctl_state c)" using c by (simp add: restoring_def lawful_def txn_inv_def)
  have rest: "wp (continue_recovery su rv now ?hosts st) (\<lambda>_. lawful su) (\<lambda>_. lawful su) s"
    if "lawful su s" "restoring st" for rv st s
    using that
    by (auto simp: continue_recovery_def wp_recovery_complete wp_run_recovery [OF _ _ refl hosts]
        split: sum.split option.split intro!: wp_wake_delayed)
  have blocked: "wp (alias_hosts m) (\<lambda>_. wp (policy_write su ((ctl_state c)\<lparr>st_Hosts := Some m\<rparr>))
      (\<lambda>_ s. wp (continue_recovery su rv now ?hosts (ctl_state s)) (\<lambda>_. lawful su) (\<lambda>_. lawful su) s)
      (\<lambda>_. lawful su)) (\<lambda>_. lawful su) c" for rv m
  proof (intro wp_alias_hosts [OF c(1)] wp_write_lawful)
    show "st_PowerState (ctl_state c) \<noteq> ShutdownInProgress" using c(2) by simp
    show inv: "txn_inv ((ctl_state c)\<lparr>st_Hosts := Some m\<rparr>)"
      using r0 same_flags_inv [of "(ctl_state c)\<lparr>st_Hosts := Some m\<rparr>" "ctl_state c"]
      by (simp add: restoring_def same_flags_def)
    fix s :: "('w, 'x) controller"
    assume s: "txn_content (ctl_state s) = txn_content ((ctl_state c)\<lparr>st_Hosts := Some m\<rparr>)" "lawful su s"
    then have "restoring (ctl_state s)"
      using txn_contentD [OF s(1)] r0 by (simp add: restoring_def lawful_def)
    then show "wp (continue_recovery su rv now ?hosts (ctl_state s)) (\<lambda>_. lawful su) (\<lambda>_. lawful su) s"
      by (rule rest [OF s(2)])
  qed
  show ?thesis
    using c(1) r0 rest blocked
    by (auto simp: executeRecoveryStep_def Let_def split: option.split prod.split)
qed

lemma wp_snapshot_loop:
  assumes "lawful su c"
    and "\<And>st' c'. lawful su c' \<Longrightarrow> ctl_state c' = ctl_state c \<Longrightarrow> same_flags st' st \<Longrightarrow> Q st' c'"
  shows "wp (snapshot_loop pb ok hosts st) Q E c"
  using assms
proof (induction hosts arbitrary: st c)
  case Nil
  then show ?case by (simp add: same_flags_def)
next
  case (Cons h hosts)
  have "wp (snapshot_loop pb ok hosts st') Q E c'"
    if "lawful su c'" "ctl_state c' = ctl_state c" "same_flags st' st" for st' c'
    using that Cons.prems(2) by (intro Cons.IH) (auto simp: same_flags_def)
  then show ?case
    using Cons.prems(1) by (auto simp: Let_def same_flags_def intro!: wp_ask)
qed

lemma wp_snapshotHosts:
  assumes "lawful su c"
  shows "wp (snapshotHosts su ok) (\<lambda>_ s. lawful su s \<and> st_PowerState (ctl_state s) = st_PowerState (ctl_state c))
    (\<lambda>_. lawful su) c"
proof (cases "su_Probe su")
  case None
  then show ?thesis using assms by (simp add: snapshotHosts_def)
next
  case (Some pb)
  let ?Q = "\<lambda>_ s. lawful su s \<and> st_PowerState (ctl_state s) = st_PowerState (ctl_state c)"
  have inv: "txn_inv st'" if "same_flags st' (cloneState (ctl_state c))" for st'
    using that same_flags_inv [of st' "ctl_state c"] assms by (simp add: same_flags_def lawful_def)
  have "wp (policy_write su st') ?Q (\<lambda>_. lawful su) c'"
    if "lawful su c'" "same_flags st' (cloneState (ctl_state c))" for st' c'
  proof (rule wp_write_lawful [OF that(1) inv [OF that(2)]])
    fix s :: "('w, 'x) controller"
    assume s: "txn_content (ctl_state s) = txn_content st'" "lawful su s"
    then show "?Q (ctl_state s) s"
      using txn_contentD [OF s(1)] that(2) by (simp add: same_flags_def)
  qed simp
  then show ?thesis
    using Some assms by (auto simp: snapshotHosts_def intro!: wp_snapshot_loop)
qed

lemma wp_beginFreshOutage:
  assumes "lawful su c" "st_PowerState (ctl_state c) = OnBattery"
  shows "wp (beginFreshOutage su) (\<lambda>_ s. lawful su s \<and> st_PowerState (ctl_state s) = OnBattery) (\<lambda>_. lawful su) c"
proof -
  let ?Q = "\<lambda>_ s. lawful su s \<and> st_PowerState (ctl_state s) = OnBattery"
  have snap: "wp (snapshotHosts su True) ?Q (\<lambda>_. lawful su) s"
    if "lawful su s" "txn_content (ctl_state s) = txn_content (fresh_outage st)" "st_PowerState st = OnBattery" for s st
    using wp_snapshotHosts [OF that(1), of True] txn_contentD [OF that(2)] that(3)
    by (simp add: fresh_outage_def)
  have "wp (policy_write su (fresh_outage st)) (\<lambda>_. wp (snapshotHosts su True) ?Q (\<lambda>_. lawful su))
      (\<lambda>_. lawful su) c'" if "lawful su c'" "st_PowerState st = OnBattery" for st c'
    using that by (intro wp_write_lawful snap) (simp_all add: fresh_outage_def txn_inv_def)
  then show ?thesis
    using assms
    by (auto simp: beginFreshOutage_def resetRecoveryWakeDelay_def split: option.split intro!: wp_draw)
qed

end

end
