(* ===== verification/Orchestrator_Props.thy ===== *)
theory Orchestrator_Props
  imports Recovery_Order Policy_Props
begin

text \<open>
  The tick as a whole, runs of ticks with observations, crashes and restarts between them, and what
  holds of every command sent in such a run.
\<close>

section \<open>What a step of the policy leads to\<close>

text \<open>The power states that go with the actions, and that no decision leads back into a shutdown.\<close>

definition leads :: "decision \<times> engine \<Rightarrow> bool" where
  "leads r \<longleftrightarrow> st_PowerState (eng_st (snd r)) \<noteq> ShutdownInProgress
     \<and> (d_Action (fst r) = ActionCommitShutdown \<longrightarrow> st_PowerState (eng_st (snd r)) = ShutdownCommitted)
     \<and> (d_Action (fst r) = ActionStartRestore \<longrightarrow> st_PowerState (eng_st (snd r)) = RestoreHosts)"

lemma leads_branches:
  assumes "st_PowerState (eng_st e) \<noteq> ShutdownInProgress"
  shows "leads (commitShutdown r e)" "leads (failSafe r e)" "leads (stepNormal now inp e)"
    "leads (stepWaitingForAC now inp e)" "leads (stepRecoveryStarted now inp e)" "leads (stepRestoreHosts now inp e)"
  using assms
  by (simp_all add: leads_def commitShutdown_def failSafe_def stepNormal_def stepWaitingForAC_def
      stepRecoveryStarted_def stepRestoreHosts_def Let_def)

lemma leads_recovery_wait:
  assumes "st_PowerState (eng_st e) \<noteq> ShutdownInProgress"
  shows "leads (stepRecoveryWait now inp e)"
  using assms
  by (cases "eng_onlineSince e"; cases "eng_networkWaitSince e")
    (simp_all add: leads_def failSafe_def stepRecoveryWait_def Let_def)

lemma leads_on_battery:
  assumes "st_PowerState (eng_st e) = OnBattery"
  shows "leads (stepOnBattery now inp e)"
proof (cases "outage_commits now inp e")
  case True
  then show ?thesis
    using stepOnBattery_commits [of now inp e] stepOnBattery_commit_iff [of now inp e] by (simp add: leads_def)
next
  case False
  moreover have "d_Action (fst (stepOnBattery now inp e)) \<noteq> ActionStartRestore"
    using False stepOnBattery_holds [of now inp e] stepOnBattery_online [of inp e now]
    by (metis action.distinct(5) action.distinct linorder_not_le)
  ultimately show ?thesis
    using stepOnBattery_power [of now inp e] stepOnBattery_commit_iff [of now inp e] assms
    by (auto simp: leads_def)
qed

lemma leads_boot:
  "st_PowerState (eng_st e) = BootReconcile \<Longrightarrow> fst (reconcileBoot now inp e) = Inr d \<Longrightarrow>
     leads (d, snd (reconcileBoot now inp e))"
  by (auto simp: reconcileBoot_def leads_def Let_def split: if_splits)

lemma Step_leads:
  assumes "fst (Step now inp e) = Inr d"
    and "st_PowerState (eng_st e) \<noteq> ShutdownInProgress" "st_PowerState (eng_st e) \<noteq> ShutdownCommitted"
  shows "leads (d, snd (Step now inp e))"
  using assms leads_boot [of e now inp d] leads_on_battery [of e now inp]
    leads_branches [OF assms(2)] leads_recovery_wait [OF assms(2)]
  by (cases "st_PowerState (eng_st e)") (auto simp: Step_def leads_def split: if_splits)

lemma Step_in_shutdown:
  assumes "txn_inv (eng_st e)"
  shows "st_PowerState (eng_st e) = ShutdownCommitted \<Longrightarrow>
      Step now inp e = (Inr (changed ActionNone R_shutdown_transaction_committed),
        with_st (\<lambda>st. st\<lparr>st_PowerState := ShutdownInProgress\<rparr>) e)"
    "st_PowerState (eng_st e) = ShutdownInProgress \<Longrightarrow> Step now inp e = (Inr (unchanged ''''), e)"
  using assms by (simp_all add: Step_def txn_inv_def)

text \<open>The three facts the tick needs, whatever the state before.\<close>

lemma Step_outcome:
  assumes "txn_inv (eng_st e)" "fst (Step now inp e) = Inr d"
  shows "\<not> d_Changed d \<Longrightarrow> st_PowerState (eng_st (snd (Step now inp e))) = ShutdownInProgress \<Longrightarrow>
      eng_st (snd (Step now inp e)) = eng_st e"
    and "d_Action d = ActionCommitShutdown \<Longrightarrow> st_PowerState (eng_st (snd (Step now inp e))) = ShutdownCommitted"
    and "d_Action d = ActionStartRestore \<Longrightarrow> st_PowerState (eng_st (snd (Step now inp e))) = RestoreHosts"
  using Step_leads [OF assms(2)] Step_in_shutdown [OF assms(1), of now inp] assms(2)
  by (cases "st_PowerState (eng_st e) \<in> {ShutdownInProgress, ShutdownCommitted}"; auto simp: leads_def)+

section \<open>One tick\<close>

lemma wp_then: "wp m Q' E c \<Longrightarrow> (\<And>x s. Q' x s \<Longrightarrow> wp (f x) Q E s) \<Longrightarrow> wp (seqE m f) Q E c"
  unfolding wp_seqE by (rule wp_conseq)

lemma wp_if: "(b \<Longrightarrow> wp m Q E c) \<Longrightarrow> (\<not> b \<Longrightarrow> wp n Q E c) \<Longrightarrow> wp (if b then m else n) Q E c"
  by simp

context durable_ctl
begin

abbreviation safe :: "(('w, 'x) controller, 'e ctl_error, 'a) proc \<Rightarrow> ('w, 'x) controller \<Rightarrow> bool" where
  "safe m \<equiv> wp m (\<lambda>_. lawful su) (\<lambda>_. lawful su)"

lemma wp_policy_step:
  assumes c: "lawful su c"
    and pass: "\<And>d c'. lawful su c' \<Longrightarrow> fst (Step now inp (co_engine (ct_policy c))) = Inr d \<Longrightarrow>
      st_PowerState (ctl_state c') = st_PowerState (eng_st (snd (Step now inp (co_engine (ct_policy c))))) \<Longrightarrow> Q d c'"
    and fail: "\<And>e c'. lawful su c' \<Longrightarrow> E e c'"
  shows "wp (policy_step su now inp) Q E c"
proof -
  let ?e = "co_engine (ct_policy c)"
  have inv: "txn_inv (eng_st ?e)" using c by (simp add: lawful_def ctl_state_def Coordinator_State_def)
  obtain d e' where s: "Step now inp ?e = (Inr d, e')"
    using Step_never_fails [OF inv] by (metis prod.collapse)
  have "wp (policy_decide (\<lambda>p. commit_decision (su_put su) (ctl_state c) d e' p)) Q E c"
  proof (rule wp_decide_lawful [OF c _ _ _ fail])
    show "txn_inv (eng_st e')" using Step_inv [OF inv, of now inp] s by simp
    show "\<not> d_Changed d \<Longrightarrow> st_PowerState (eng_st e') = ShutdownInProgress \<Longrightarrow> eng_st e' = ctl_state c"
      using Step_outcome(1) [OF inv, of now inp d] s by (simp add: ctl_state_def Coordinator_State_def)
    fix c' :: "('w, 'x) controller"
    assume c': "lawful su c'" "if d_Changed d then ct_persisted c' = Some (ctl_state c')
        \<and> txn_content (ctl_state c') = txn_content (eng_st e')
       else ct_persisted c' = ct_persisted c \<and> ctl_state c' = eng_st e'"
    then have "st_PowerState (ctl_state c') = st_PowerState (eng_st e')"
      using txn_contentD [of "ctl_state c'" "eng_st e'"] by (simp split: if_splits)
    then show "Q d c'" using pass [OF c'(1)] s by simp
  qed
  moreover have "wp (policy_step su now inp) Q E c
      = wp (policy_decide (\<lambda>p. commit_decision (su_put su) (ctl_state c) d e' p)) Q E c"
    by (simp add: wp_def policy_step_def policy_decide_def Coordinator_Step_def s ctl_state_def Let_def)
  ultimately show ?thesis by simp
qed

lemma safe_tick_phase:
  assumes ids: "distinct (map hc_ID (cf_Hosts (su_Config su)))" and c: "lawful su c"
  shows "safe (tick_phase su now d) c"
proof -
  let ?sd = "seqE (getS ctl_state) (\<lambda>st.
      if st_PowerState st = ShutdownInProgress \<and> d_Action d = ActionNone then executeShutdown su now else return ())"
  let ?rec = "seqE (getS ctl_state) (\<lambda>st.
      if st_PowerState st = RestoreHosts \<and> d_Action d = ActionNone then executeRecoveryStep su now else return ())"
  have "safe ?sd c"
    using c wp_executeShutdown [OF _ plan_ids_disjoint [OF ids], of c] by (simp add: downing_def)
  moreover have "safe (seqE ?rec (\<lambda>_. return d)) s" if "lawful su s" for s
    using that wp_executeRecoveryStep [OF that _ ids] by simp
  ultimately show ?thesis
    unfolding tick_phase_def by (rule wp_then)
qed

text \<open>What follows a decision that commits a shutdown: the second step makes it durable as in progress.\<close>

lemma safe_after_commit:
  assumes ids: "distinct (map hc_ID (cf_Hosts (su_Config su)))"
    and c: "lawful su c" "st_PowerState (ctl_state c) = ShutdownCommitted"
  shows "safe (seqE (policy_step su now inp) (\<lambda>_. seqE (executeShutdown su now) (\<lambda>_. tick_phase su now d))) c"
proof (rule wp_then)
  show "wp (policy_step su now inp) (\<lambda>_. downing su) (\<lambda>_. lawful su) c"
  proof (rule wp_policy_step [OF c(1)])
    fix d and c' :: "('w, 'x) controller"
    assume c': "lawful su c'"
      "st_PowerState (ctl_state c') = st_PowerState (eng_st (snd (Step now inp (co_engine (ct_policy c)))))"
    then show "downing su c'"
      using c Step_in_shutdown(1) [of "co_engine (ct_policy c)" now inp]
      by (simp add: downing_def lawful_def ctl_state_def Coordinator_State_def)
  qed
  show "safe (seqE (executeShutdown su now) (\<lambda>_. tick_phase su now d)) s" if "downing su s" for s
    by (rule wp_then [OF wp_executeShutdown [OF that plan_ids_disjoint [OF ids]]]) (rule safe_tick_phase [OF ids])
qed

lemma safe_Tick:
  assumes ids: "distinct (map hc_ID (cf_Hosts (su_Config su)))" and c: "lawful su c"
  shows "safe (Tick su now inp) c"
proof -
  let ?e = "co_engine (ct_policy c)"
  let ?agrees = "\<lambda>d s. lawful su s
      \<and> (d_Action d = ActionCommitShutdown \<longrightarrow> st_PowerState (ctl_state s) = ShutdownCommitted)
      \<and> (d_Action d = ActionStartRestore \<longrightarrow> st_PowerState (ctl_state s) = RestoreHosts)"
  have inv: "txn_inv (eng_st ?e)" using c by (simp add: lawful_def ctl_state_def Coordinator_State_def)
  have step: "wp (policy_step su now inp) ?agrees (\<lambda>_. lawful su) c"
    using Step_outcome(2,3) [OF inv] by (intro wp_policy_step [OF c]) auto
  have opens: "wp (if b \<and> st_PowerState (ctl_state s) = OnBattery then beginFreshOutage su
      else if b' \<and> st_PowerState (ctl_state s) = OnBattery then snapshotHosts su False else return ())
      (\<lambda>_. ?agrees d) (\<lambda>_. lawful su) s" if "?agrees d s" for b b' d s
    using that wp_conseq [OF wp_beginFreshOutage [of s]] wp_conseq [OF wp_snapshotHosts [of s False]]
    by (intro wp_if) auto
  have rest: "safe (case d_Action d of
       ActionCommitShutdown \<Rightarrow>
         seqE (policy_step su now inp) (\<lambda>_.
         seqE (executeShutdown su now) (\<lambda>_. tick_phase su now d))
     | ActionStartRestore \<Rightarrow>
         seqE (executeRecoveryStep su now) (\<lambda>_. tick_phase su now d)
     | ActionStopRecovery \<Rightarrow>
         seqE (getS (\<lambda>c. st_PowerState (ctl_state c))) (\<lambda>ps.
         seqE (if ps = OnBattery then beginFreshOutage su else return ()) (\<lambda>_.
         return d))
     | _ \<Rightarrow> tick_phase su now d) s" if s: "?agrees d s" for d s
  proof (cases "d_Action d")
    case ActionCommitShutdown
    then show ?thesis using s safe_after_commit [OF ids] by simp
  next
    case ActionStartRestore
    have "safe (seqE (executeRecoveryStep su now) (\<lambda>_. tick_phase su now d)) s"
      using s ActionStartRestore by (intro wp_then [OF wp_executeRecoveryStep [OF _ _ ids]] safe_tick_phase [OF ids]) auto
    then show ?thesis using ActionStartRestore by (simp only: action.case)
  next
    case ActionStopRecovery
    then show ?thesis
      using s wp_conseq [OF wp_beginFreshOutage [of s]] by simp
  qed (use s safe_tick_phase [OF ids] in simp_all)
  show ?thesis
    unfolding Tick_def wp_seqE wp_getS
    by (rule wp_conseq [OF step]; (rule wp_conseq [OF opens], assumption, rule rest)?; assumption)
qed

end

section \<open>Runs\<close>

text \<open>
  The agent after a start: a new engine and coordinator on the loaded transaction, no timers, and
  nothing known to be persisted. The trace outlives the process.
\<close>

definition boot_ctl :: "policy_config \<Rightarrow> power_txn \<Rightarrow> 'w \<Rightarrow> 'x \<Rightarrow> event list \<Rightarrow> ('w, 'x) controller" where
  "boot_ctl cfg p w x tr =
     \<lparr>ct_policy = NewCoordinator (New_Engine cfg p) w, ct_env = x, ct_lastRecoveryWakeAt = None,
      ct_lastRecoveryWakeHostID = '''', ct_resumeWakeDelayEvaluated = False, ct_nutFSDTransactionID = '''',
      ct_nutFSDNextAttempt = None, ct_persisted = None, ct_trace = tr\<rparr>"

text \<open>
  A loaded transaction that was shutting down is resumed as such: it is written again as a shutdown in
  progress before the first tick.
\<close>

definition resumes_shutdown :: "power_txn \<Rightarrow> bool" where
  "resumes_shutdown p \<longleftrightarrow> st_ShutdownCommitted p
     \<and> (st_PowerState p = ShutdownCommitted \<or> st_PowerState p = ShutdownInProgress)"

definition start_ctl ::
  "('w, 'x, 'e) ctl_deps \<Rightarrow> policy_config \<Rightarrow> power_txn \<Rightarrow> 'w \<Rightarrow> 'x \<Rightarrow> event list \<Rightarrow> ('w, 'x) controller" where
  "start_ctl su cfg p w x tr =
     (if resumes_shutdown p
      then snd (policy_write su (p\<lparr>st_PowerState := ShutdownInProgress\<rparr>) (boot_ctl cfg p w x tr))
      else boot_ctl cfg p w x tr)"

text \<open>
  Ticks on arbitrary observations at arbitrary times, UPS observations noted between them, changes of
  the environment, and crashes: a crash during a tick keeps some prefix of the commands the tick would
  have sent, and the agent starts again on any consistent transaction.
\<close>

inductive ctl_run :: "('w, 'x, 'e) ctl_deps \<Rightarrow> policy_config \<Rightarrow> ('w, 'x) controller \<Rightarrow> bool"
  for su :: "('w, 'x, 'e) ctl_deps" and cfg :: policy_config where
  start: "txn_inv p \<Longrightarrow> ctl_run su cfg (start_ctl su cfg p w x [])"
| tick: "ctl_run su cfg c \<Longrightarrow> ctl_run su cfg (snd (Tick su now inp c))"
| observe: "ctl_run su cfg c \<Longrightarrow> ctl_run su cfg (c\<lparr>ct_policy := ObserveUPS ob (ct_policy c)\<rparr>)"
| world: "ctl_run su cfg c \<Longrightarrow> ctl_run su cfg (c\<lparr>ct_env := x\<rparr>)"
| crash: "ctl_run su cfg c \<Longrightarrow> ct_trace (snd (Tick su now inp c)) = sent @ unsent \<Longrightarrow> txn_inv p \<Longrightarrow>
    ctl_run su cfg (start_ctl su cfg p w x sent)"

lemma boot_lawful:
  assumes "txn_inv p" "list_all (allowed su) tr"
  shows "lawful su (boot_ctl cfg p w x tr)"
proof -
  have "ctl_state (boot_ctl cfg p w x tr) = eng_st (New_Engine cfg p)"
    by (simp add: boot_ctl_def ctl_state_def Coordinator_State_def NewCoordinator_def)
  moreover have "st_PowerState (eng_st (New_Engine cfg p)) = BootReconcile"
    by (simp add: New_Engine_def Let_def)
  ultimately show ?thesis
    using assms txn_inv_boot [OF assms(1), of cfg] by (simp add: lawful_def boot_ctl_def)
qed

lemma observe_lawful: "lawful su c \<Longrightarrow> lawful su (c\<lparr>ct_policy := ObserveUPS ob (ct_policy c)\<rparr>)"
  using txn_inv_cong [of "(ctl_state c)\<lparr>st_LastUPS := Some ob\<rparr>" "ctl_state c"]
  by (auto simp: lawful_def synced_def ObserveUPS_def ctl_state_def txn_content_def)

context durable_ctl
begin

lemma lawful_tick:
  assumes "distinct (map hc_ID (cf_Hosts (su_Config su)))" "lawful su c"
  shows "lawful su (snd (Tick su now inp c))"
  using safe_Tick [OF assms, of now inp] by (auto simp: wp_def split: prod.splits sum.splits)

lemma start_lawful:
  assumes "txn_inv p" "list_all (allowed su) tr"
  shows "lawful su (start_ctl su cfg p w x tr)"
proof (cases "resumes_shutdown p")
  case True
  have "wp (policy_write su (p\<lparr>st_PowerState := ShutdownInProgress\<rparr>)) (\<lambda>_. lawful su) (\<lambda>_. lawful su)
      (boot_ctl cfg p w x tr)"
  proof (rule wp_write_lawful [OF boot_lawful [OF assms]])
    show "txn_inv (p\<lparr>st_PowerState := ShutdownInProgress\<rparr>)"
      using assms(1) True by (auto simp: txn_inv_def resumes_shutdown_def)
  qed
  then show ?thesis
    using True by (auto simp: start_ctl_def wp_def split: prod.splits sum.splits)
qed (simp add: start_ctl_def boot_lawful [OF assms])

lemma run_lawful:
  assumes "ctl_run su cfg c" and ids: "distinct (map hc_ID (cf_Hosts (su_Config su)))"
  shows "lawful su c"
  using assms(1)
proof induction
  case (crash c now inp sent unsent p w x)
  then show ?case
    using lawful_tick [OF ids, of c now inp] by (intro start_lawful) (simp_all add: lawful_def)
qed (simp_all add: start_lawful lawful_tick [OF ids] observe_lawful)

lemma run_allowed:
  assumes "ctl_run su cfg c" "distinct (map hc_ID (cf_Hosts (su_Config su)))" "ev \<in> set (ct_trace c)"
  shows "allowed su ev"
  using run_lawful [OF assms(1,2)] assms(3) by (simp add: lawful_def list_all_iff)

end

text \<open>The orchestrator over the store of the state package.\<close>

definition over_store :: "('b store_world, 'x, store_error) ctl_deps \<Rightarrow> ('b store_world, 'x, store_error) ctl_deps" where
  "over_store su = su\<lparr>su_put := store_put\<rparr>"

interpretation store_ctl: durable_ctl "over_store su" for su
  by unfold_locales (simp add: over_store_def store_put_preserves_content)

section \<open>A small fleet for the witnesses\<close>

definition demo_machine :: "string \<Rightarrow> string \<Rightarrow> string list \<Rightarrow> host_config" where
  "demo_machine hid method deps = zero_host_config\<lparr>hc_ID := hid, hc_Address := Some hid, hc_DependsOn := deps,
     hc_Status := (hc_Status zero_host_config)\<lparr>sc_Method := ''ping''\<rparr>,
     hc_Shutdown := (hc_Shutdown zero_host_config)\<lparr>sd_Method := method\<rparr>,
     hc_Wake := (hc_Wake zero_host_config)\<lparr>wk_Enabled := True, wk_MaxAttempts := 3\<rparr>,
     hc_RestorePolicy := ''always''\<rparr>"

definition demo_agent_config :: config where
  "demo_agent_config =
     \<lparr>cf_ConfigVersion = 1, cf_Mode = ''active'',
      cf_NUT = \<lparr>nc_Profile = ''standalone'', nc_UPSName = ''ups'', nc_Host = ''localhost'', nc_Port = 3493,
        nc_Driver = None, nc_DriverPort = None, nc_PowerCycleCapability = ''unknown'',
        nc_Network = \<lparr>nn_Mode = ''localhost'', nn_ListenIPv4 = True, nn_ListenIPv6 = False, nn_AllowedClients = []\<rparr>,
        nc_Synology = \<lparr>sy_Enabled = False, sy_Username = '''', sy_Password = ''''\<rparr>,
        nc_HostSyncSeconds = 15, nc_FinalDelaySeconds = 5\<rparr>,
      cf_Outage = \<lparr>oc_GracePeriodSeconds = 30, oc_MaxOnBatterySeconds = Some 300, oc_CriticalBatteryPercent = None,
        oc_CriticalRuntimeSeconds = None, oc_CommunicationLossGraceSeconds = 60\<rparr>,
      cf_Controller = \<lparr>cc_RequireUPSBackedPower = True, cc_RequireAutoPowerOn = True\<rparr>,
      cf_Recovery = \<lparr>rc_Enabled = True, rc_UtilityStableSeconds = 60, rc_BatteryChargeMin = None,
        rc_RuntimeMinSeconds = None, rc_RechargeTimeSeconds = None, rc_NetworkWaitSeconds = 60\<rparr>,
      cf_Health = \<lparr>hl_Enabled = True, hl_IntervalSeconds = 30, hl_ProbationSeconds = 120, hl_Autofix = False,
        hl_MaxRepairAttempts = 3\<rparr>,
      cf_Dependencies = [],
      cf_Hosts = [demo_machine ''nas'' ''nut'' [], demo_machine ''app'' ''ssh'' [''nas'']]\<rparr>"

definition demo_deps :: "(power_txn store_world, unit, store_error) ctl_deps" where
  "demo_deps =
     \<lparr>su_Config = demo_agent_config, su_put = store_put,
      su_Probe = Some \<lparr>pb_Check = (\<lambda>_ x. (Inr \<lparr>pr_Known = True, pr_Online = True\<rparr>, x)), pb_Wait = (\<lambda>_ _ x. (Inr (), x))\<rparr>,
      su_Shutdown = Some (\<lambda>_ x. (Inr DirectRequested, x)),
      su_FSD = Some (\<lambda>_ _ x. (Inr (), x)),
      su_Recovery = Some \<lparr>rv_Online = (\<lambda>_ x. (Inr False, x)), rv_Wake = (\<lambda>_ x. (Inr (), x))\<rparr>,
      su_UPSMonConfPath = '''', su_NewTransactionID = None\<rparr>"

text \<open>Its store keeps a one-character checksum, so that a run can be evaluated.\<close>

definition demo_disk :: "power_txn store_world" where
  "demo_disk = demo_world\<lparr>sw_codec := demo_codec\<lparr>cd_sha256_hex := (\<lambda>_. ''h'')\<rparr>\<rparr>"

fun ticks :: "('w, 'x, 'e) ctl_deps \<Rightarrow> (instant \<times> inputs) list \<Rightarrow> ('w, 'x) controller \<Rightarrow> ('w, 'x) controller" where
  "ticks su [] c = c"
| "ticks su ((now, inp) # xs) c = ticks su xs (snd (Tick su now inp c))"

lemma run_ticks: "ctl_run su cfg c \<Longrightarrow> ctl_run su cfg (ticks su xs c)"
  by (induction xs arbitrary: c) (auto simp: ctl_run.tick)

text \<open>A forced shutdown, and a recovery that starts from a committed transaction.\<close>

definition demo_down :: "(power_txn store_world, unit) controller" where
  "demo_down = ticks demo_deps [(0, demo_in UtilityOnline), (Second, demo_fsd)]
     (start_ctl demo_deps demo_cfg (New_State ''t'' ''r'') demo_disk () [])"

definition demo_up :: "(power_txn store_world, unit) controller" where
  "demo_up = ticks demo_deps
     [(0, demo_in UtilityOnline), (200 * Second, demo_in UtilityOnline), (201 * Second, demo_in UtilityOnline)]
     (start_ctl demo_deps demo_cfg (put_host ''nas'' (lookup_host fmempty ''nas'') demo_committed) demo_disk () [])"

datatype command = Shutdown_Command | FSD_Command | Wake_Command

fun command_of :: "event \<Rightarrow> command" where
  "command_of (EvShutdown _ _) = Shutdown_Command"
| "command_of (EvFSD _ _) = FSD_Command"
| "command_of (EvWake _ _) = Wake_Command"

fun_cases command_ofE:
  "command_of ev = Shutdown_Command" "command_of ev = FSD_Command" "command_of ev = Wake_Command"

lemma command_in_trace:
  "Shutdown_Command \<in> set (map command_of tr) \<Longrightarrow> \<exists>hid p. EvShutdown hid p \<in> set tr"
  "FSD_Command \<in> set (map command_of tr) \<Longrightarrow> \<exists>ups p. EvFSD ups p \<in> set tr"
  "Wake_Command \<in> set (map command_of tr) \<Longrightarrow> \<exists>hid p. EvWake hid p \<in> set tr"
  by (auto dest!: sym [of _ "command_of _"] elim!: command_ofE)

lemma demo_down_commands: "map command_of (ct_trace demo_down) = [Shutdown_Command, FSD_Command]"
  by code_simp

lemma demo_up_commands: "map command_of (ct_trace demo_up) = [Wake_Command]"
  by code_simp

lemma demo_runs: "ctl_run (over_store demo_deps) demo_cfg demo_down" "ctl_run (over_store demo_deps) demo_cfg demo_up"
proof -
  have o: "over_store demo_deps = demo_deps" by (simp add: over_store_def demo_deps_def)
  show "ctl_run (over_store demo_deps) demo_cfg demo_down"
    unfolding o demo_down_def by (intro run_ticks ctl_run.start) (simp add: txn_inv_def New_State_def)
  show "ctl_run (over_store demo_deps) demo_cfg demo_up"
    unfolding o demo_up_def by (intro run_ticks ctl_run.start) (simp add: txn_inv_def New_State_def demo_committed_def)
qed

lemma demo_ids: "distinct (map hc_ID (cf_Hosts (su_Config (demo_deps))))"
  by (simp add: demo_deps_def demo_agent_config_def demo_machine_def)

section \<open>Properties\<close>

lemma over_store_config [simp]:
  "su_Config (over_store su) = su_Config su" "ctl_plan (over_store su) = ctl_plan su"
  by (simp_all add: over_store_def ctl_plan_def)







end
