(* ===== verification/Host_Checks.thy ===== *)
theory Host_Checks
  imports Orchestrator_Props Go_Strings
begin

text \<open>
  What the agent does to a single machine: the status probe and the wait for consecutive observations
  of \<^verbatim>\<open>agent/internal/host/status.go\<close>, the shutdown executor of \<^verbatim>\<open>shutdown.go\<close>, and the capability rules
  for armed operation of \<^verbatim>\<open>armed_runtime_validation.go\<close>. Dialling, running a command, the context and
  the local file system are parameters.
\<close>

section \<open>Status probes\<close>

datatype check_error =
    AddressRequired
  | UnsafeAddress
  | InvalidPort
  | ContextError string
  | PingFailed string
  | ARPUnsupported
  | UnsupportedMethod string

text \<open>
  The result of a command: its output, its error text, whether that error is an \<^verbatim>\<open>ExitError\<close>, and
  whether the deadline of the context it was run in has passed.
\<close>

record run_result =
  rr_out :: string
  rr_err :: "string option"
  rr_exited :: bool
  rr_expired :: bool

text \<open>
  A checker in the context of its caller: \<open>ck_ctxErr\<close> is \<^verbatim>\<open>ctx.Err()\<close>, \<open>ck_dial\<close> whether a TCP connection
  could be made, \<open>ck_after\<close> the \<^verbatim>\<open>select\<close> between \<^verbatim>\<open>ctx.Done()\<close> (an error) and \<^verbatim>\<open>time.After\<close>.
\<close>

record 'x checker =
  ck_Progress :: "('x \<Rightarrow> 'x) option"
  ck_dial :: "duration \<Rightarrow> string \<Rightarrow> 'x \<Rightarrow> bool \<times> 'x"
  ck_run :: "duration \<Rightarrow> string \<Rightarrow> string list \<Rightarrow> 'x \<Rightarrow> run_result \<times> 'x"
  ck_ctxErr :: "'x \<Rightarrow> string option"
  ck_after :: "duration \<Rightarrow> 'x \<Rightarrow> string option \<times> 'x"

definition progress :: "'x checker \<Rightarrow> 'x \<Rightarrow> 'x" where
  "progress ck x = (case ck_Progress ck of None \<Rightarrow> x | Some f \<Rightarrow> f x)"

definition validateEndpoint :: "string \<Rightarrow> check_error option" where
  "validateEndpoint v =
     (let v = TrimSpace v in
      if v = '''' then Some AddressRequired
      else if HasPrefix v ''-'' \<or> ContainsAny v [CHR 0x20, CHR 0x09, CHR 0x0D, CHR 0x0A] then Some UnsafeAddress
      else None)"

text \<open>\<^verbatim>\<open>net.JoinHostPort\<close>: an address with a colon is bracketed.\<close>

definition JoinHostPort :: "string \<Rightarrow> string \<Rightarrow> string" where
  "JoinHostPort host port =
     (if CHR '':'' \<in> set host then ''['' @ host @ '']:'' @ port else host @ '':'' @ port)"

text \<open>
  \<^verbatim>\<open>int(math.Ceil(d.Seconds()))\<close> for a positive duration: \<^verbatim>\<open>Seconds\<close> adds the whole seconds and the
  rounded fraction in \<^verbatim>\<open>float64\<close>.
\<close>

definition f64_fraction :: "int \<Rightarrow> int \<Rightarrow> rat" where
  "f64_fraction p q = (if p = 0 then 0 else case nearest_f64 p q of Some (Finite r) \<Rightarrow> r | _ \<Rightarrow> 0)"

definition ceil_seconds :: "duration \<Rightarrow> int" where
  "ceil_seconds d =
     (let (p, q) = quotient_of (of_int (d div Second) + f64_fraction (d mod Second) Second)
      in \<lceil>f64_fraction p q\<rceil>)"

definition probe_timeout :: "status_config \<Rightarrow> duration" where
  "probe_timeout cfg =
     (let timeout = int64 (sc_TimeoutMS cfg * Millisecond) in if timeout \<le> 0 then Second else timeout)"

definition probe_method :: "status_config \<Rightarrow> string" where
  "probe_method cfg =
     (if sc_Method cfg = ''auto'' then (if sc_Port cfg \<noteq> None then ''tcp'' else ''ping'') else sc_Method cfg)"

definition known :: "bool \<Rightarrow> probe_result" where
  "known online = \<lparr>pr_Known = True, pr_Online = online\<rparr>"

definition check_tcp :: "'x checker \<Rightarrow> string \<Rightarrow> status_config \<Rightarrow> 'x \<Rightarrow> (check_error + probe_result) \<times> 'x" where
  "check_tcp ck address cfg x =
     (case sc_Port cfg of
        None \<Rightarrow> (Inl InvalidPort, x)
      | Some port \<Rightarrow>
          (if port < 1 \<or> port > 65535 then (Inl InvalidPort, x)
           else
             (let (connected, x') = ck_dial ck (probe_timeout cfg) (JoinHostPort address (itoa port)) x in
              if connected then (Inr (known True), x')
              else
                (case ck_ctxErr ck x' of
                   Some e \<Rightarrow> (Inl (ContextError e), x')
                 | None \<Rightarrow> (Inr (known False), x')))))"

definition check_ping :: "'x checker \<Rightarrow> string \<Rightarrow> status_config \<Rightarrow> 'x \<Rightarrow> (check_error + probe_result) \<times> 'x" where
  "check_ping ck address cfg x =
     (let timeout = probe_timeout cfg;
          secs = max 1 (ceil_seconds timeout);
          (r, x') = ck_run ck (int64 (timeout + Second)) ''ping''
                      [''-n'', ''-c'', ''1'', ''-W'', itoa secs, address] x
      in case rr_err r of
           None \<Rightarrow> (Inr (known True), x')
         | Some err \<Rightarrow>
             (case ck_ctxErr ck x' of
                Some e \<Rightarrow> (Inl (ContextError e), x')
              | None \<Rightarrow>
                  (if rr_exited r \<or> rr_expired r then (Inr (known False), x')
                   else (Inl (PingFailed err), x'))))"

text \<open>The deferred \<^verbatim>\<open>progress\<close> runs on every return.\<close>

definition Check :: "'x checker \<Rightarrow> string \<Rightarrow> status_config \<Rightarrow> 'x \<Rightarrow> (check_error + probe_result) \<times> 'x" where
  "Check ck address cfg x =
     (let m = probe_method cfg;
          (r, x') =
            (if m = ''none'' then (Inr \<lparr>pr_Known = False, pr_Online = False\<rparr>, x)
             else
               (case validateEndpoint address of
                  Some e \<Rightarrow> (Inl e, x)
                | None \<Rightarrow>
                    (if m = ''tcp'' then check_tcp ck address cfg x
                     else if m = ''ping'' then check_ping ck address cfg x
                     else if m = ''arp'' then (Inl ARPUnsupported, x)
                     else (Inl (UnsupportedMethod m), x))))
      in (r, progress ck x'))"

subsection \<open>Waiting for consecutive observations\<close>

definition agrees :: "bool \<Rightarrow> probe_result \<Rightarrow> bool" where
  "agrees want r \<longleftrightarrow> pr_Known r \<and> pr_Online r = want"

text \<open>The loop may run for ever: it is a partial function, over one probe and one pause.\<close>

partial_function (option) wait_loop ::
  "('x \<Rightarrow> (check_error + probe_result) \<times> 'x) \<Rightarrow> ('x \<Rightarrow> string option \<times> 'x) \<Rightarrow> bool \<Rightarrow> int \<Rightarrow> int \<Rightarrow> 'x
     \<Rightarrow> (check_error option \<times> 'x) option" where
  "wait_loop probe pause want need streak x =
     (case probe x of
        (Inl e, x1) \<Rightarrow> Some (Some e, x1)
      | (Inr r, x1) \<Rightarrow>
          (let streak' = (if agrees want r then streak + 1 else 0) in
           if agrees want r \<and> streak' \<ge> need then Some (None, x1)
           else
             (case pause x1 of
                (Some e, x2) \<Rightarrow> Some (Some (ContextError e), x2)
              | (None, x2) \<Rightarrow> wait_loop probe pause want need streak' x2)))"

text \<open>Its code equations look at the result of the probe first, so that evaluation stops where that is not known.\<close>

definition wait_round ::
  "('x \<Rightarrow> (check_error + probe_result) \<times> 'x) \<Rightarrow> ('x \<Rightarrow> string option \<times> 'x) \<Rightarrow> bool \<Rightarrow> int \<Rightarrow> int
     \<Rightarrow> (check_error + probe_result) \<times> 'x \<Rightarrow> (check_error option \<times> 'x) option" where
  "wait_round probe pause want need streak r =
     (case r of
        (Inl e, x1) \<Rightarrow> Some (Some e, x1)
      | (Inr r, x1) \<Rightarrow>
          (let streak' = (if agrees want r then streak + 1 else 0) in
           if agrees want r \<and> streak' \<ge> need then Some (None, x1)
           else
             (case pause x1 of
                (Some e, x2) \<Rightarrow> Some (Some (ContextError e), x2)
              | (None, x2) \<Rightarrow> wait_loop probe pause want need streak' x2)))"

lemma wait_round_code [code]:
  "wait_round probe pause want need streak (Inl e, x1) = Some (Some e, x1)"
  "wait_round probe pause want need streak (Inr r, x1) =
     (let streak' = (if agrees want r then streak + 1 else 0) in
      if agrees want r \<and> streak' \<ge> need then Some (None, x1)
      else
        (case pause x1 of
           (Some e, x2) \<Rightarrow> Some (Some (ContextError e), x2)
         | (None, x2) \<Rightarrow> wait_loop probe pause want need streak' x2))"
  by (simp_all add: wait_round_def)

lemma wait_loop_code [code]:
  "wait_loop probe pause want need streak x = wait_round probe pause want need streak (probe x)"
  by (subst wait_loop.simps) (simp add: wait_round_def)

definition needed :: "status_config \<Rightarrow> int" where
  "needed cfg = (if sc_SuccessConsecutive cfg \<le> 0 then 3 else sc_SuccessConsecutive cfg)"

definition probe_interval :: "status_config \<Rightarrow> duration" where
  "probe_interval cfg =
     (let interval = seconds (sc_ProbeIntervalSeconds cfg) in if interval \<le> 0 then 5 * Second else interval)"

definition WaitForConsecutive ::
  "'x checker \<Rightarrow> string \<Rightarrow> status_config \<Rightarrow> bool \<Rightarrow> 'x \<Rightarrow> (check_error option \<times> 'x) option" where
  "WaitForConsecutive ck address cfg want x =
     wait_loop (Check ck address cfg) (ck_after ck (probe_interval cfg)) want (needed cfg) 0 x"

section \<open>The shutdown executor\<close>

definition knownHostsPath :: string where
  "knownHostsPath = ''/etc/cockpit-ups-wol/known_hosts''"

datatype shutdown_error =
    CommandDisabled
  | UnsupportedShutdown string
  | SSHNoAddress
  | SSHEndpoint check_error
  | SSHIncomplete
  | UnsafeSSHUser
  | UnsafeSSHKey
  | SSHFailed string string
  | SSHNotRun string

text \<open>
  The wait for a command run in its own goroutine: the ticker fires a number of times, then the command
  has finished or its context is over. Without a progress callback the command is simply run.
\<close>

datatype run_end = Finished run_result | ContextOver string

record 'x executor =
  ex_Progress :: "('x \<Rightarrow> 'x) option"
  ex_ProgressInterval :: duration
  ex_run :: "duration \<Rightarrow> string \<Rightarrow> string list \<Rightarrow> 'x \<Rightarrow> run_result \<times> 'x"
  ex_watch :: "duration \<Rightarrow> duration \<Rightarrow> string \<Rightarrow> string list \<Rightarrow> 'x \<Rightarrow> nat \<times> run_end \<times> 'x"

definition runWithProgress ::
  "'x executor \<Rightarrow> duration \<Rightarrow> string \<Rightarrow> string list \<Rightarrow> 'x \<Rightarrow> run_result \<times> 'x" where
  "runWithProgress ex timeout name args x =
     (case ex_Progress ex of
        None \<Rightarrow> ex_run ex timeout name args x
      | Some beat \<Rightarrow>
          (let interval = (if ex_ProgressInterval ex \<le> 0 then 5 * Second else ex_ProgressInterval ex);
               (ticks, stop, x') = ex_watch ex timeout interval name args (beat x);
               x' = (beat ^^ ticks) x'
           in case stop of
                Finished r \<Rightarrow> (r, beat x')
              | ContextOver e \<Rightarrow>
                  (\<lparr>rr_out = '''', rr_err = Some e, rr_exited = False, rr_expired = True\<rparr>, x')))"

definition ssh_args :: "string \<Rightarrow> string \<Rightarrow> string list" where
  "ssh_args key destination =
     [''-o'', ''BatchMode=yes'',
      ''-o'', ''StrictHostKeyChecking=yes'',
      ''-o'', ''UserKnownHostsFile='' @ knownHostsPath,
      ''-o'', ''GlobalKnownHostsFile=/dev/null'',
      ''-o'', ''IdentitiesOnly=yes'',
      ''-o'', ''ConnectTimeout=10'',
      ''-i'', key,
      destination,
      ''sudo'', ''-n'', ''/sbin/shutdown'', ''-h'', ''now'']"

definition ssh_timeout :: "host_config \<Rightarrow> duration" where
  "ssh_timeout h =
     (let timeout = seconds (sd_TimeoutSeconds (hc_Shutdown h)) in if timeout \<le> 0 then 120 * Second else timeout)"

definition unsafe_user :: "string \<Rightarrow> bool" where
  "unsafe_user user \<longleftrightarrow> user = '''' \<or> HasPrefix user ''-''
     \<or> ContainsAny user [CHR ''@'', CHR 0x20, CHR 0x09, CHR 0x0D, CHR 0x0A]"

definition unsafe_key :: "string \<Rightarrow> bool" where
  "unsafe_key key \<longleftrightarrow> key = '''' \<or> HasPrefix key ''-'' \<or> ContainsAny key [CHR 0x0D, CHR 0x0A]"

definition ssh_outcome :: "run_result \<Rightarrow> shutdown_error + shutdown_disposition" where
  "ssh_outcome r =
     (case rr_err r of
        None \<Rightarrow> Inr DirectRequested
      | Some err \<Rightarrow> Inl (if rr_exited r then SSHFailed err (TrimSpace (rr_out r)) else SSHNotRun err))"

definition shutdownSSH ::
  "'x executor \<Rightarrow> host_config \<Rightarrow> 'x \<Rightarrow> (shutdown_error + shutdown_disposition) \<times> 'x" where
  "shutdownSSH ex h x =
     (case hc_Address h of
        None \<Rightarrow> (Inl SSHNoAddress, x)
      | Some address \<Rightarrow>
          (case validateEndpoint address of
             Some e \<Rightarrow> (Inl (SSHEndpoint e), x)
           | None \<Rightarrow>
               (case (sd_SSHUser (hc_Shutdown h), sd_SSHKeyFile (hc_Shutdown h)) of
                  (Some rawUser, Some rawKey) \<Rightarrow>
                    (let user = TrimSpace rawUser; key = TrimSpace rawKey in
                     if unsafe_user user then (Inl UnsafeSSHUser, x)
                     else if unsafe_key key then (Inl UnsafeSSHKey, x)
                     else
                       (let (r, x') = runWithProgress ex (ssh_timeout h) ''ssh''
                                        (ssh_args key (user @ ''@'' @ address)) x
                        in (ssh_outcome r, x')))
                | _ \<Rightarrow> (Inl SSHIncomplete, x))))"

definition Shutdown ::
  "'x executor \<Rightarrow> host_config \<Rightarrow> 'x \<Rightarrow> (shutdown_error + shutdown_disposition) \<times> 'x" where
  "Shutdown ex h x =
     (let m = sd_Method (hc_Shutdown h) in
      if m = ''none'' then (Inr NotRequired, x)
      else if m = ''nut'' then (Inr ManagedByNUT, x)
      else if m = ''command'' then (Inl CommandDisabled, x)
      else if m = ''ssh'' then shutdownSSH ex h x
      else (Inl (UnsupportedShutdown m), x))"

section \<open>Rules for armed operation\<close>

text \<open>
  The local files an SSH shutdown needs: \<open>lf_stat\<close> is \<^verbatim>\<open>os.Stat\<close>, an error text or whether the file is
  regular and its permission bits (the group and world write bits are \<^verbatim>\<open>0o022\<close>, 18); \<open>lf_keygen\<close> runs \<^verbatim>\<open>ssh-keygen -F address -f path\<close>.
\<close>

record keygen_result =
  kg_out :: string
  kg_failed :: bool
  kg_missing :: bool

record local_files =
  lf_stat :: "string \<Rightarrow> string + bool \<times> nat"
  lf_keygen :: "string \<Rightarrow> string \<Rightarrow> keygen_result"

datatype prerequisite =
    KeyUnreadable string string
  | KeyNotRegular string
  | KeyWritable string
  | KeygenMissing
  | HostKeyMissing string string

definition validateKnownHost :: "local_files \<Rightarrow> string \<Rightarrow> string \<Rightarrow> prerequisite option" where
  "validateKnownHost lf address path =
     (let r = lf_keygen lf (TrimSpace address) path in
      if kg_failed r \<or> TrimSpace (kg_out r) = '''' then
        Some (if kg_failed r \<and> kg_missing r then KeygenMissing else HostKeyMissing address path)
      else None)"

definition validateSSHLocalPrerequisitesAt ::
  "local_files \<Rightarrow> string \<Rightarrow> string \<Rightarrow> string \<Rightarrow> prerequisite option" where
  "validateSSHLocalPrerequisitesAt lf address keyPath hostsPath =
     (let key = TrimSpace keyPath in
      case lf_stat lf key of
        Inl e \<Rightarrow> Some (KeyUnreadable key e)
      | Inr (regular, perm) \<Rightarrow>
          (if \<not> regular then Some (KeyNotRegular key)
           else if and perm 18 \<noteq> 0 then Some (KeyWritable key)
           else validateKnownHost lf address hostsPath))"

definition validateSSHLocalPrerequisites :: "local_files \<Rightarrow> string \<Rightarrow> string \<Rightarrow> prerequisite option" where
  "validateSSHLocalPrerequisites lf address keyPath =
     validateSSHLocalPrerequisitesAt lf address keyPath knownHostsPath"

datatype armed_error =
    DependencyARP string
  | DependencyUnverifiable string
  | DependencyEndpoint string check_error
  | DependencyWOL string
  | HostARP string
  | HostNoAddress string
  | HostEndpoint string check_error
  | HostSSHIncomplete string
  | HostCommand string
  | HostShutdownUnsupported string string
  | WakeUnverifiable string
  | WakeNoMAC string
  | WakeNoBroadcast string

definition blank :: "string option \<Rightarrow> bool" where
  "blank v = (case v of None \<Rightarrow> True | Some s \<Rightarrow> TrimSpace s = '''')"

definition armed_dependency :: "dependency_config \<Rightarrow> armed_error option" where
  "armed_dependency dep =
     (if sc_Method (dc_Status dep) = ''arp'' then Some (DependencyARP (dc_ID dep))
      else if sc_Method (dc_Status dep) = ''none'' \<or> blank (dc_Address dep)
      then Some (DependencyUnverifiable (dc_ID dep))
      else
        (case validateEndpoint (case dc_Address dep of None \<Rightarrow> '''' | Some a \<Rightarrow> a) of
           Some e \<Rightarrow> Some (DependencyEndpoint (dc_ID dep) e)
         | None \<Rightarrow> if dc_Startup dep = ''wol'' then Some (DependencyWOL (dc_ID dep)) else None))"

definition armed_shutdown :: "host_config \<Rightarrow> armed_error option" where
  "armed_shutdown h =
     (let m = sd_Method (hc_Shutdown h) in
      if m = ''none'' \<or> m = ''nut'' then None
      else if m = ''ssh'' then
        (case hc_Address h of
           None \<Rightarrow> Some (HostNoAddress (hc_ID h))
         | Some a \<Rightarrow>
             (case validateEndpoint a of
                Some e \<Rightarrow> Some (HostEndpoint (hc_ID h) e)
              | None \<Rightarrow>
                  if sd_SSHUser (hc_Shutdown h) = None \<or> sd_SSHKeyFile (hc_Shutdown h) = None
                  then Some (HostSSHIncomplete (hc_ID h)) else None))
      else if m = ''command'' then Some (HostCommand (hc_ID h))
      else Some (HostShutdownUnsupported (hc_ID h) m))"

definition armed_wake :: "host_config \<Rightarrow> armed_error option" where
  "armed_wake h =
     (if hc_Address h = None \<or> sc_Method (hc_Status h) = ''none'' then Some (WakeUnverifiable (hc_ID h))
      else if blank (wk_MAC (hc_Wake h)) then Some (WakeNoMAC (hc_ID h))
      else if blank (wk_Broadcast (hc_Wake h)) then Some (WakeNoBroadcast (hc_ID h))
      else None)"

definition armed_host :: "bool \<Rightarrow> host_config \<Rightarrow> armed_error option" where
  "armed_host recovery h =
     (if sc_Method (hc_Status h) = ''arp'' then Some (HostARP (hc_ID h))
      else
        (case armed_shutdown h of
           Some e \<Rightarrow> Some e
         | None \<Rightarrow> if recovery \<and> wk_Enabled (hc_Wake h) then armed_wake h else None))"

fun first_error :: "('a \<Rightarrow> 'e option) \<Rightarrow> 'a list \<Rightarrow> 'e option" where
  "first_error f [] = None"
| "first_error f (x # xs) = (case f x of Some e \<Rightarrow> Some e | None \<Rightarrow> first_error f xs)"

definition validateStaticArmedCapabilities :: "config \<Rightarrow> armed_error option" where
  "validateStaticArmedCapabilities cfg =
     (case first_error armed_dependency (cf_Dependencies cfg) of
        Some e \<Rightarrow> Some e
      | None \<Rightarrow> first_error (armed_host (rc_Enabled (cf_Recovery cfg))) (cf_Hosts cfg))"

text \<open>
  The excluded hosts with their reasons. The loop dereferences the address and the key file of every SSH
  host: \<open>None\<close> stands for the panic when one of them is nil.
\<close>

type_synonym exclusions = "(string, prerequisite) fmap"

fun exclusion_loop :: "local_files \<Rightarrow> host_config list \<Rightarrow> exclusions \<Rightarrow> exclusions option" where
  "exclusion_loop lf [] excluded = Some excluded"
| "exclusion_loop lf (h # hs) excluded =
     (if sd_Method (hc_Shutdown h) \<noteq> ''ssh'' then exclusion_loop lf hs excluded
      else
        (case (hc_Address h, sd_SSHKeyFile (hc_Shutdown h)) of
           (Some address, Some key) \<Rightarrow>
             (case validateSSHLocalPrerequisites lf address key of
                Some reason \<Rightarrow> exclusion_loop lf hs (fmupd (hc_ID h) reason excluded)
              | None \<Rightarrow> exclusion_loop lf hs excluded)
         | _ \<Rightarrow> None))"

datatype armed_check = Panic | Rejected armed_error | Excluded exclusions

definition RuntimeArmedExclusions :: "local_files \<Rightarrow> config \<Rightarrow> armed_check" where
  "RuntimeArmedExclusions lf cfg =
     (case validateStaticArmedCapabilities cfg of
        Some e \<Rightarrow> Rejected e
      | None \<Rightarrow>
          (case exclusion_loop lf (cf_Hosts cfg) fmempty of None \<Rightarrow> Panic | Some ex \<Rightarrow> Excluded ex))"

text \<open>The strict validator: the errors joined, one per excluded host, in configuration order.\<close>

definition ValidateArmedCapabilities ::
  "local_files \<Rightarrow> config \<Rightarrow> (armed_error + (string \<times> prerequisite) list) option" where
  "ValidateArmedCapabilities lf cfg =
     (case RuntimeArmedExclusions lf cfg of
        Panic \<Rightarrow> None
      | Rejected e \<Rightarrow> Some (Inl e)
      | Excluded ex \<Rightarrow>
          Some (Inr (List.map_filter
            (\<lambda>h. map_option (\<lambda>reason. (hc_ID h, reason)) (fmlookup ex (hc_ID h))) (cf_Hosts cfg))))"

definition exclude_host :: "exclusions \<Rightarrow> host_config \<Rightarrow> host_config" where
  "exclude_host excluded h =
     (if fmlookup excluded (hc_ID h) = None then h
      else h\<lparr>hc_Shutdown := (hc_Shutdown h)\<lparr>sd_Method := ''none''\<rparr>,
             hc_Wake := (hc_Wake h)\<lparr>wk_Enabled := False\<rparr>\<rparr>)"

definition RuntimeConfigWithExclusions :: "config \<Rightarrow> exclusions \<Rightarrow> config" where
  "RuntimeConfigWithExclusions cfg excluded =
     (if fmdom excluded = {||} then cfg
      else cfg\<lparr>cf_Hosts := map (exclude_host excluded) (cf_Hosts cfg)\<rparr>)"

section \<open>How a wait ends\<close>

text \<open>One round of the loop: a probe and a pause. \<open>rounds probe pause i x\<close> is the environment before round \<open>i\<close>.\<close>

definition round_of :: "('x \<Rightarrow> 'r \<times> 'x) \<Rightarrow> ('x \<Rightarrow> 'p \<times> 'x) \<Rightarrow> 'x \<Rightarrow> 'x" where
  "round_of probe pause x = snd (pause (snd (probe x)))"

definition rounds :: "('x \<Rightarrow> 'r \<times> 'x) \<Rightarrow> ('x \<Rightarrow> 'p \<times> 'x) \<Rightarrow> nat \<Rightarrow> 'x \<Rightarrow> 'x" where
  "rounds probe pause i x = (round_of probe pause ^^ i) x"

definition observed :: "('x \<Rightarrow> ('e + probe_result) \<times> 'x) \<Rightarrow> bool \<Rightarrow> 'x \<Rightarrow> bool" where
  "observed probe want x \<longleftrightarrow> (case fst (probe x) of Inl _ \<Rightarrow> False | Inr r \<Rightarrow> agrees want r)"

definition goes_on :: "('x \<Rightarrow> ('e + 'r) \<times> 'x) \<Rightarrow> ('x \<Rightarrow> 'p option \<times> 'x) \<Rightarrow> 'x \<Rightarrow> bool" where
  "goes_on probe pause x \<longleftrightarrow> (\<exists>r. fst (probe x) = Inr r) \<and> fst (pause (snd (probe x))) = None"

lemma rounds_0 [simp]: "rounds probe pause 0 x = x"
  by (simp add: rounds_def)

lemma rounds_Suc: "rounds probe pause (Suc i) x = rounds probe pause i (round_of probe pause x)"
  by (simp add: rounds_def funpow_swap1)

text \<open>
  \<open>settles need streak n x\<close>: no round before round \<open>n\<close> ends the loop, and with round \<open>n\<close> the streak
  reaches \<open>need\<close>, either counting the streak already there or within the rounds alone.
\<close>

definition settles ::
  "('x \<Rightarrow> ('e + probe_result) \<times> 'x) \<Rightarrow> ('x \<Rightarrow> 'p option \<times> 'x) \<Rightarrow> bool \<Rightarrow> nat \<Rightarrow> nat \<Rightarrow> nat \<Rightarrow> 'x \<Rightarrow> bool" where
  "settles probe pause want need streak n x \<longleftrightarrow>
     (\<forall>i<n. goes_on probe pause (rounds probe pause i x))
     \<and> (need \<le> Suc n + streak \<and> (\<forall>i\<le>n. observed probe want (rounds probe pause i x))
       \<or> need \<le> Suc n \<and> (\<forall>i\<le>n. n < i + need \<longrightarrow> observed probe want (rounds probe pause i x)))"

lemma all_less_Suc_shift: "(\<forall>i<Suc n. P i) \<longleftrightarrow> P 0 \<and> (\<forall>i<n. P (Suc i))"
  by (metis Suc_less_eq less_Suc_eq_0_disj zero_less_Suc)

lemma all_le_Suc_shift: "(\<forall>i\<le>Suc n. P i) \<longleftrightarrow> P 0 \<and> (\<forall>i\<le>n. P (Suc i))"
  using all_less_Suc_shift [of "Suc n" P] by (simp add: less_Suc_eq_le)

lemma settles_Suc:
  assumes "0 < need"
  shows "settles probe pause want need streak (Suc n) x \<longleftrightarrow>
    goes_on probe pause x
    \<and> settles probe pause want need (if observed probe want x then Suc streak else 0) n (round_of probe pause x)"
proof (cases "need \<le> Suc n")
  case True
  then show ?thesis
    using assms unfolding settles_def all_less_Suc_shift all_le_Suc_shift rounds_Suc rounds_0
    by (cases "observed probe want x") auto
next
  case False
  then have "n < i + need" for i by simp
  with False show ?thesis
    using assms unfolding settles_def all_less_Suc_shift all_le_Suc_shift rounds_Suc rounds_0
    by (cases "observed probe want x") (auto simp: not_less_eq_eq)
qed

lemma settles_0: "settles probe pause want need streak 0 x \<longleftrightarrow> need \<le> Suc streak \<and> observed probe want x"
  if "0 < need"
  using that by (auto simp: settles_def le_Suc_eq)

lemma wait_loop_unfold:
  "wait_loop probe pause want need streak x =
     (case probe x of
        (Inl e, x1) \<Rightarrow> Some (Some e, x1)
      | (Inr r, x1) \<Rightarrow>
          if observed probe want x \<and> need \<le> streak + 1 then Some (None, x1)
          else
            (case pause x1 of
               (Some e, x2) \<Rightarrow> Some (Some (ContextError e), x2)
             | (None, x2) \<Rightarrow>
                 wait_loop probe pause want need (if observed probe want x then streak + 1 else 0) x2))"
  by (subst wait_loop.simps) (auto simp: observed_def Let_def split: sum.split prod.split)

lemma wait_loop_settles:
  assumes "0 < need" "settles probe pause want need streak n x"
  shows "\<exists>x'. wait_loop probe pause want (int need) (int streak) x = Some (None, x')"
  using assms(2)
proof (induction n arbitrary: streak x)
  case 0
  then show ?case
    using assms(1) by (subst wait_loop_unfold)
      (auto simp: settles_0 observed_def split: prod.split sum.splits)
next
  case (Suc n)
  show ?case
  proof (cases "observed probe want x \<and> need \<le> Suc streak")
    case True
    then show ?thesis by (subst wait_loop_unfold) (auto simp: observed_def split: prod.split sum.splits)
  next
    case False
    have s: "goes_on probe pause x"
        "settles probe pause want need (if observed probe want x then Suc streak else 0) n (round_of probe pause x)"
      using Suc.prems settles_Suc [OF assms(1), of probe pause want streak n x] by simp_all
    then obtain r x1 where p: "probe x = (Inr r, x1)" "pause x1 = (None, round_of probe pause x)"
      by (auto simp: goes_on_def round_of_def prod_eq_iff)
    have "(if observed probe want x then int streak + 1 else 0) = int (if observed probe want x then Suc streak else 0)"
      by simp
    then show ?thesis
      using Suc.IH [OF s(2)] False p by (subst wait_loop_unfold) auto
  qed
qed

lemma wait_loop_stops:
  assumes "\<not> goes_on probe pause (rounds probe pause n x)"
  shows "wait_loop probe pause want need streak x \<noteq> None"
  using assms
proof (induction n arbitrary: streak x)
  case 0
  then show ?case
    by (subst wait_loop_unfold) (auto simp: goes_on_def split: prod.splits sum.splits option.splits)
next
  case (Suc n)
  then have "wait_loop probe pause want need s (round_of probe pause x) \<noteq> None" for s
    unfolding rounds_Suc by blast
  then show ?case
    by (subst wait_loop_unfold) (auto simp: round_of_def split: prod.splits sum.splits option.splits)
qed

text \<open>What a return of the loop says of the rounds.\<close>

definition ended ::
  "('x \<Rightarrow> ('e + probe_result) \<times> 'x) \<Rightarrow> ('x \<Rightarrow> 'p option \<times> 'x) \<Rightarrow> bool \<Rightarrow> nat \<Rightarrow> nat \<Rightarrow> 'x \<Rightarrow> 'f option \<Rightarrow> bool" where
  "ended probe pause want need streak x e \<longleftrightarrow>
     (case e of
        None \<Rightarrow> \<exists>n. settles probe pause want need streak n x
      | Some _ \<Rightarrow> \<exists>n. \<not> goes_on probe pause (rounds probe pause n x))"

lemma ended_step:
  assumes "0 < need" "goes_on probe pause x"
    and "ended probe pause want need (if observed probe want x then Suc streak else 0) (round_of probe pause x) e"
  shows "ended probe pause want need streak x e"
proof (cases e)
  case None
  then obtain n where "settles probe pause want need streak (Suc n) x"
    using assms unfolding settles_Suc [OF assms(1)] by (auto simp: ended_def)
  then show ?thesis using None by (auto simp: ended_def)
next
  case (Some f)
  then obtain n where "\<not> goes_on probe pause (rounds probe pause (Suc n) x)"
    using assms(3) unfolding rounds_Suc by (auto simp: ended_def)
  then show ?thesis using Some unfolding ended_def by auto
qed

lemma ended_now:
  "0 < need \<Longrightarrow> observed probe want x \<Longrightarrow> need \<le> Suc streak \<Longrightarrow> ended probe pause want need streak x None"
  "\<not> goes_on probe pause x \<Longrightarrow> ended probe pause want need streak x (Some e)"
  by (auto simp: ended_def settles_0 intro!: exI [of _ 0])

lemma wait_loop_returned:
  assumes "wait_loop probe pause want (int need) (int streak) x = Some (e, x')" "0 < need"
  shows "ended probe pause want need streak x e"
proof -
  define P where "P = (\<lambda>(probe :: 'a \<Rightarrow> (check_error + probe_result) \<times> 'a)
      (pause :: 'a \<Rightarrow> string option \<times> 'a) want nd st x (r :: check_error option \<times> 'a).
    \<forall>m s. nd = int m \<longrightarrow> st = int s \<longrightarrow> 0 < m \<longrightarrow> ended probe pause want m s x (fst r))"
  have "P probe pause want (int need) (int streak) x (e, x')"
  proof (rule wait_loop.raw_induct [of P "(((((probe, pause), want), int need), int streak), x)" "(e, x')",
        unfolded prod.case, OF _ assms(1)])
    fix loop probe pause want nd st x r
    assume IH: "\<And>probe pause want nd st x r. loop probe pause want nd st x = Some r \<Longrightarrow> P probe pause want nd st x r"
      and eq: "(case probe x of
        (Inl e, x1) \<Rightarrow> Some (Some e, x1)
      | (Inr r, x1) \<Rightarrow>
          (let streak' = (if agrees want r then st + 1 else 0) in
           if agrees want r \<and> streak' \<ge> nd then Some (None, x1)
           else
             (case pause x1 of
                (Some e, x2) \<Rightarrow> Some (Some (ContextError e), x2)
              | (None, x2) \<Rightarrow> loop probe pause want nd streak' x2))) = Some r"
    have "ended probe pause want m s x (fst r)" if nat: "nd = int m" "st = int s" "0 < m" for m s
    proof (cases "goes_on probe pause x \<and> \<not> (observed probe want x \<and> m \<le> Suc s)")
      case True
      then obtain res x1 where p: "probe x = (Inr res, x1)" "pause x1 = (None, round_of probe pause x)"
        by (auto simp: goes_on_def round_of_def prod_eq_iff)
      then have "observed probe want x = agrees want res" by (simp add: observed_def)
      then have "loop probe pause want nd (int (if observed probe want x then Suc s else 0)) (round_of probe pause x)
          = Some r"
        using eq p True nat by (auto simp: Let_def add.commute split: if_splits)
      from IH [OF this] have
          "ended probe pause want m (if observed probe want x then Suc s else 0) (round_of probe pause x) (fst r)"
        using nat unfolding P_def by blast
      with nat(3) True show ?thesis by (blast intro: ended_step)
    next
      case False
      obtain q x1 where p: "probe x = (q, x1)" by (cases "probe x")
      show ?thesis
      proof (cases q)
        case (Inl e)
        then have "\<not> goes_on probe pause x" "fst r = Some e" using eq p by (auto simp: goes_on_def)
        then show ?thesis using ended_now(2) by simp
      next
        case (Inr res)
        then have obs: "observed probe want x = agrees want res" using p by (simp add: observed_def)
        show ?thesis
        proof (cases "observed probe want x \<and> m \<le> Suc s")
          case True
          then have "fst r = None" using eq p Inr obs nat by (auto simp: Let_def)
          then show ?thesis using True nat(3) by (simp add: ended_now(1))
        next
          case stop: False
          then obtain e x2 where "pause x1 = (Some e, x2)" "\<not> goes_on probe pause x"
            using False p Inr by (cases "pause x1") (auto simp: goes_on_def)
          then have "fst r = Some (ContextError e)" using eq p Inr obs nat stop by (auto simp: Let_def)
          then show ?thesis using \<open>\<not> goes_on probe pause x\<close> ended_now(2) by simp
        qed
      qed
    qed
    then show "P probe pause want nd st x r" by (simp add: P_def)
  qed
  then show ?thesis using assms(2) by (simp add: P_def)
qed

lemma settles_fresh:
  "settles probe pause want need 0 n x \<longleftrightarrow>
     need \<le> Suc n \<and> (\<forall>i<n. goes_on probe pause (rounds probe pause i x))
     \<and> (\<forall>i\<le>n. n < i + need \<longrightarrow> observed probe want (rounds probe pause i x))"
  by (auto simp: settles_def)

lemma needed_pos: "needed cfg = int (nat (needed cfg))" "0 < nat (needed cfg)"
  by (simp_all add: needed_def)

lemma WaitForConsecutive_loop:
  "WaitForConsecutive ck a cfg want x =
     wait_loop (Check ck a cfg) (ck_after ck (probe_interval cfg)) want (int (nat (needed cfg))) (int 0) x"
  using needed_pos(1) by (simp add: WaitForConsecutive_def)

section \<open>What a probe may conclude\<close>

lemma check_offline_live:
  assumes "Check ck a cfg x = (Inr r, x')" "pr_Known r" "\<not> pr_Online r"
  shows "probe_method cfg \<in> {''tcp'', ''ping''} \<and> validateEndpoint a = None
    \<and> (\<exists>x1. x' = progress ck x1 \<and> ck_ctxErr ck x1 = None)"
  using assms
  by (auto simp: Check_def check_tcp_def check_ping_def Let_def known_def
      split: if_splits option.splits prod.splits)

section \<open>Lemmas on armed operation\<close>

lemma first_error_None: "first_error f xs = None \<longleftrightarrow> (\<forall>x\<in>set xs. f x = None)"
  by (induction xs) (auto split: option.split)

lemma armed_ssh:
  assumes "armed_host recovery h = None" "sd_Method (hc_Shutdown h) = ''ssh''"
  shows "\<exists>a u k. hc_Address h = Some a \<and> validateEndpoint a = None
    \<and> sd_SSHUser (hc_Shutdown h) = Some u \<and> sd_SSHKeyFile (hc_Shutdown h) = Some k"
  using assms by (auto simp: armed_host_def armed_shutdown_def split: if_splits option.splits)

lemma exclusion_loop_total:
  assumes "\<forall>h\<in>set hs. sd_Method (hc_Shutdown h) = ''ssh'' \<longrightarrow>
      hc_Address h \<noteq> None \<and> sd_SSHKeyFile (hc_Shutdown h) \<noteq> None"
  shows "\<exists>ex'. exclusion_loop lf hs ex = Some ex'"
  using assms by (induction hs arbitrary: ex) (auto split: option.split)

definition ssh_ready :: "local_files \<Rightarrow> host_config \<Rightarrow> bool" where
  "ssh_ready lf h \<longleftrightarrow>
     (case (hc_Address h, sd_SSHKeyFile (hc_Shutdown h)) of
        (Some address, Some key) \<Rightarrow> validateSSHLocalPrerequisites lf address key = None
      | _ \<Rightarrow> False)"

lemma exclude_host_simps [simp]:
  "hc_ID (exclude_host ex h) = hc_ID h" "hc_Address (exclude_host ex h) = hc_Address h"
  by (simp_all add: exclude_host_def)

lemma exclusion_loop_spec:
  assumes "exclusion_loop lf hs ex = Some ex'"
  shows "fmlookup ex' hid = None \<longleftrightarrow> fmlookup ex hid = None \<and>
    (\<forall>h\<in>set hs. hc_ID h = hid \<longrightarrow> sd_Method (hc_Shutdown h) = ''ssh'' \<longrightarrow> ssh_ready lf h)"
  using assms
proof (induction hs arbitrary: ex)
  case (Cons h hs)
  show ?case
  proof (cases "sd_Method (hc_Shutdown h) = ''ssh''")
    case False
    then show ?thesis using Cons by simp
  next
    case ssh: True
    then obtain a k where ak: "hc_Address h = Some a" "sd_SSHKeyFile (hc_Shutdown h) = Some k"
      using Cons.prems by (auto split: option.splits)
    show ?thesis
    proof (cases "validateSSHLocalPrerequisites lf a k")
      case None
      then have "ssh_ready lf h" using ak by (simp add: ssh_ready_def)
      then show ?thesis using Cons.IH [of ex] Cons.prems ssh ak None by auto
    next
      case (Some reason)
      then have "\<not> ssh_ready lf h" using ak by (simp add: ssh_ready_def)
      then show ?thesis using Cons.IH [of "fmupd (hc_ID h) reason ex"] Cons.prems ssh ak Some by auto
    qed
  qed
qed simp

lemma armed_no_panic: "RuntimeArmedExclusions lf cfg \<noteq> Panic"
proof (cases "validateStaticArmedCapabilities cfg")
  case None
  then have "\<forall>h\<in>set (cf_Hosts cfg). armed_host (rc_Enabled (cf_Recovery cfg)) h = None"
    by (auto simp: validateStaticArmedCapabilities_def first_error_None split: option.splits)
  then have "hc_Address h \<noteq> None \<and> sd_SSHKeyFile (hc_Shutdown h) \<noteq> None"
    if "h \<in> set (cf_Hosts cfg)" "sd_Method (hc_Shutdown h) = ''ssh''" for h
    using armed_ssh [of "rc_Enabled (cf_Recovery cfg)" h] that by auto
  then obtain ex where "exclusion_loop lf (cf_Hosts cfg) fmempty = Some ex"
    using exclusion_loop_total by blast
  then show ?thesis using None by (simp add: RuntimeArmedExclusions_def)
qed (simp add: RuntimeArmedExclusions_def)

lemma armed_methods:
  assumes "RuntimeArmedExclusions lf cfg = Excluded ex" "h \<in> set (cf_Hosts cfg)"
  shows "sd_Method (hc_Shutdown h) \<in> {''none'', ''nut'', ''ssh''}"
proof -
  have "armed_host (rc_Enabled (cf_Recovery cfg)) h = None"
    using assms
    by (auto simp: RuntimeArmedExclusions_def validateStaticArmedCapabilities_def first_error_None split: option.splits)
  then show ?thesis
    by (auto simp: armed_host_def armed_shutdown_def Let_def split: if_splits option.splits)
qed

lemma armed_excluded:
  assumes "RuntimeArmedExclusions lf cfg = Excluded ex"
  shows "fmlookup ex hid = None \<longleftrightarrow>
    (\<forall>h\<in>set (cf_Hosts cfg). hc_ID h = hid \<longrightarrow> sd_Method (hc_Shutdown h) = ''ssh'' \<longrightarrow> ssh_ready lf h)"
proof -
  have "exclusion_loop lf (cf_Hosts cfg) fmempty = Some ex"
    using assms by (auto simp: RuntimeArmedExclusions_def split: option.splits)
  from exclusion_loop_spec [OF this, of hid] show ?thesis by simp
qed

lemma runtime_hosts:
  "cf_Hosts (RuntimeConfigWithExclusions cfg ex) = map (exclude_host ex) (cf_Hosts cfg)"
  by (auto simp: RuntimeConfigWithExclusions_def exclude_host_def fmdom_notD intro!: map_idI [symmetric])

lemma plan_members:
  "set (sp_PreFSD (BuildShutdownPlan hosts)) = hp_ID ` {h \<in> set hosts. direct_method (hp_ShutdownMethod h)}"
  "set (sp_NUTGroup (BuildShutdownPlan hosts)) = hp_ID ` {h \<in> set hosts. hp_ShutdownMethod h = ''nut''}"
  by (auto simp: BuildShutdownPlan_def Let_def)

lemma toHostConfig_simps [simp]:
  "hp_ID (toHostConfig h) = hc_ID h" "hp_ShutdownMethod (toHostConfig h) = sd_Method (hc_Shutdown h)"
  "hp_WakeEnabled (toHostConfig h) = wk_Enabled (hc_Wake h)"
  by (simp_all add: toHostConfig_def)

lemma excluded_direct:
  assumes "RuntimeArmedExclusions lf cfg = Excluded ex" "h \<in> set (cf_Hosts cfg)"
  shows "direct_method (sd_Method (hc_Shutdown (exclude_host ex h)))
    \<longleftrightarrow> sd_Method (hc_Shutdown h) = ''ssh'' \<and> fmlookup ex (hc_ID h) = None"
  using armed_methods [OF assms] by (auto simp: exclude_host_def direct_method_def)

lemma armed_pre_fsd:
  assumes "RuntimeArmedExclusions lf cfg = Excluded ex"
  shows "hid \<in> set (sp_PreFSD (BuildShutdownPlan (toHostConfigs (cf_Hosts (RuntimeConfigWithExclusions cfg ex)))))
    \<longleftrightarrow> (\<exists>h\<in>set (cf_Hosts cfg). hc_ID h = hid \<and> sd_Method (hc_Shutdown h) = ''ssh'')
      \<and> (\<forall>h\<in>set (cf_Hosts cfg). hc_ID h = hid \<and> sd_Method (hc_Shutdown h) = ''ssh'' \<longrightarrow> ssh_ready lf h)"
    (is "?planned \<longleftrightarrow> ?ready")
proof -
  have "?planned \<longleftrightarrow> (\<exists>h\<in>set (cf_Hosts cfg). hc_ID h = hid
      \<and> direct_method (sd_Method (hc_Shutdown (exclude_host ex h))))"
    unfolding plan_members runtime_hosts toHostConfigs_def by (auto simp: image_iff)
  also have "\<dots> \<longleftrightarrow> (\<exists>h\<in>set (cf_Hosts cfg). hc_ID h = hid \<and> sd_Method (hc_Shutdown h) = ''ssh'')
      \<and> fmlookup ex hid = None"
    using excluded_direct [OF assms] by auto
  finally show ?thesis using armed_excluded [OF assms, of hid] by blast
qed

lemma excluded_nut_group:
  assumes "h \<in> set (cf_Hosts cfg)" "sd_Method (hc_Shutdown h) = ''nut''" "fmlookup ex (hc_ID h) = None"
  shows "hc_ID h \<in> set (sp_NUTGroup (BuildShutdownPlan (toHostConfigs (cf_Hosts (RuntimeConfigWithExclusions cfg ex)))))"
proof -
  have "exclude_host ex h = h" using assms(3) by (simp add: exclude_host_def)
  then have "toHostConfig h \<in> set (toHostConfigs (cf_Hosts (RuntimeConfigWithExclusions cfg ex)))"
    using assms(1) unfolding runtime_hosts toHostConfigs_def by (auto simp: image_iff intro: bexI [of _ h])
  then show ?thesis unfolding plan_members using assms(2) by (auto simp: image_iff intro!: bexI [of _ "toHostConfig h"])
qed

lemma excluded_not_eligible:
  assumes "h \<in> set (toHostConfigs (cf_Hosts (RuntimeConfigWithExclusions cfg ex)))" "fmlookup ex (hp_ID h) \<noteq> None"
  shows "\<not> EligibleForRestore h hs"
proof -
  obtain g where g: "h = toHostConfig (exclude_host ex g)"
    using assms(1) by (auto simp: runtime_hosts toHostConfigs_def)
  then have "fmlookup ex (hc_ID g) \<noteq> None" using assms(2) by simp
  then have "\<not> wk_Enabled (hc_Wake (exclude_host ex g))" by (auto simp: exclude_host_def)
  then show ?thesis by (simp add: EligibleForRestore_def g)
qed

lemma unsafe_prefix:
  "\<not> unsafe_user user \<Longrightarrow> \<not> HasPrefix (user @ rest) ''-''" "\<not> unsafe_key key \<Longrightarrow> \<not> HasPrefix key ''-''"
  by (cases user; auto simp: unsafe_user_def HasPrefix_def) (simp add: unsafe_key_def)

lemma Shutdown_cases:
  assumes "Shutdown ex h x = (r, x')"
  obtains (untouched) "x' = x" "r \<noteq> Inr DirectRequested"
  | (ran) user key address res where "sd_Method (hc_Shutdown h) = ''ssh''" "hc_Address h = Some address"
      "validateEndpoint address = None" "\<not> unsafe_user user" "\<not> unsafe_key key"
      "runWithProgress ex (ssh_timeout h) ''ssh'' (ssh_args key (user @ ''@'' @ address)) x = (res, x')"
      "r = ssh_outcome res"
  using assms
  by (auto simp: Shutdown_def shutdownSSH_def Let_def split: if_splits option.splits prod.splits)

section \<open>Properties\<close>

text \<open>
  Claim C36. Waiting for a host to go down or come up ends exactly when it should: it succeeds if and only
  if, at some round, the configured number of consecutive probes up to it were known and agreed with the
  state waited for and no earlier round was ended by a probe error or by the context; and it returns at
  all if and only if it succeeds or some round is ended by an error.
\<close>

theorem wait_needs_consecutive_observations:
  "let probe = Check ck a cfg; pause = ck_after ck (probe_interval cfg); need = nat (needed cfg);
       env = (\<lambda>i. rounds probe pause i x);
       settled = (\<exists>n. need \<le> Suc n \<and> (\<forall>i<n. goes_on probe pause (env i))
                    \<and> (\<forall>i\<le>n. n < i + need \<longrightarrow> observed probe want (env i)))
   in ((\<exists>x'. WaitForConsecutive ck a cfg want x = Some (None, x')) \<longleftrightarrow> settled)
      \<and> (WaitForConsecutive ck a cfg want x \<noteq> None \<longleftrightarrow> settled \<or> (\<exists>n. \<not> goes_on probe pause (env n)))"
  unfolding Let_def settles_fresh [symmetric] WaitForConsecutive_loop
proof (intro conjI iffI)
  let ?wait = "wait_loop (Check ck a cfg) (ck_after ck (probe_interval cfg)) want (int (nat (needed cfg))) (int 0) x"
  let ?settles = "\<lambda>n. settles (Check ck a cfg) (ck_after ck (probe_interval cfg)) want (nat (needed cfg)) 0 n x"
  let ?stops = "\<lambda>n. \<not> goes_on (Check ck a cfg) (ck_after ck (probe_interval cfg))
    (rounds (Check ck a cfg) (ck_after ck (probe_interval cfg)) n x)"
  note returned = wait_loop_returned [OF _ needed_pos(2)]
  show "\<exists>n. ?settles n" if ok: "\<exists>x'. ?wait = Some (None, x')"
  proof -
    obtain x' where "?wait = Some (None, x')" using ok by blast
    from returned [OF this] show ?thesis by (simp add: ended_def)
  qed
  show "\<exists>x'. ?wait = Some (None, x')" if "\<exists>n. ?settles n"
    using that by (elim exE) (rule wait_loop_settles [OF needed_pos(2)])
  show "(\<exists>n. ?settles n) \<or> (\<exists>n. ?stops n)" if "?wait \<noteq> None"
  proof -
    obtain e x' where "?wait = Some (e, x')" using \<open>?wait \<noteq> None\<close> by auto
    from returned [OF this] show ?thesis unfolding ended_def by (cases e) auto
  qed
  show "?wait \<noteq> None" if "(\<exists>n. ?settles n) \<or> (\<exists>n. ?stops n)"
    using that
  proof
    assume "\<exists>n. ?settles n"
    then have "\<exists>x'. ?wait = Some (None, x')" by (elim exE) (rule wait_loop_settles [OF needed_pos(2)])
    then show ?thesis by auto
  next
    assume "\<exists>n. ?stops n"
    then show ?thesis by (elim exE) (rule wait_loop_stops)
  qed
qed

text \<open>A TCP service that answers from the second probe on; the environment counts probes.\<close>

definition demo_checker :: "nat checker" where
  "demo_checker = \<lparr>ck_Progress = None, ck_dial = (\<lambda>_ _ n. (1 \<le> n, n + 1)),
     ck_run = (\<lambda>_ _ _ n. (\<lparr>rr_out = '''', rr_err = None, rr_exited = False, rr_expired = False\<rparr>, n)),
     ck_ctxErr = (\<lambda>_. None), ck_after = (\<lambda>_ n. (None, n))\<rparr>"

definition demo_status :: status_config where
  "demo_status = \<lparr>sc_Method = ''tcp'', sc_Port = Some 22, sc_TimeoutMS = 1000, sc_SuccessConsecutive = 2,
     sc_ProbeIntervalSeconds = 5\<rparr>"

lemma demo_check: "Check demo_checker ''nas'' demo_status n = (Inr (known (1 \<le> n)), n + 1)"
proof -
  have "validateEndpoint ''nas'' = None"
    by (simp add: validateEndpoint_def TrimSpace_plain plain_char_def ascii_space_def HasPrefix_def ContainsAny_def)
  then show ?thesis
    by (simp add: Check_def probe_method_def check_tcp_def demo_checker_def demo_status_def progress_def)
qed

theorem wait_needs_consecutive_observations_witness:
  "\<exists>x'. WaitForConsecutive demo_checker ''nas'' demo_status True 0 = Some (None, x')"
proof -
  let ?pause = "ck_after demo_checker (probe_interval demo_status)"
  have p: "?pause n = (None, n)" for n by (simp add: demo_checker_def)
  have env: "rounds (Check demo_checker ''nas'' demo_status) ?pause i 0 = i" for i
    by (induction i) (simp_all add: rounds_def round_of_def demo_check p)
  have "nat (needed demo_status) = 2" by (simp add: needed_def demo_status_def)
  then have "nat (needed demo_status) \<le> Suc 2
      \<and> (\<forall>i<2. goes_on (Check demo_checker ''nas'' demo_status) ?pause i)
      \<and> (\<forall>i\<le>2. 2 < i + nat (needed demo_status) \<longrightarrow> observed (Check demo_checker ''nas'' demo_status) True i)"
    by (auto simp: goes_on_def observed_def demo_check p agrees_def known_def)
  then show ?thesis
    using wait_needs_consecutive_observations [of demo_checker "''nas''" demo_status 0 True]
    unfolding Let_def env by blast
qed



text \<open>A fleet of two SSH hosts, the key of one of them writable by its group.\<close>

definition demo_ssh_host :: "string \<Rightarrow> string \<Rightarrow> host_config" where
  "demo_ssh_host hid key = zero_host_config\<lparr>hc_ID := hid, hc_Address := Some hid,
     hc_Shutdown := (hc_Shutdown zero_host_config)\<lparr>sd_Method := ''ssh'', sd_SSHUser := Some ''u'',
       sd_SSHKeyFile := Some key\<rparr>\<rparr>"

definition demo_ssh_config :: config where
  "demo_ssh_config = demo_agent_config\<lparr>cf_Hosts := [demo_ssh_host ''a'' ''k'', demo_ssh_host ''b'' ''w'']\<rparr>"

definition demo_files :: local_files where
  "demo_files = \<lparr>lf_stat = (\<lambda>p. Inr (True, if p = ''w'' then 432 else 384)),
     lf_keygen = (\<lambda>_ _. \<lparr>kg_out = ''h'', kg_failed = False, kg_missing = False\<rparr>)\<rparr>"

lemma demo_endpoints:
  "validateEndpoint ''a'' = None" "validateEndpoint ''b'' = None" "TrimSpace ''k'' = ''k''" "TrimSpace ''w'' = ''w''"
  "TrimSpace ''h'' = ''h''" "TrimSpace ''u'' = ''u''" "\<not> unsafe_user ''u''" "\<not> unsafe_key ''k''"
  by (simp_all add: validateEndpoint_def unsafe_user_def unsafe_key_def TrimSpace_plain ascii_space_def
      plain_char_def HasPrefix_def ContainsAny_def)

lemma demo_prerequisites:
  "validateSSHLocalPrerequisites demo_files x ''k'' = None"
  "validateSSHLocalPrerequisites demo_files x ''w'' = Some (KeyWritable ''w'')"
  by (simp_all add: validateSSHLocalPrerequisites_def validateSSHLocalPrerequisitesAt_def demo_endpoints
      demo_files_def validateKnownHost_def)

lemma demo_exclusions:
  "RuntimeArmedExclusions demo_files demo_ssh_config = Excluded (fmupd ''b'' (KeyWritable ''w'') fmempty)"
proof -
  have "validateStaticArmedCapabilities demo_ssh_config = None"
    by (simp add: validateStaticArmedCapabilities_def demo_ssh_config_def demo_agent_config_def demo_ssh_host_def
        zero_host_config_def armed_host_def armed_shutdown_def demo_endpoints)
  moreover have "exclusion_loop demo_files (cf_Hosts demo_ssh_config) fmempty
      = Some (fmupd ''b'' (KeyWritable ''w'') fmempty)"
    by (simp add: demo_ssh_config_def demo_ssh_host_def zero_host_config_def demo_prerequisites)
  ultimately show ?thesis by (simp add: RuntimeArmedExclusions_def)
qed


text \<open>An executor whose commands succeed; the environment counts them.\<close>

definition demo_executor :: "nat executor" where
  "demo_executor = \<lparr>ex_Progress = None, ex_ProgressInterval = 0,
     ex_run = (\<lambda>_ _ _ n. (\<lparr>rr_out = '''', rr_err = None, rr_exited = False, rr_expired = False\<rparr>, n + 1)),
     ex_watch = (\<lambda>_ _ _ _ n. (0, ContextOver '''', n))\<rparr>"


end
