(* ===== verification/NUT_Client.thy ===== *)
theory NUT_Client
  imports Policy_Engine Go_Strings
begin

text \<open>
  The NUT client of \<^verbatim>\<open>agent/internal/nut\<close>: the parser of \<^verbatim>\<open>upsc\<close> output (\<^verbatim>\<open>client.go\<close>) and the guarded
  forced-shutdown request (\<^verbatim>\<open>fsd.go\<close>). Running a command and reading a file are parameters.
\<close>

section \<open>Definitions\<close>

datatype nut_error =
    RunnerNil
  | UPSCFailed string string
  | ScanFailed
  | StatusMissing
  | OpenFailed string
  | NotPrimary
  | MultiplePrimaries nat
  | FSDFailed string string

text \<open>A command runner: timeout, program, arguments; the combined output and an error text.\<close>

type_synonym 'x runner = "duration \<Rightarrow> string \<Rightarrow> string list \<Rightarrow> 'x \<Rightarrow> (string \<times> string option) \<times> 'x"

record 'x nut_client =
  cl_Runner :: "'x runner option"
  cl_UPSCPath :: string
  cl_UPSMonPath :: string
  cl_Timeout :: duration

definition NewClient :: "'x runner \<Rightarrow> 'x nut_client" where
  "NewClient exec = \<lparr>cl_Runner = Some exec, cl_UPSCPath = ''upsc'', cl_UPSMonPath = ''upsmon'',
     cl_Timeout = 5 * Second\<rparr>"

definition Target :: "string \<Rightarrow> string \<Rightarrow> int \<Rightarrow> string" where
  "Target upsName host port =
     (let h = (if host = '''' then ''localhost'' else host) in
      if port \<le> 0 \<or> port = 3493 then upsName @ ''@'' @ h
      else upsName @ ''@'' @ h @ '':'' @ itoa port)"

definition unknown_status :: "(string, string) fmap \<Rightarrow> status" where
  "unknown_status vars =
     \<lparr>us_Utility = UtilityUnknown, us_LowBattery = False, us_FSD = False, us_ChargePercent = None,
      us_RuntimeSeconds = None, us_RawStatus = '''', us_Variables = vars\<rparr>"

text \<open>One line of \<^verbatim>\<open>upsc\<close> output, a variable and its value.\<close>

definition scan_variable :: "string \<Rightarrow> (string, string) fmap \<Rightarrow> (string, string) fmap" where
  "scan_variable raw vars =
     (let line = TrimSpace raw in
      if line = '''' then vars
      else
        (case Cut (CHR '':'') line of
           None \<Rightarrow> vars
         | Some (key, value) \<Rightarrow> fmupd (TrimSpace key) (TrimSpace value) vars))"

definition utility_of :: "string list \<Rightarrow> utility_state" where
  "utility_of tokens =
     (let hasOL = (''OL'' \<in> set tokens); hasOB = (''OB'' \<in> set tokens) in
      if hasOL \<and> \<not> hasOB then UtilityOnline
      else if hasOB \<and> \<not> hasOL then UtilityOnBattery
      else UtilityUnknown)"

text \<open>The optional numeric variables: absent, empty or malformed values are no observation.\<close>

definition numeric_variable :: "(string \<Rightarrow> 'a option) \<Rightarrow> (string, string) fmap \<Rightarrow> string \<Rightarrow> 'a option" where
  "numeric_variable parse vars name =
     (case fmlookup vars name of None \<Rightarrow> None | Some v \<Rightarrow> if v = '''' then None else parse v)"

definition ParseUPSC :: "string \<Rightarrow> status \<times> nut_error option" where
  "ParseUPSC data =
     (let (ls, failed) = ScanLines data;
          vars = fold scan_variable ls fmempty
      in if failed then (unknown_status vars, Some ScanFailed)
         else
           (case fmlookup vars ''ups.status'' of
              None \<Rightarrow> (unknown_status vars, Some StatusMissing)
            | Some raw \<Rightarrow>
                if TrimSpace raw = '''' then (unknown_status vars, Some StatusMissing)
                else
                  (let tokens = Fields raw in
                   (\<lparr>us_Utility = utility_of tokens, us_LowBattery = (''LB'' \<in> set tokens),
                     us_FSD = (''FSD'' \<in> set tokens),
                     us_ChargePercent = numeric_variable ParseFloat vars ''battery.charge'',
                     us_RuntimeSeconds = numeric_variable ParseInt vars ''battery.runtime'',
                     us_RawStatus = raw, us_Variables = vars\<rparr>, None))))"

definition effective_timeout :: "'x nut_client \<Rightarrow> duration" where
  "effective_timeout cl = (if cl_Timeout cl \<le> 0 then 5 * Second else cl_Timeout cl)"

definition Query :: "'x nut_client \<Rightarrow> string \<Rightarrow> 'x \<Rightarrow> (status \<times> nut_error option) \<times> 'x" where
  "Query cl target x =
     (case cl_Runner cl of
        None \<Rightarrow> ((unknown_status fmempty, Some RunnerNil), x)
      | Some run \<Rightarrow>
          (let path = (if cl_UPSCPath cl = '''' then ''upsc'' else cl_UPSCPath cl);
               ((out, err), x') = run (effective_timeout cl) path [target] x
           in case err of
                Some e \<Rightarrow> ((unknown_status fmempty, Some (UPSCFailed target e)), x')
              | None \<Rightarrow>
                  (case ParseUPSC out of
                     (st, Some e) \<Rightarrow> ((st\<lparr>us_Utility := UtilityUnknown\<rparr>, Some e), x')
                   | (st, None) \<Rightarrow> ((st, None), x'))))"

subsection \<open>Forced shutdown\<close>

text \<open>The fields of a line of \<^verbatim>\<open>upsmon.conf\<close> that declares a UPS monitored as primary.\<close>

definition primary_monitor :: "string \<Rightarrow> string list option" where
  "primary_monitor raw =
     (let line = TrimSpace raw; fs = Fields line in
      if line = '''' \<or> HasPrefix line ''#'' then None
      else if length fs < 6 \<or> map lower_char (fs ! 0) \<noteq> ''monitor'' then None
      else (let role = ToLower (fs ! 5) in
            if role \<noteq> ''primary'' \<and> role \<noteq> ''master'' then None else Some fs))"

definition configured_ups :: "string list \<Rightarrow> string" where
  "configured_ups fs =
     (case Cut (CHR ''@'') (fs ! 1) of None \<Rightarrow> fs ! 1 | Some (name, _) \<Rightarrow> name)"

fun count_primaries :: "string \<Rightarrow> string list \<Rightarrow> nat \<Rightarrow> bool \<Rightarrow> nat \<times> bool" where
  "count_primaries ups [] n target = (n, target)"
| "count_primaries ups (l # ls) n target =
     (case primary_monitor l of
        None \<Rightarrow> count_primaries ups ls n target
      | Some fs \<Rightarrow> count_primaries ups ls (n + 1) (target \<or> configured_ups fs = ups))"

text \<open>A file is the error of opening it, or its content and whether reading it failed at the end.\<close>

type_synonym file_read = "string + string \<times> bool"

definition ValidatePrimaryMonitor :: "file_read \<Rightarrow> string \<Rightarrow> nut_error option" where
  "ValidatePrimaryMonitor file upsName =
     (case file of
        Inl e \<Rightarrow> Some (OpenFailed e)
      | Inr (content, read_failed) \<Rightarrow>
          (let (ls, too_long) = ScanLines content;
               (n, target) = count_primaries upsName ls 0 False
           in if too_long \<or> read_failed then Some ScanFailed
              else if \<not> target then Some NotPrimary
              else if n \<noteq> 1 then Some (MultiplePrimaries n)
              else None))"

definition RequestFSD ::
  "'x nut_client \<Rightarrow> (string \<Rightarrow> 'x \<Rightarrow> file_read) \<Rightarrow> string \<Rightarrow> string \<Rightarrow> 'x \<Rightarrow> nut_error option \<times> 'x" where
  "RequestFSD cl read upsName confPath x =
     (case ValidatePrimaryMonitor (read confPath x) upsName of
        Some e \<Rightarrow> (Some e, x)
      | None \<Rightarrow>
          (case cl_Runner cl of
             None \<Rightarrow> (Some RunnerNil, x)
           | Some run \<Rightarrow>
               (let path = (if cl_UPSMonPath cl = '''' then ''upsmon'' else cl_UPSMonPath cl);
                    ((out, err), x') = run (effective_timeout cl) path [''-c'', ''fsd''] x
                in case err of
                     Some e \<Rightarrow> (Some (FSDFailed e (TrimSpace out)), x')
                   | None \<Rightarrow> (None, x'))))"

section \<open>Variables\<close>

text \<open>A line of \<^verbatim>\<open>upsc\<close> output as NUT prints it.\<close>

definition variable_line :: "string \<Rightarrow> string \<Rightarrow> string" where
  "variable_line key value = key @ '': '' @ value"

definition short_text :: "string \<Rightarrow> bool" where
  "short_text v \<longleftrightarrow> length v < 65000 \<and> newline \<notin> set v \<and> v \<noteq> [] \<and> plain_char (hd v) \<and> plain_char (last v)"

definition plain_key :: "string \<Rightarrow> bool" where
  "plain_key k \<longleftrightarrow> plain_token k \<and> CHR '':'' \<notin> set k \<and> length k < 500"

lemma ScanLines_variable:
  assumes "plain_key k" "short_text v"
  shows "ScanLines (variable_line k v @ newline # rest)
    = (variable_line k v # fst (ScanLines rest), snd (ScanLines rest))"
proof -
  have "newline \<notin> set (variable_line k v)"
    using assms plain_char_CR(2) by (auto simp: variable_line_def plain_key_def plain_token_def short_text_def list_all_iff)
  moreover have "dropCR (variable_line k v) = variable_line k v"
    using assms plain_char_CR(1) by (simp add: dropCR_def variable_line_def short_text_def)
  moreover have "length (variable_line k v) < MaxScanTokenSize"
    using assms by (simp add: variable_line_def plain_key_def short_text_def MaxScanTokenSize_def)
  ultimately show ?thesis
    by (simp add: ScanLines_def raw_lines_first split: prod.split)
qed

lemma scan_variable_line:
  assumes "plain_key k" "short_text v"
  shows "scan_variable (variable_line k v) vars = fmupd k v vars"
proof -
  have "k \<noteq> []" "plain_char (hd k)" using assms(1) by (auto simp: plain_key_def plain_token_def list_all_iff)
  then have "TrimSpace (variable_line k v) = variable_line k v"
    using assms(2) by (intro TrimSpace_plain) (simp add: variable_line_def short_text_def)
  moreover have "TrimSpace k = k" "TrimSpace v = v"
    using assms by (simp_all add: plain_key_def TrimSpace_token TrimSpace_plain short_text_def)
  moreover have "Cut (CHR '':'') (variable_line k v) = Some (k, CHR '' '' # v)"
    using assms(1) Cut_first [of "CHR '':''" k] by (simp add: variable_line_def plain_key_def)
  moreover have "variable_line k v \<noteq> []" by (simp add: variable_line_def)
  ultimately show ?thesis by (simp add: scan_variable_def)
qed

section \<open>Properties\<close>

text \<open>What NUT prints for a status with the given flags and runtime.\<close>

definition upsc_report :: "string list \<Rightarrow> int \<Rightarrow> string" where
  "upsc_report flags runtime =
     variable_line ''battery.runtime'' (itoa runtime) @ [newline]
     @ variable_line ''ups.status'' (unwords flags) @ [newline]"

lemma itoa_text: "short_text (itoa n) \<or> 65000 \<le> length (itoa n)"
proof -
  have p: "list_all plain_char (itoa n)" "itoa n \<noteq> []"
    using utoa_props [of "nat n"] utoa_props [of "nat (- n)"]
    by (auto simp: itoa_def plain_char_def ascii_space_def)
  then have "newline \<notin> set (itoa n)" using plain_char_CR(2) by (auto simp: list_all_iff)
  then show ?thesis using p by (auto simp: short_text_def list_all_iff)
qed

lemma length_utoa: "n < 10 ^ k \<Longrightarrow> 0 < k \<Longrightarrow> length (utoa n) \<le> k"
proof (induction n arbitrary: k rule: utoa.induct)
  case (1 n)
  show ?case
  proof (cases "n < 10")
    case False
    then obtain k' where k: "k = Suc k'" "0 < k'" using 1(2,3) by (cases k; cases "k - 1") auto
    have "n div 10 < 10 ^ k'" using 1(2) k by (simp add: less_mult_imp_div_less mult.commute)
    then show ?thesis using 1(1) [OF False] k False by (simp add: utoa.simps [of n])
  qed (use 1(3) in \<open>simp add: utoa.simps [of n]\<close>)
qed

lemma unwords_ends:
  assumes "list_all plain_token ws" "ws \<noteq> []"
  shows "unwords ws \<noteq> [] \<and> plain_char (hd (unwords ws)) \<and> plain_char (last (unwords ws)) \<and> newline \<notin> set (unwords ws)"
  using assms
proof (induction ws rule: unwords.induct)
  case (2 w)
  then show ?case using plain_char_CR(2) by (auto simp: plain_token_def list_all_iff)
next
  case (3 w v ws)
  then show ?case
    using plain_char_CR(2) by (auto simp: plain_token_def list_all_iff)
qed simp

text \<open>
  Claim C28. Reading back what NUT reports: for every non-empty list of status flags and every runtime of
  64 bits, parsing the report gives exactly these flags as the raw status, the utility state they
  determine, low battery and FSD exactly when flagged, and the runtime.
\<close>

theorem upsc_report_round_trip:
  assumes "list_all plain_token flags" "flags \<noteq> []" "length (unwords flags) < 65000"
    and "- (2 ^ 63) \<le> runtime" "runtime < 2 ^ 63"
  shows "\<exists>st. ParseUPSC (upsc_report flags runtime) = (st, None)
    \<and> us_RawStatus st = unwords flags \<and> us_Utility st = utility_of flags
    \<and> us_LowBattery st = (''LB'' \<in> set flags) \<and> us_FSD st = (''FSD'' \<in> set flags)
    \<and> us_RuntimeSeconds st = Some runtime \<and> us_ChargePercent st = None"
proof -
  have keys: "plain_key ''battery.runtime''" "plain_key ''ups.status''"
    by (simp_all add: plain_key_def plain_token_def plain_char_def ascii_space_def)
  have "nat runtime < 10 ^ 19" "nat (- runtime) < 10 ^ 19" using assms(4,5) by (simp_all add: nat_less_iff)
  then have "length (itoa runtime) \<le> 20"
    using length_utoa [of "nat runtime" 19] length_utoa [of "nat (- runtime)" 19] by (simp add: itoa_def)
  then have v1: "short_text (itoa runtime)" using itoa_text [of runtime] by simp
  have v2: "short_text (unwords flags)"
    using unwords_ends [OF assms(1,2)] assms(3) by (simp add: short_text_def)
  have "ScanLines (upsc_report flags runtime)
      = ([variable_line ''battery.runtime'' (itoa runtime), variable_line ''ups.status'' (unwords flags)], False)"
    using ScanLines_variable [OF keys(1) v1, of "variable_line ''ups.status'' (unwords flags) @ [newline]"]
      ScanLines_variable [OF keys(2) v2, of "[]"]
    by (simp add: upsc_report_def) (simp add: ScanLines_def)
  moreover have "TrimSpace (unwords flags) \<noteq> []"
    using v2 by (simp add: TrimSpace_plain short_text_def)
  moreover have "itoa runtime \<noteq> []" using v1 by (simp add: short_text_def)
  ultimately show ?thesis
    using ParseInt_itoa [OF assms(4,5)] Fields_unwords [OF assms(1)]
    by (simp add: ParseUPSC_def scan_variable_line [OF keys(1) v1] scan_variable_line [OF keys(2) v2]
        numeric_variable_def Let_def)
qed

theorem upsc_report_round_trip_witness:
  "\<exists>st. ParseUPSC (upsc_report [''OB'', ''LB''] 120) = (st, None) \<and> us_Utility st = UtilityOnBattery
     \<and> us_LowBattery st \<and> \<not> us_FSD st \<and> us_RuntimeSeconds st = Some 120"
  using upsc_report_round_trip [of "[''OB'', ''LB'']" 120]
  by (auto simp: plain_token_def plain_char_def ascii_space_def utility_of_def)

text \<open>
  Claim C29. A status is never invented: whatever the command printed, an error comes with an unknown
  utility state, no flags and no measurements; otherwise online means the report has the flag \<^verbatim>\<open>OL\<close> and
  not \<^verbatim>\<open>OB\<close>, on battery the converse, and low battery and FSD their own flags.
\<close>

theorem query_never_invents_status:
  assumes "Query cl target x = ((st, err), x')"
  shows "case err of
      Some _ \<Rightarrow> us_Utility st = UtilityUnknown \<and> \<not> us_LowBattery st \<and> \<not> us_FSD st
        \<and> us_ChargePercent st = None \<and> us_RuntimeSeconds st = None
    | None \<Rightarrow> fmlookup (us_Variables st) ''ups.status'' = Some (us_RawStatus st)
        \<and> (us_Utility st = UtilityOnline \<longleftrightarrow> ''OL'' \<in> set (Fields (us_RawStatus st)) \<and> ''OB'' \<notin> set (Fields (us_RawStatus st)))
        \<and> (us_Utility st = UtilityOnBattery \<longleftrightarrow> ''OB'' \<in> set (Fields (us_RawStatus st)) \<and> ''OL'' \<notin> set (Fields (us_RawStatus st)))
        \<and> (us_LowBattery st \<longleftrightarrow> ''LB'' \<in> set (Fields (us_RawStatus st)))
        \<and> (us_FSD st \<longleftrightarrow> ''FSD'' \<in> set (Fields (us_RawStatus st)))"
proof -
  have parse: "ParseUPSC out = (s, e) \<Longrightarrow> case e of
      Some _ \<Rightarrow> us_Utility s = UtilityUnknown \<and> \<not> us_LowBattery s \<and> \<not> us_FSD s
        \<and> us_ChargePercent s = None \<and> us_RuntimeSeconds s = None
    | None \<Rightarrow> fmlookup (us_Variables s) ''ups.status'' = Some (us_RawStatus s)
        \<and> us_Utility s = utility_of (Fields (us_RawStatus s))
        \<and> (us_LowBattery s \<longleftrightarrow> ''LB'' \<in> set (Fields (us_RawStatus s)))
        \<and> (us_FSD s \<longleftrightarrow> ''FSD'' \<in> set (Fields (us_RawStatus s)))" for out s e
    by (auto simp: ParseUPSC_def unknown_status_def Let_def split: prod.splits option.splits if_splits)
  have util: "(utility_of ts = UtilityOnline \<longleftrightarrow> ''OL'' \<in> set ts \<and> ''OB'' \<notin> set ts)
      \<and> (utility_of ts = UtilityOnBattery \<longleftrightarrow> ''OB'' \<in> set ts \<and> ''OL'' \<notin> set ts)" for ts
    by (simp add: utility_of_def Let_def)
  show ?thesis
    using assms parse util
    by (fastforce simp: Query_def unknown_status_def Let_def split: option.splits prod.splits)
qed

theorem query_never_invents_status_witness:
  "\<exists>st. Query (NewClient (\<lambda>_ _ _ x. ((upsc_report [''OL''] 60, None), x))) ''ups@localhost'' () = ((st, None), ())
     \<and> us_Utility st = UtilityOnline"
proof -
  obtain st where p: "ParseUPSC (upsc_report [''OL''] 60) = (st, None)" "us_RawStatus st = ''OL''"
    using upsc_report_round_trip [of "[''OL'']" 60] by (auto simp: plain_token_def plain_char_def ascii_space_def)
  have q: "Query (NewClient (\<lambda>_ _ _ x. ((upsc_report [''OL''] 60, None), x))) ''ups@localhost'' () = ((st, None), ())"
    using p by (simp add: Query_def NewClient_def)
  have "Fields ''OL'' = [''OL'']"
    using Fields_unwords [of "[''OL'']"] by (simp add: plain_token_def plain_char_def ascii_space_def)
  then show ?thesis using query_never_invents_status [OF q] q p(2) by simp
qed


end
