(* ===== verification/Go_Net.thy ===== *)
theory Go_Net
  imports Go_Strings
begin

text \<open>
  The address parsers of Go's \<^verbatim>\<open>net\<close> package the agent uses: \<^verbatim>\<open>ParseMAC\<close>, \<^verbatim>\<open>ParseIP\<close> and \<^verbatim>\<open>To4\<close>. A
  hardware or IP address is the list of its bytes.
\<close>

section \<open>Hardware addresses\<close>

text \<open>Two hexadecimal digits, followed by the separator unless the input ends there.\<close>

definition xtoi2 :: "string \<Rightarrow> char \<Rightarrow> nat option" where
  "xtoi2 s sep =
     (if length s > 2 \<and> s ! 2 \<noteq> sep then None
      else
        (case take 2 s of
           [a, b] \<Rightarrow> (case (hex_val a, hex_val b) of (Some x, Some y) \<Rightarrow> Some (nat (16 * x + y)) | _ \<Rightarrow> None)
         | _ \<Rightarrow> None))"

definition net_ParseMAC :: "string \<Rightarrow> nat list option" where
  "net_ParseMAC s =
     (if length s < 14 then None
      else if s ! 2 = CHR '':'' \<or> s ! 2 = CHR ''-'' then
        (let n = (length s + 1) div 3 in
         if (length s + 1) mod 3 \<noteq> 0 \<or> n \<notin> {6, 8, 20} then None
         else those (map (\<lambda>i. xtoi2 (drop (3 * i) s) (s ! 2)) [0..<n]))
      else if s ! 4 = CHR ''.'' then
        (let n = 2 * (length s + 1) div 5 in
         if (length s + 1) mod 5 \<noteq> 0 \<or> n \<notin> {6, 8, 20} then None
         else those (concat (map (\<lambda>i. [xtoi2 (take 2 (drop (5 * i) s)) (CHR 0x00),
                                        xtoi2 (drop (5 * i + 2) s) (CHR ''.'')]) [0..<n div 2])))
      else None)"

section \<open>IP addresses\<close>

definition ipv4_octet :: "string \<Rightarrow> nat option" where
  "ipv4_octet f =
     (if f = [] \<or> \<not> list_all is_digit f \<or> (length f > 1 \<and> hd f = CHR ''0'') \<or> number_of f > 255
      then None else Some (nat (number_of f)))"

definition parse_ipv4 :: "string \<Rightarrow> nat list option" where
  "parse_ipv4 s =
     (case those (map ipv4_octet (Split (CHR ''.'') s)) of
        Some [a, b, c, d] \<Rightarrow> Some [a, b, c, d]
      | _ \<Rightarrow> None)"

definition hex_number :: "string \<Rightarrow> nat" where
  "hex_number s = nat (foldl (\<lambda>n c. n * 16 + the (hex_val c)) 0 s)"

text \<open>
  The groups of an IPv6 address: the bytes read so far, and the position of the ellipsis once it has
  been seen.
\<close>

function ipv6_groups :: "nat list \<Rightarrow> nat option \<Rightarrow> string \<Rightarrow> (nat list \<times> nat option) option" where
  "ipv6_groups acc ell s =
     (if length acc \<ge> 16 then (if s = [] then Some (acc, ell) else None)
      else
        (let h = takeWhile (\<lambda>c. hex_val c \<noteq> None) s; rest = drop (length h) s;
             acc' = acc @ [hex_number h div 256, hex_number h mod 256] in
         if h = [] \<or> length h > 4 then None
         else
           (case rest of
              [] \<Rightarrow> Some (acc', ell)
            | c # t \<Rightarrow>
                if c = CHR ''.'' then
                  (if ell = None \<and> length acc \<noteq> 12 \<or> length acc + 4 > 16 then None
                   else map_option (\<lambda>b. (acc @ b, ell)) (parse_ipv4 s))
                else if c \<noteq> CHR '':'' then None
                else
                  (case t of
                     [] \<Rightarrow> None
                   | c' # t' \<Rightarrow>
                       if c' \<noteq> CHR '':'' then ipv6_groups acc' ell t
                       else if ell \<noteq> None then None
                       else if t' = [] then Some (acc', Some (length acc'))
                       else ipv6_groups acc' (Some (length acc')) t'))))"
  by pat_completeness auto
termination
  by (relation "measure (\<lambda>(acc, ell, s). length s)")
    (auto dest!: arg_cong [where f = length])

declare ipv6_groups.simps [simp del]

definition parse_ipv6 :: "string \<Rightarrow> nat list option" where
  "parse_ipv6 s =
     (let (ell, body) = (if HasPrefix s ''::'' then (Some 0, drop 2 s) else (None, s)) in
      if ell \<noteq> None \<and> body = [] then Some (replicate 16 0)
      else
        (case ipv6_groups [] ell body of
           None \<Rightarrow> None
         | Some (bytes, ell') \<Rightarrow>
             (case ell' of
                None \<Rightarrow> (if length bytes < 16 then None else Some bytes)
              | Some p \<Rightarrow>
                  if length bytes < 16
                  then Some (take p bytes @ replicate (16 - length bytes) 0 @ drop p bytes)
                  else None)))"

definition ParseIP :: "string \<Rightarrow> nat list option" where
  "ParseIP s =
     (if CHR ''%'' \<in> set s then None
      else
        (case List.find (\<lambda>c. c = CHR ''.'' \<or> c = CHR '':'') s of
           None \<Rightarrow> None
         | Some c \<Rightarrow>
             if c = CHR ''.'' then map_option (\<lambda>b. replicate 10 0 @ [255, 255] @ b) (parse_ipv4 s)
             else parse_ipv6 s))"

definition To4 :: "nat list \<Rightarrow> nat list option" where
  "To4 ip = (if length ip = 16 \<and> take 12 ip = replicate 10 0 @ [255, 255] then Some (drop 12 ip) else None)"

end
