(* ===== verification/Wake_Packet.thy ===== *)
theory Wake_Packet
  imports Go_Net
begin

text \<open>
  Wake-on-LAN, \<^verbatim>\<open>agent/internal/wol\<close>: the magic packet (\<^verbatim>\<open>magic.go\<close>) and the sender (\<^verbatim>\<open>sender.go\<close>) up to
  the socket. The interface table and the socket are parameters of the sender.
\<close>

section \<open>Definitions\<close>

datatype wol_error =
    Cancelled
  | MACInvalid
  | MACLength
  | PortInvalid
  | BroadcastInvalid
  | InterfaceUnknown
  | InterfaceAddrs
  | NoInterfaceAddress
  | SocketFailed string

type_synonym byte = "8 word"

definition MagicPacketSize :: nat where
  "MagicPacketSize = 102"

definition ParseMAC :: "string \<Rightarrow> wol_error + byte list" where
  "ParseMAC s =
     (case net_ParseMAC s of
        None \<Rightarrow> Inl MACInvalid
      | Some mac \<Rightarrow> if length mac \<noteq> 6 then Inl MACLength else Inr (map word_of_nat mac))"

text \<open>\<^verbatim>\<open>copy(packet[off:off+6], mac)\<close>.\<close>

definition copy_at :: "nat \<Rightarrow> byte list \<Rightarrow> byte list \<Rightarrow> byte list" where
  "copy_at off src packet = take off packet @ src @ drop (off + length src) packet"

fun fill_ff :: "nat \<Rightarrow> byte list \<Rightarrow> byte list" where
  "fill_ff 0 packet = packet"
| "fill_ff (Suc i) packet = (fill_ff i packet)[i := 0xFF]"

fun repeat_mac :: "nat \<Rightarrow> nat \<Rightarrow> byte list \<Rightarrow> byte list \<Rightarrow> byte list" where
  "repeat_mac 0 off mac packet = packet"
| "repeat_mac (Suc n) off mac packet = repeat_mac n (off + 6) mac (copy_at off mac packet)"

definition MagicPacket :: "byte list \<Rightarrow> wol_error + byte list" where
  "MagicPacket mac =
     (if length mac \<noteq> 6 then Inl MACLength
      else Inr (repeat_mac 16 6 mac (fill_ff 6 (replicate MagicPacketSize 0))))"

record wake_request =
  rq_MAC :: string
  rq_Interface :: string
  rq_Broadcast :: string
  rq_Port :: int

text \<open>
  An interface is its address list; an address is a list of bytes. \<^verbatim>\<open>None\<close> stands for an unknown
  interface, \<open>Some None\<close> for one whose addresses cannot be read.
\<close>

type_synonym interfaces = "string \<Rightarrow> nat list list option option"

definition ipv4_of :: "nat list \<Rightarrow> nat list option" where
  "ipv4_of ip = (if length ip = 4 then Some ip else To4 ip)"

definition interfaceIPv4 :: "interfaces \<Rightarrow> string \<Rightarrow> wol_error + nat list" where
  "interfaceIPv4 ifs name =
     (case ifs name of
        None \<Rightarrow> Inl InterfaceUnknown
      | Some None \<Rightarrow> Inl InterfaceAddrs
      | Some (Some addrs) \<Rightarrow>
          (case List.map_filter (\<lambda>ip. case ipv4_of ip of Some ip4 \<Rightarrow> if hd ip4 = 127 then None else Some ip4 | None \<Rightarrow> None) addrs of
             [] \<Rightarrow> Inl NoInterfaceAddress
           | ip # _ \<Rightarrow> Inr ip))"

text \<open>What is handed to the socket: source address, destination, port and packet.\<close>

definition prepare_wake :: "interfaces \<Rightarrow> wake_request \<Rightarrow> wol_error + nat list \<times> nat list \<times> int \<times> byte list" where
  "prepare_wake ifs req =
     (case ParseMAC (rq_MAC req) of
        Inl e \<Rightarrow> Inl e
      | Inr mac \<Rightarrow>
          (case MagicPacket mac of
             Inl e \<Rightarrow> Inl e
           | Inr packet \<Rightarrow>
               (let port = (if rq_Port req = 0 then 9 else rq_Port req) in
                if port < 1 \<or> port > 65535 then Inl PortInvalid
                else
                  (case ParseIP (rq_Broadcast req) of
                     None \<Rightarrow> Inl BroadcastInvalid
                   | Some ip \<Rightarrow>
                       (case To4 ip of
                          None \<Rightarrow> Inl BroadcastInvalid
                        | Some dst \<Rightarrow>
                            (case (if rq_Interface req \<noteq> '''' then interfaceIPv4 ifs (rq_Interface req)
                                   else Inr [0, 0, 0, 0]) of
                               Inl e \<Rightarrow> Inl e
                             | Inr src \<Rightarrow> Inr (src, dst, port, packet)))))))"

definition Sender_Wake ::
  "(nat list \<times> nat list \<times> int \<times> byte list \<Rightarrow> 'x \<Rightarrow> string option \<times> 'x) \<Rightarrow> interfaces \<Rightarrow> bool
     \<Rightarrow> wake_request \<Rightarrow> 'x \<Rightarrow> wol_error option \<times> 'x" where
  "Sender_Wake socket ifs cancelled req x =
     (if cancelled then (Some Cancelled, x)
      else
        (case prepare_wake ifs req of
           Inl e \<Rightarrow> (Some e, x)
         | Inr d \<Rightarrow> (case socket d x of (e, x') \<Rightarrow> (map_option SocketFailed e, x'))))"

section \<open>The shape of the packet\<close>

lemma fill_ff_take: "i \<le> length p \<Longrightarrow> fill_ff i p = replicate i 0xFF @ drop i p"
proof (induction i)
  case (Suc i)
  then have "fill_ff i p = replicate i 0xFF @ drop i p" by simp
  moreover have "drop i p = p ! i # drop (Suc i) p" using Suc.prems by (simp add: Cons_nth_drop_Suc)
  ultimately show ?case by (simp add: list_update_append replicate_append_same)
qed simp

lemma repeat_mac_fill:
  assumes "length mac = 6" "off + 6 * n = length p"
  shows "repeat_mac n off mac p = take off p @ concat (replicate n mac)"
  using assms(2)
proof (induction n arbitrary: off p)
  case (Suc n)
  let ?p = "copy_at off mac p"
  have "length ?p = length p" using assms(1) Suc.prems by (simp add: copy_at_def)
  then have "repeat_mac n (off + 6) mac ?p = take (off + 6) ?p @ concat (replicate n mac)"
    using Suc.prems by (intro Suc.IH) simp
  moreover have "take (off + 6) ?p = take off p @ mac"
    using assms(1) Suc.prems by (simp add: copy_at_def)
  ultimately show ?case by simp
qed simp

lemma those_length: "those xs = Some ys \<Longrightarrow> length ys = length xs"
  by (induction xs arbitrary: ys) (auto split: option.splits)

lemma magic_packet:
  "MagicPacket mac =
     (if length mac = 6 then Inr (replicate 6 0xFF @ concat (replicate 16 mac)) else Inl MACLength)"
proof (cases "length mac = 6")
  case True
  have "repeat_mac 16 6 mac (fill_ff 6 (replicate 102 0)) = replicate 6 0xFF @ concat (replicate 16 mac)"
    using True by (subst repeat_mac_fill) (simp_all add: fill_ff_take)
  then show ?thesis using True by (simp add: MagicPacket_def MagicPacketSize_def)
qed (simp add: MagicPacket_def)

section \<open>Properties\<close>

text \<open>
  The magic packet: for a six-byte hardware address it is six bytes \<^verbatim>\<open>0xff\<close> followed by
  sixteen copies of the address, 102 bytes in all; for any other length it is an error.
\<close>

theorem magic_packet_layout:
  "MagicPacket mac =
     (if length mac = 6 then Inr (replicate 6 0xFF @ concat (replicate 16 mac)) else Inl MACLength)"
  by (rule magic_packet)

end
