(* ===== verification/Config_Validate.thy ===== *)
theory Config_Validate
  imports Config_Types Go_Net
begin

text \<open>
  Defaults and validation of the configuration (\<^verbatim>\<open>agent/internal/config/config.go\<close> and
  \<^verbatim>\<open>address_validation.go\<close>). A problem is the message the source appends; the messages that quote
  identifiers are constructors of their own. The YAML decoder is a parameter.
\<close>

section \<open>Problems\<close>

datatype problem =
    Problem string
  | DuplicateID string string string
  | UnknownDependency nat string
  | SelfDependency nat
  | DependencyCycle "string list"

definition problem_if :: "bool \<Rightarrow> string \<Rightarrow> problem list" where
  "problem_if b msg = (if b then [Problem msg] else [])"

definition indexed :: "string \<Rightarrow> nat \<Rightarrow> string" where
  "indexed name i = name @ ''['' @ utoa i @ '']''"

definition oneOf :: "string \<Rightarrow> string list \<Rightarrow> bool" where
  "oneOf v allowed = list_ex (\<lambda>a. v = a) allowed"

definition nilOrEmpty :: "string option \<Rightarrow> bool" where
  "nilOrEmpty v = (case v of None \<Rightarrow> True | Some s \<Rightarrow> TrimSpace s = '''')"

definition validateOptionalPercent :: "string \<Rightarrow> int option \<Rightarrow> problem list" where
  "validateOptionalPercent path v =
     problem_if (case v of None \<Rightarrow> False | Some n \<Rightarrow> n < 1 \<or> n > 100) (path @ '' must be 1..100'')"

definition validateOptionalPositive :: "string \<Rightarrow> int option \<Rightarrow> problem list" where
  "validateOptionalPositive path v =
     problem_if (case v of None \<Rightarrow> False | Some n \<Rightarrow> n < 1) (path @ '' must be > 0'')"

section \<open>Addresses\<close>

definition is_alnum :: "char \<Rightarrow> bool" where
  "is_alnum c \<longleftrightarrow> is_digit c \<or> (let n = (of_char (lower_char c) :: nat) in 97 \<le> n \<and> n \<le> 122)"

text \<open>\<^verbatim>\<open>hostnameLabelPattern\<close>.\<close>

definition hostname_label :: "string \<Rightarrow> bool" where
  "hostname_label l \<longleftrightarrow> l \<noteq> [] \<and> length l \<le> 63 \<and> is_alnum (hd l) \<and> is_alnum (last l)
     \<and> list_all (\<lambda>c. is_alnum c \<or> c = CHR ''-'') l"

definition isAllDigits :: "string \<Rightarrow> bool" where
  "isAllDigits v \<longleftrightarrow> v \<noteq> '''' \<and> list_all is_digit v"

definition validHostname :: "string \<Rightarrow> bool" where
  "validHostname s =
     (let v = TrimSuffix s ''.''; labels = Split (CHR ''.'') v in
      if v = '''' \<or> length v > 253 then False
      else if isAllDigits (last labels) then False
      else list_all hostname_label labels)"

definition validateAddress :: "string \<Rightarrow> string option \<Rightarrow> problem list" where
  "validateAddress path addr =
     (case addr of
        None \<Rightarrow> []
      | Some s \<Rightarrow>
          if TrimSpace s = '''' then []
          else problem_if (\<not> (ParseIP (TrimSpace s) \<noteq> None \<or> validHostname (TrimSpace s)))
                 (path @ '' must be an IP address or DNS hostname''))"

definition validateIPv4 :: "string \<Rightarrow> string option \<Rightarrow> problem list" where
  "validateIPv4 path value =
     (if nilOrEmpty value then [Problem (path @ '' required when wake is enabled'')]
      else problem_if (case ParseIP (TrimSpace (the value)) of None \<Rightarrow> True | Some ip \<Rightarrow> To4 ip = None)
             (path @ '' must be an IPv4 address''))"

section \<open>Parts of the configuration\<close>

type_synonym id_map = "(string, string) fmap"

definition validateID :: "id_map \<Rightarrow> string \<Rightarrow> string \<Rightarrow> problem list \<times> id_map" where
  "validateID ids hid path =
     (if TrimSpace hid = '''' then ([Problem (path @ ''.id is required'')], ids)
      else
        (case fmlookup ids hid of
           Some prev \<Rightarrow> ([DuplicateID hid prev path], ids)
         | None \<Rightarrow> ([], fmupd hid path ids)))"

definition validateStatus :: "string \<Rightarrow> status_config \<Rightarrow> problem list" where
  "validateStatus path s =
     problem_if (\<not> oneOf (sc_Method s) [''auto'', ''ping'', ''tcp'', ''arp'', ''none'']) (path @ ''.method invalid'')
     @ problem_if (sc_Method s = ''tcp'' \<and> (case sc_Port s of None \<Rightarrow> True | Some p \<Rightarrow> p < 1 \<or> p > 65535))
         (path @ '' TCP method requires valid port'')
     @ problem_if (sc_TimeoutMS s < 100) (path @ ''.timeout_ms must be >= 100'')
     @ problem_if (sc_SuccessConsecutive s < 1) (path @ ''.success_consecutive must be >= 1'')
     @ problem_if (sc_ProbeIntervalSeconds s < 1) (path @ ''.probe_interval_seconds must be >= 1'')"

definition validateWake :: "string \<Rightarrow> wake_config \<Rightarrow> problem list" where
  "validateWake path w =
     problem_if (wk_DelayAfterPreviousSeconds w < 0) (path @ ''.delay_after_previous_seconds must be >= 0'')
     @ (if \<not> wk_Enabled w then []
        else
          problem_if (wk_Port w < 1 \<or> wk_Port w > 65535) (path @ ''.port must be 1..65535'')
          @ problem_if (wk_MaxAttempts w < 1) (path @ ''.max_attempts must be >= 1'')
          @ (if nilOrEmpty (wk_MAC w) then [Problem (path @ ''.mac required when enabled'')]
             else problem_if (case net_ParseMAC (the (wk_MAC w)) of None \<Rightarrow> True | Some mac \<Rightarrow> length mac \<noteq> 6)
                    (path @ ''.mac invalid''))
          @ validateIPv4 (path @ ''.broadcast'') (wk_Broadcast w))"

text \<open>One network dependency, then one host; both loops thread the map of identifiers seen.\<close>

definition validate_dependency :: "string \<Rightarrow> dependency_config \<Rightarrow> problem list" where
  "validate_dependency path d =
     problem_if (\<not> oneOf (dc_Startup d) [''auto-power'', ''wait-only'', ''wol'']) (path @ ''.startup invalid'')
     @ validateStatus (path @ ''.status'') (dc_Status d)
     @ validateWake (path @ ''.wake'') (dc_Wake d)
     @ problem_if (sc_Method (dc_Status d) \<noteq> ''none'' \<and> nilOrEmpty (dc_Address d))
         (path @ ''.address is required when status checks are enabled'')
     @ validateAddress (path @ ''.address'') (dc_Address d)
     @ problem_if (dc_Startup d = ''wol'' \<and> \<not> wk_Enabled (dc_Wake d)) (path @ '' startup=wol requires wake.enabled'')"

definition validate_host :: "string \<Rightarrow> host_config \<Rightarrow> problem list" where
  "validate_host path h =
     problem_if (TrimSpace (hc_Name h) = '''') (path @ ''.name is required'')
     @ problem_if (\<not> oneOf (hc_RestorePolicy h) [''previous-state'', ''always'', ''never''])
         (path @ ''.restore_policy invalid'')
     @ validateStatus (path @ ''.status'') (hc_Status h)
     @ validateWake (path @ ''.wake'') (hc_Wake h)
     @ problem_if (sc_Method (hc_Status h) \<noteq> ''none'' \<and> nilOrEmpty (hc_Address h))
         (path @ ''.address is required when status checks are enabled'')
     @ validateAddress (path @ ''.address'') (hc_Address h)
     @ problem_if (\<not> oneOf (sd_Method (hc_Shutdown h)) [''nut'', ''ssh'', ''command'', ''none''])
         (path @ ''.shutdown.method invalid'')
     @ problem_if (sd_TimeoutSeconds (hc_Shutdown h) < 1) (path @ ''.shutdown.timeout_seconds must be > 0'')
     @ problem_if (sd_Method (hc_Shutdown h) = ''ssh''
           \<and> (nilOrEmpty (sd_SSHUser (hc_Shutdown h)) \<or> nilOrEmpty (sd_SSHKeyFile (hc_Shutdown h))))
         (path @ '' ssh shutdown requires ssh_user and ssh_key_file'')
     @ problem_if (sd_Method (hc_Shutdown h) = ''command'' \<and> nilOrEmpty (sd_CommandID (hc_Shutdown h)))
         (path @ '' command shutdown requires command_id'')"

fun validate_dependencies :: "nat \<Rightarrow> dependency_config list \<Rightarrow> id_map \<Rightarrow> problem list \<times> id_map" where
  "validate_dependencies i [] ids = ([], ids)"
| "validate_dependencies i (d # ds) ids =
     (let path = indexed ''network_dependencies'' i;
          (ps, ids') = validateID ids (dc_ID d) path;
          (qs, ids'') = validate_dependencies (i + 1) ds ids'
      in (ps @ validate_dependency path d @ qs, ids''))"

fun validate_hosts :: "nat \<Rightarrow> host_config list \<Rightarrow> id_map \<Rightarrow> problem list \<times> id_map" where
  "validate_hosts i [] ids = ([], ids)"
| "validate_hosts i (h # hs) ids =
     (let path = indexed ''hosts'' i;
          (ps, ids') = validateID ids (hc_ID h) path;
          (qs, ids'') = validate_hosts (i + 1) hs ids'
      in (ps @ validate_host path h @ qs, ids''))"

fun validate_references :: "nat \<Rightarrow> host_config list \<Rightarrow> id_map \<Rightarrow> problem list" where
  "validate_references i [] ids = []"
| "validate_references i (h # hs) ids =
     concat (map (\<lambda>dep.
       (if fmlookup ids dep = None then [UnknownDependency i dep] else [])
       @ (if dep = hc_ID h then [SelfDependency i] else [])) (hc_DependsOn h))
     @ validate_references (i + 1) hs ids"

section \<open>Dependency cycles\<close>

type_synonym dep_graph = "(string, string list) fmap"

datatype mark = Unvisited | Visiting | Visited

record search =
  sr_marks :: "string \<Rightarrow> mark"
  sr_stack :: "string list"
  sr_problems :: "problem list"

definition deps_of :: "dep_graph \<Rightarrow> string \<Rightarrow> string list" where
  "deps_of g hid = (case fmlookup g hid of None \<Rightarrow> [] | Some ds \<Rightarrow> ds)"

definition enter :: "string \<Rightarrow> search \<Rightarrow> search" where
  "enter hid s = s\<lparr>sr_marks := (sr_marks s)(hid := Visiting), sr_stack := sr_stack s @ [hid]\<rparr>"

definition leave :: "string \<Rightarrow> search \<Rightarrow> search" where
  "leave hid s = s\<lparr>sr_stack := butlast (sr_stack s), sr_marks := (sr_marks s)(hid := Visited)\<rparr>"

text \<open>The stack from the first occurrence of the host that is visited again.\<close>

definition report_cycle :: "string \<Rightarrow> search \<Rightarrow> search" where
  "report_cycle hid s = s\<lparr>sr_problems := sr_problems s
     @ [DependencyCycle ((if hid \<in> set (sr_stack s) then dropWhile (\<lambda>v. v \<noteq> hid) (sr_stack s) else sr_stack s) @ [hid])]\<rparr>"

definition unvisited :: "dep_graph \<Rightarrow> search \<Rightarrow> nat" where
  "unvisited g s = card {x. x |\<in>| fmdom g \<and> sr_marks s x = Unvisited}"

text \<open>\<open>visit_each g ids\<close> calls \<^verbatim>\<open>visit\<close> on each of \<open>ids\<close> in turn.\<close>

function visit_each :: "dep_graph \<Rightarrow> string list \<Rightarrow> search \<Rightarrow> search" where
  "visit_each g [] s = s"
| "visit_each g (hid # ids) s =
     (case sr_marks s hid of
        Visiting \<Rightarrow> visit_each g ids (report_cycle hid s)
      | Visited \<Rightarrow> visit_each g ids s
      | Unvisited \<Rightarrow>
          visit_each g ids
            (leave hid (visit_each g (filter (\<lambda>d. d |\<in>| fmdom g) (deps_of g hid)) (enter hid s))))"
  by pat_completeness auto

lemma unvisited_finite [simp]: "finite {x. x |\<in>| fmdom g \<and> P x}"
  by (rule finite_subset [of _ "fset (fmdom g)"]) auto

lemma visit_each_marks:
  "visit_each_dom (g, ids, s) \<Longrightarrow> sr_marks s x \<noteq> Unvisited \<Longrightarrow> sr_marks (visit_each g ids s) x \<noteq> Unvisited"
  by (induction g ids s rule: visit_each.pinduct)
    (auto simp: visit_each.psimps enter_def leave_def report_cycle_def split: mark.split)

termination visit_each
proof (relation "(\<lambda>(g, ids, s). unvisited g s) <*mlex*> measure (\<lambda>(g, ids, s). length ids)", goal_cases)
  case 1
  show ?case by (simp add: wf_mlex)
next
  case (2 g hid ids s)
  show ?case
  proof (cases "hid |\<in>| fmdom g")
    case True
    then show ?thesis
      using 2 by (intro mlex_less) (auto simp: unvisited_def enter_def intro!: psubset_card_mono)
  next
    case False
    then have "deps_of g hid = []" by (simp add: deps_of_def fmdom_notD)
    then show ?thesis
      using False by (intro mlex_leq) (auto simp: unvisited_def enter_def intro!: card_mono)
  qed
next
  case (3 g hid ids s)
  let ?s = "visit_each g (filter (\<lambda>d. d |\<in>| fmdom g) (deps_of g hid)) (enter hid s)"
  have "sr_marks s x = Unvisited" if "sr_marks (leave hid ?s) x = Unvisited" for x
    using visit_each_marks [OF 3(2), of x] that by (auto simp: leave_def enter_def split: if_splits)
  then show ?case
    by (intro mlex_leq) (auto simp: unvisited_def intro!: card_mono)
next
  case (4 g hid ids s)
  then show ?case by (intro mlex_leq) (auto simp: unvisited_def report_cycle_def)
next
  case (5 g hid ids s)
  then show ?case by (intro mlex_leq) auto
qed

definition host_graph :: "host_config list \<Rightarrow> dep_graph" where
  "host_graph hosts = fold (\<lambda>h g. fmupd (hc_ID h) (hc_DependsOn h) g) hosts fmempty"

text \<open>The order in which \<^verbatim>\<open>range graph\<close> delivers the keys is an argument.\<close>

definition validateHostDependencyCycles :: "string list \<Rightarrow> host_config list \<Rightarrow> problem list" where
  "validateHostDependencyCycles order hosts =
     (let g = host_graph hosts in
      sr_problems
        (fold (\<lambda>hid s. if sr_marks s hid = Unvisited then visit_each g [hid] s else s) order
           \<lparr>sr_marks = (\<lambda>_. Unvisited), sr_stack = [], sr_problems = []\<rparr>))"

section \<open>The whole configuration\<close>

definition validate_nut :: "nut_config \<Rightarrow> problem list" where
  "validate_nut n =
     problem_if (\<not> oneOf (nc_Profile n) [''local-server'', ''remote-client'', ''existing'']) ''invalid nut.profile''
     @ problem_if (TrimSpace (nc_UPSName n) = '''') ''nut.ups_name is required''
     @ problem_if (TrimSpace (nc_Host n) = '''') ''nut.host is required''
     @ problem_if (nc_Port n < 1 \<or> nc_Port n > 65535) ''nut.port must be 1..65535''
     @ problem_if (\<not> oneOf (nc_PowerCycleCapability n)
           [''POWER_CYCLE_VERIFIED'', ''POWER_CYCLE_UNVERIFIED'', ''MONITOR_ONLY''])
         ''invalid nut.power_cycle_capability''
     @ problem_if (\<not> oneOf (nn_Mode (nc_Network n)) [''trusted-lan'', ''restricted'']) ''invalid nut.network.mode''
     @ problem_if (nn_Mode (nc_Network n) = ''restricted'' \<and> nn_AllowedClients (nc_Network n) = [])
         ''restricted NUT mode requires allowed_clients''
     @ problem_if (nc_HostSyncSeconds n < 1) ''nut.hosts_sync_seconds must be > 0''
     @ problem_if (nc_FinalDelaySeconds n < 1) ''nut.final_delay_seconds must be > 0''"

definition validate_outage :: "outage_config \<Rightarrow> problem list" where
  "validate_outage out =
     problem_if (oc_GracePeriodSeconds out < 0) ''outage.grace_period_seconds must be >= 0''
     @ problem_if (oc_CommunicationLossGraceSeconds out < 0)
         ''outage.communication_loss_grace_seconds must be >= 0''
     @ validateOptionalPercent ''outage.critical_battery_percent'' (oc_CriticalBatteryPercent out)
     @ validateOptionalPositive ''outage.critical_runtime_seconds'' (oc_CriticalRuntimeSeconds out)
     @ validateOptionalPositive ''outage.max_on_battery_seconds'' (oc_MaxOnBatterySeconds out)"

definition validate_recovery :: "recovery_config \<Rightarrow> problem list" where
  "validate_recovery r =
     (if \<not> rc_Enabled r then []
      else
        problem_if (rc_UtilityStableSeconds r < 1) ''recovery.utility_stable_seconds must be > 0''
        @ problem_if (rc_NetworkWaitSeconds r < 0) ''recovery.network_wait_seconds must be >= 0''
        @ validateOptionalPercent ''recovery.battery_charge_min'' (rc_BatteryChargeMin r)
        @ validateOptionalPositive ''recovery.runtime_min_seconds'' (rc_RuntimeMinSeconds r)
        @ validateOptionalPositive ''recovery.recharge_time_seconds'' (rc_RechargeTimeSeconds r)
        @ problem_if (rc_BatteryChargeMin r = None \<and> rc_RuntimeMinSeconds r = None \<and> rc_RechargeTimeSeconds r = None)
            ''recovery requires charge, runtime, recharge-time, or manual policy'')"

definition validate_health :: "health_config \<Rightarrow> problem list" where
  "validate_health h =
     problem_if (\<not> hl_Enabled h) ''health.enabled must remain true in v0.1''
     @ problem_if (hl_IntervalSeconds h < 10) ''health.interval_seconds must be >= 10''
     @ problem_if (hl_ProbationSeconds h < 10) ''health.probation_seconds must be >= 10''
     @ problem_if (hl_MaxRepairAttempts h < 1) ''health.max_repair_attempts must be >= 1''"

definition Validate :: "string list \<Rightarrow> config \<Rightarrow> problem list" where
  "Validate order cfg =
     (let (dps, ids) = validate_dependencies 0 (cf_Dependencies cfg) fmempty;
          (hps, ids') = validate_hosts 0 (cf_Hosts cfg) ids
      in problem_if (cf_ConfigVersion cfg \<noteq> 1) ''config_version must be 1''
         @ problem_if (\<not> oneOf (cf_Mode cfg) [''monitor'', ''dry-run'', ''armed'', ''maintenance'']) ''invalid mode''
         @ validate_nut (cf_NUT cfg)
         @ problem_if (\<not> cc_RequireUPSBackedPower (cf_Controller cfg))
             ''controller.require_ups_backed_power must remain true''
         @ problem_if (\<not> cc_RequireAutoPowerOn (cf_Controller cfg))
             ''controller.require_auto_power_on must remain true''
         @ validate_outage (cf_Outage cfg)
         @ validate_recovery (cf_Recovery cfg)
         @ validate_health (cf_Health cfg)
         @ dps @ hps
         @ validate_references 0 (cf_Hosts cfg) ids'
         @ validateHostDependencyCycles order (cf_Hosts cfg))"

section \<open>Defaults and parsing\<close>

definition applyStatusDefaults :: "status_config \<Rightarrow> status_config" where
  "applyStatusDefaults s =
     s\<lparr>sc_TimeoutMS := (if sc_TimeoutMS s = 0 then 1000 else sc_TimeoutMS s),
       sc_SuccessConsecutive := (if sc_SuccessConsecutive s = 0 then 3 else sc_SuccessConsecutive s),
       sc_ProbeIntervalSeconds := (if sc_ProbeIntervalSeconds s = 0 then 5 else sc_ProbeIntervalSeconds s)\<rparr>"

definition applyWakeDefaults :: "wake_config \<Rightarrow> wake_config" where
  "applyWakeDefaults w =
     (if \<not> wk_Enabled w then w
      else w\<lparr>wk_Port := (if wk_Port w = 0 then 9 else wk_Port w),
             wk_MaxAttempts := (if wk_MaxAttempts w = 0 then 5 else wk_MaxAttempts w),
             wk_DelayAfterPreviousSeconds :=
               (if wk_DelayAfterPreviousSeconds w = 0 then 30 else wk_DelayAfterPreviousSeconds w)\<rparr>)"

definition nut_defaults :: "nut_config \<Rightarrow> nut_config" where
  "nut_defaults n =
     n\<lparr>nc_Host := (if nc_Host n = '''' then ''localhost'' else nc_Host n),
       nc_Port := (if nc_Port n = 0 then 3493 else nc_Port n),
       nc_PowerCycleCapability :=
         (if nc_PowerCycleCapability n = '''' then ''POWER_CYCLE_UNVERIFIED'' else nc_PowerCycleCapability n),
       nc_Network := (nc_Network n)\<lparr>nn_Mode :=
         (if nn_Mode (nc_Network n) = '''' then ''trusted-lan'' else nn_Mode (nc_Network n))\<rparr>,
       nc_HostSyncSeconds := (if nc_HostSyncSeconds n = 0 then 60 else nc_HostSyncSeconds n),
       nc_FinalDelaySeconds := (if nc_FinalDelaySeconds n = 0 then 15 else nc_FinalDelaySeconds n),
       nc_Synology :=
         (if sy_Enabled (nc_Synology n)
          then (nc_Synology n)\<lparr>sy_Username := (if sy_Username (nc_Synology n) = '''' then ''monuser''
                                               else sy_Username (nc_Synology n)),
                               sy_Password := (if sy_Password (nc_Synology n) = '''' then ''secret''
                                               else sy_Password (nc_Synology n))\<rparr>
          else nc_Synology n)\<rparr>"

definition health_defaults :: "health_config \<Rightarrow> health_config" where
  "health_defaults h =
     h\<lparr>hl_IntervalSeconds := (if hl_IntervalSeconds h = 0 then 60 else hl_IntervalSeconds h),
       hl_ProbationSeconds := (if hl_ProbationSeconds h = 0 then 60 else hl_ProbationSeconds h),
       hl_MaxRepairAttempts := (if hl_MaxRepairAttempts h = 0 then 5 else hl_MaxRepairAttempts h)\<rparr>"

definition host_defaults :: "host_config \<Rightarrow> host_config" where
  "host_defaults h =
     h\<lparr>hc_Status := applyStatusDefaults (hc_Status h), hc_Wake := applyWakeDefaults (hc_Wake h),
       hc_Shutdown := (hc_Shutdown h)\<lparr>sd_TimeoutSeconds :=
         (if sd_TimeoutSeconds (hc_Shutdown h) = 0 then 120 else sd_TimeoutSeconds (hc_Shutdown h))\<rparr>\<rparr>"

definition dependency_defaults :: "dependency_config \<Rightarrow> dependency_config" where
  "dependency_defaults d =
     d\<lparr>dc_Status := applyStatusDefaults (dc_Status d), dc_Wake := applyWakeDefaults (dc_Wake d)\<rparr>"

definition applyDefaults :: "config \<Rightarrow> config" where
  "applyDefaults cfg =
     cfg\<lparr>cf_NUT := nut_defaults (cf_NUT cfg), cf_Health := health_defaults (cf_Health cfg),
         cf_Dependencies := map dependency_defaults (cf_Dependencies cfg),
         cf_Hosts := map host_defaults (cf_Hosts cfg)\<rparr>"

text \<open>
  The YAML decoder: the strict decoding of the first document, and what a second read finds.
\<close>

datatype trailing = AtEOF | MoreDocuments | TrailingError string

record yaml_decoder =
  yd_first :: "string \<Rightarrow> string + config"
  yd_next :: "string \<Rightarrow> trailing"

datatype config_error =
    DecodeFailed string
  | MultipleDocuments
  | DecodeTrailing string
  | Invalid "problem list"

definition Parse :: "yaml_decoder \<Rightarrow> string list \<Rightarrow> string \<Rightarrow> config_error + config" where
  "Parse yaml order data =
     (case yd_first yaml data of
        Inl e \<Rightarrow> Inl (DecodeFailed e)
      | Inr cfg \<Rightarrow>
          (case yd_next yaml data of
             MoreDocuments \<Rightarrow> Inl MultipleDocuments
           | TrailingError e \<Rightarrow> Inl (DecodeTrailing e)
           | AtEOF \<Rightarrow>
               (let cfg' = applyDefaults cfg; problems = Validate order cfg' in
                if problems \<noteq> [] then Inl (Invalid problems) else Inr cfg')))"

end
