(* ===== verification/Config_Revisions.thy ===== *)
theory Config_Revisions
  imports Config_Validate
begin

text \<open>
  The transactional configuration history of \<^verbatim>\<open>agent/internal/config\<close>: \<^verbatim>\<open>revision.go\<close>,
  \<^verbatim>\<open>revision_maintenance.go\<close>, \<^verbatim>\<open>status.go\<close>, \<^verbatim>\<open>bootstrap.go\<close> and \<^verbatim>\<open>startup.go\<close>. The state is the history
  directory (three pointer files, one directory per revision) and the active configuration file. Every
  system call may fail, and every content the files go through is recorded, so that a crash is a
  statement about one of them. Temporary files are not part of it: no operation reads them. SHA-256, JSON
  and YAML are parameters, as are the clock, sleeping and the runtime the configuration is tried on.
\<close>

section \<open>Data\<close>

datatype revision_status =
    RevisionCandidate
  | RevisionValidating
  | RevisionKnownGood
  | RevisionFailed
  | RevisionRolledBack
  | RevisionOther string

record manifest =
  mf_RevisionID :: string
  mf_CreatedAt :: string
  mf_Source :: string
  mf_SchemaVersion :: int
  mf_ParentRevision :: string
  mf_Status :: revision_status
  mf_ContentSHA256 :: string
  mf_FailureReason :: string

datatype pointer = Active | LastKnownGoodPtr | PreviousKnownGoodPtr

text \<open>A revision directory holds \<^verbatim>\<open>config.yaml\<close> and \<^verbatim>\<open>manifest.json\<close>.\<close>

record revision_dir =
  rd_config :: "string option"
  rd_manifest :: "string option"

record history =
  hy_pointers :: "pointer \<Rightarrow> string option"
  hy_revisions :: "(string, revision_dir) fmap"
  hy_active :: "string option"

datatype rev_error =
    SysFailed
  | FileMissing
  | InvalidRevisionID string
  | InvalidPointer pointer string
  | ManifestUnreadable
  | ConfigRejected config_error
  | HashTooShort
  | NoUniqueID
  | NotActivatable string revision_status
  | ContentMismatch
  | RuntimeRequired
  | RuntimeFailed string
  | SleepFailed string
  | NoKnownGood
  | NotKnownGood string revision_status
  | RolledBack string string rev_error
  | CandidateLost string rev_error
  | RollbackUnapplied rev_error
  | RollbackTargetLost rev_error
  | PreviousRestored rev_error
  | Drifted string
  | KeepTooSmall
  | Unrepaired rev_error rev_error

section \<open>Time stamps and revision identifiers\<close>

text \<open>The civil date of a day counted from 1970-01-01, in the proleptic Gregorian calendar.\<close>

definition civil_date :: "int \<Rightarrow> int \<times> int \<times> int" where
  "civil_date days =
     (let z = days + 719468;
          era = z div 146097;
          doe = z mod 146097;
          yoe = (doe - doe div 1460 + doe div 36524 - doe div 146096) div 365;
          doy = doe - (365 * yoe + yoe div 4 - yoe div 100);
          mp = (5 * doy + 2) div 153;
          d = doy - (153 * mp + 2) div 5 + 1;
          mo = (if mp < 10 then mp + 3 else mp - 9)
      in (yoe + era * 400 + (if mo \<le> 2 then 1 else 0), mo, d))"

definition padded :: "nat \<Rightarrow> int \<Rightarrow> string" where
  "padded width n = (let s = utoa (nat n) in replicate (width - length s) (CHR ''0'') @ s)"

text \<open>
  An instant read as Unix nanoseconds, printed with the two layouts of the code:
  \<^verbatim>\<open>20060102T150405Z\<close> and \<^verbatim>\<open>time.RFC3339\<close>, both in UTC.
\<close>

definition clock_fields :: "instant \<Rightarrow> int \<times> int \<times> int \<times> int \<times> int \<times> int" where
  "clock_fields t =
     (let secs = t div Second; days = secs div 86400; sod = secs mod 86400; (y, mo, d) = civil_date days
      in (y, mo, d, sod div 3600, sod div 60 mod 60, sod mod 60))"

definition compact_stamp :: "instant \<Rightarrow> string" where
  "compact_stamp t =
     (let (y, mo, d, h, mi, s) = clock_fields t in
      padded 4 y @ padded 2 mo @ padded 2 d @ ''T'' @ padded 2 h @ padded 2 mi @ padded 2 s @ ''Z'')"

definition rfc3339_stamp :: "instant \<Rightarrow> string" where
  "rfc3339_stamp t =
     (let (y, mo, d, h, mi, s) = clock_fields t in
      padded 4 y @ ''-'' @ padded 2 mo @ ''-'' @ padded 2 d @ ''T''
      @ padded 2 h @ '':'' @ padded 2 mi @ '':'' @ padded 2 s @ ''Z'')"

definition lower_hex :: "char \<Rightarrow> bool" where
  "lower_hex c \<longleftrightarrow> is_digit c \<or> (let n = (of_char c :: nat) in 97 \<le> n \<and> n \<le> 102)"

text \<open>\<^verbatim>\<open>^cfg-[0-9]{8}T[0-9]{6}Z-[0-9a-f]{8}(-[0-9]+)?$\<close>\<close>

definition revisionIDPattern :: "string \<Rightarrow> bool" where
  "revisionIDPattern s \<longleftrightarrow>
     length s \<ge> 29 \<and> take 4 s = ''cfg-'' \<and> list_all is_digit (take 8 (drop 4 s)) \<and> s ! 12 = CHR ''T''
     \<and> list_all is_digit (take 6 (drop 13 s)) \<and> s ! 19 = CHR ''Z'' \<and> s ! 20 = CHR ''-''
     \<and> list_all lower_hex (take 8 (drop 21 s))
     \<and> (let r = drop 29 s in r = [] \<or> (hd r = CHR ''-'' \<and> tl r \<noteq> [] \<and> list_all is_digit (tl r)))"

section \<open>The manager and its world\<close>

text \<open>
  The manager: its settings after \<^verbatim>\<open>defaults\<close>, and what it uses of its surroundings. \<open>mg_config_first\<close> is
  the order in which \<^verbatim>\<open>os.RemoveAll\<close> happens to delete the two files of a revision; \<open>mg_order\<close> the
  iteration order of the map in the dependency check of \<^verbatim>\<open>Parse\<close>; \<open>mg_error_text\<close> is \<^verbatim>\<open>err.Error()\<close>, which is
  stored and never read back.
\<close>

record 'x manager =
  mg_Probation :: duration
  mg_HealthInterval :: duration
  mg_RevisionKeep :: int
  mg_Now :: "'x \<Rightarrow> instant \<times> 'x"
  mg_Sleep :: "duration \<Rightarrow> 'x \<Rightarrow> string option \<times> 'x"
  mg_sha256_hex :: "string \<Rightarrow> string"
  mg_encode :: "manifest \<Rightarrow> string"
  mg_decode :: "string \<Rightarrow> manifest option"
  mg_yaml :: yaml_decoder
  mg_order :: "string \<Rightarrow> string list"
  mg_config_first :: "string \<Rightarrow> bool"
  mg_error_text :: "rev_error \<Rightarrow> string"

definition defaultRevisionKeep :: int where "defaultRevisionKeep = 10"

definition manager_defaults :: "'x manager \<Rightarrow> 'x manager" where
  "manager_defaults m =
     m\<lparr>mg_Probation := (if mg_Probation m \<le> 0 then 60 * Second else mg_Probation m),
       mg_HealthInterval := (if mg_HealthInterval m \<le> 0 then 5 * Second else mg_HealthInterval m),
       mg_RevisionKeep := (if mg_RevisionKeep m \<le> 0 then defaultRevisionKeep else mg_RevisionKeep m)\<rparr>"

text \<open>The runtime reads the active file; a result is an error text or none.\<close>

record 'x runtime =
  rt_Apply :: "string option \<Rightarrow> 'x \<Rightarrow> string option \<times> 'x"
  rt_Healthy :: "'x \<Rightarrow> string option \<times> 'x"

record 'x rev_world =
  rw_files :: history
  rw_seen :: "history list"
  rw_fault :: "nat \<Rightarrow> bool"
  rw_calls :: nat
  rw_env :: 'x

type_synonym ('x, 'a) rev_proc = "('x rev_world, rev_error, 'a) proc"

definition syscall :: "('x, unit) rev_proc" where
  "syscall = (\<lambda>w. let n = rw_calls w; w' = w\<lparr>rw_calls := n + 1\<rparr> in
     if rw_fault w n then (Inl SysFailed, w') else (Inr (), w'))"

definition syscalls :: "nat \<Rightarrow> ('x, unit) rev_proc" where
  "syscalls n = forE [0..<n] (\<lambda>_. syscall)"

definition change :: "(history \<Rightarrow> history) \<Rightarrow> ('x, unit) rev_proc" where
  "change f = modifyS (\<lambda>w. w\<lparr>rw_files := f (rw_files w), rw_seen := rw_seen w @ [f (rw_files w)]\<rparr>)"

text \<open>A call on the environment.\<close>

definition consult :: "('x \<Rightarrow> 'a \<times> 'x) \<Rightarrow> ('x, 'a) rev_proc" where
  "consult f = (\<lambda>w. let (r, x') = f (rw_env w) in (Inr r, w\<lparr>rw_env := x'\<rparr>))"

section \<open>Reading and writing the files\<close>

definition no_files :: revision_dir where
  "no_files = \<lparr>rd_config = None, rd_manifest = None\<rparr>"

definition dir_of :: "history \<Rightarrow> string \<Rightarrow> revision_dir" where
  "dir_of hy rid = (case fmlookup (hy_revisions hy) rid of None \<Rightarrow> no_files | Some d \<Rightarrow> d)"

definition put_dir :: "string \<Rightarrow> revision_dir \<Rightarrow> history \<Rightarrow> history" where
  "put_dir rid d hy = hy\<lparr>hy_revisions := fmupd rid d (hy_revisions hy)\<rparr>"

definition make_dir :: "string \<Rightarrow> history \<Rightarrow> history" where
  "make_dir rid hy = put_dir rid (dir_of hy rid) hy"

definition put_pointer :: "pointer \<Rightarrow> string \<Rightarrow> history \<Rightarrow> history" where
  "put_pointer p b hy = hy\<lparr>hy_pointers := (hy_pointers hy)(p := Some b)\<rparr>"

definition put_active :: "string \<Rightarrow> history \<Rightarrow> history" where
  "put_active c hy = hy\<lparr>hy_active := Some c\<rparr>"

definition put_revision_config :: "string \<Rightarrow> string \<Rightarrow> history \<Rightarrow> history" where
  "put_revision_config rid c hy = put_dir rid ((dir_of hy rid)\<lparr>rd_config := Some c\<rparr>) hy"

definition put_manifest :: "string \<Rightarrow> string \<Rightarrow> history \<Rightarrow> history" where
  "put_manifest rid b hy = put_dir rid ((dir_of hy rid)\<lparr>rd_manifest := Some b\<rparr>) hy"

text \<open>
  \<^verbatim>\<open>writeAtomic\<close>: the directory is made; the temporary file is created, its mode set, written, synced and
  closed; the rename installs the content at once; the directory is opened and synced, which may still
  fail.
\<close>

definition writeAtomic :: "(history \<Rightarrow> history) \<Rightarrow> (history \<Rightarrow> history) \<Rightarrow> ('x, unit) rev_proc" where
  "writeAtomic mkdir install =
     seqE syscall (\<lambda>_.
     seqE (change mkdir) (\<lambda>_.
     seqE (syscalls 6) (\<lambda>_.
     seqE (change install) (\<lambda>_.
     syscalls 2))))"

definition contentMatches :: "'x manager \<Rightarrow> manifest \<Rightarrow> string \<Rightarrow> bool" where
  "contentMatches m mf content \<longleftrightarrow>
     map lower_char (mf_ContentSHA256 mf) = map lower_char (mg_sha256_hex m content)"

definition ValidateRevisionID :: "string \<Rightarrow> rev_error option" where
  "ValidateRevisionID rid = (if revisionIDPattern rid then None else Some (InvalidRevisionID rid))"

definition read_manifest :: "'x manager \<Rightarrow> history \<Rightarrow> string \<Rightarrow> rev_error + manifest" where
  "read_manifest m hy rid =
     (case rd_manifest (dir_of hy rid) of
        None \<Rightarrow> Inl FileMissing
      | Some b \<Rightarrow> (case mg_decode m b of None \<Rightarrow> Inl ManifestUnreadable | Some mf \<Rightarrow> Inr mf))"

definition readManifest :: "'x manager \<Rightarrow> string \<Rightarrow> ('x, manifest) rev_proc" where
  "readManifest m rid =
     (case ValidateRevisionID rid of
        Some e \<Rightarrow> throw e
      | None \<Rightarrow> seqE syscall (\<lambda>_. seqE (getS (\<lambda>w. read_manifest m (rw_files w) rid)) liftR))"

definition writeManifest :: "'x manager \<Rightarrow> manifest \<Rightarrow> ('x, unit) rev_proc" where
  "writeManifest m mf =
     (case ValidateRevisionID (mf_RevisionID mf) of
        Some e \<Rightarrow> throw e
      | None \<Rightarrow> writeAtomic (make_dir (mf_RevisionID mf)) (put_manifest (mf_RevisionID mf) (mg_encode m mf)))"

definition read_pointer :: "history \<Rightarrow> pointer \<Rightarrow> rev_error + string" where
  "read_pointer hy p =
     (case hy_pointers hy p of
        None \<Rightarrow> Inr ''''
      | Some b \<Rightarrow>
          (let value = TrimSpace b in
           if value = '''' then Inr ''''
           else if revisionIDPattern value then Inr value
           else Inl (InvalidPointer p value)))"

definition readPointer :: "pointer \<Rightarrow> ('x, string) rev_proc" where
  "readPointer p = seqE syscall (\<lambda>_. seqE (getS (\<lambda>w. read_pointer (rw_files w) p)) liftR)"

definition writePointer :: "pointer \<Rightarrow> string \<Rightarrow> ('x, unit) rev_proc" where
  "writePointer p value =
     (case ValidateRevisionID value of
        Some e \<Rightarrow> throw (InvalidPointer p value)
      | None \<Rightarrow> writeAtomic id (put_pointer p (value @ [newline])))"

definition readConfig :: "string \<Rightarrow> ('x, string) rev_proc" where
  "readConfig rid =
     seqE syscall (\<lambda>_.
     seqE (getS (\<lambda>w. rd_config (dir_of (rw_files w) rid))) (\<lambda>c.
     case c of None \<Rightarrow> throw FileMissing | Some c \<Rightarrow> return c))"

definition writeActive :: "string \<Rightarrow> ('x, unit) rev_proc" where
  "writeActive content = writeAtomic id (put_active content)"

text \<open>\<^verbatim>\<open>x, _ := f()\<close>: the error is dropped and the zero value used.\<close>

definition or_empty :: "('x, string) rev_proc \<Rightarrow> ('x, string) rev_proc" where
  "or_empty f = tryE f (\<lambda>_. return '''') return"

definition drop_error :: "('x, unit) rev_proc \<Rightarrow> ('x, unit) rev_proc" where
  "drop_error f = tryE f (\<lambda>_. return ()) return"

definition Ensure :: "('x, unit) rev_proc" where
  "Ensure = syscalls 2"

text \<open>The lock: the history is made, the lock file opened and locked. Unlocking is not observable.\<close>

definition lock :: "('x, unit) rev_proc" where
  "lock = seqE Ensure (\<lambda>_. syscalls 2)"

definition parse_content :: "'x manager \<Rightarrow> string \<Rightarrow> config_error + config" where
  "parse_content m content = Parse (mg_yaml m) (mg_order m content) content"

section \<open>Revisions\<close>

fun first_free_id :: "string \<Rightarrow> nat list \<Rightarrow> ('x, string) rev_proc" where
  "first_free_id base [] = throw NoUniqueID"
| "first_free_id base (n # ns) =
     (let rid = (if n > 0 then base @ ''-'' @ utoa n else base) in
      seqE syscall (\<lambda>_.
      seqE (getS (\<lambda>w. fmlookup (hy_revisions (rw_files w)) rid)) (\<lambda>d.
      case d of None \<Rightarrow> return rid | Some _ \<Rightarrow> first_free_id base ns)))"

definition maxRevisionIDAttempts :: nat where "maxRevisionIDAttempts = 100"

definition uniqueRevisionID :: "'x manager \<Rightarrow> string \<Rightarrow> ('x, string) rev_proc" where
  "uniqueRevisionID m contentHash =
     (if length contentHash < 8 then throw HashTooShort
      else
        seqE (consult (mg_Now m)) (\<lambda>now.
        first_free_id (''cfg-'' @ compact_stamp now @ ''-'' @ take 8 contentHash) [0..<maxRevisionIDAttempts]))"

definition new_manifest :: "string \<Rightarrow> instant \<Rightarrow> string \<Rightarrow> string \<Rightarrow> string \<Rightarrow> manifest" where
  "new_manifest rid now source parent hexsum =
     \<lparr>mf_RevisionID = rid, mf_CreatedAt = rfc3339_stamp now, mf_Source = source, mf_SchemaVersion = 1,
      mf_ParentRevision = parent, mf_Status = RevisionCandidate, mf_ContentSHA256 = hexsum,
      mf_FailureReason = ''''\<rparr>"

definition beginLocked :: "'x manager \<Rightarrow> string \<Rightarrow> string \<Rightarrow> ('x, manifest) rev_proc" where
  "beginLocked m source content =
     (case parse_content m content of
        Inl e \<Rightarrow> throw (ConfigRejected e)
      | Inr _ \<Rightarrow>
          (let hexsum = mg_sha256_hex m content in
           seqE (uniqueRevisionID m hexsum) (\<lambda>rid.
           seqE (or_empty (readPointer Active)) (\<lambda>parent.
           seqE syscall (\<lambda>_.
           seqE (change (make_dir rid)) (\<lambda>_.
           seqE (writeAtomic (make_dir rid) (put_revision_config rid content)) (\<lambda>_.
           seqE (consult (mg_Now m)) (\<lambda>now.
           let mf = new_manifest rid now source parent hexsum in
           seqE (writeManifest m mf) (\<lambda>_. return mf)))))))))"

definition Begin :: "'x manager \<Rightarrow> string \<Rightarrow> string \<Rightarrow> ('x, manifest) rev_proc" where
  "Begin m source content = seqE lock (\<lambda>_. beginLocked (manager_defaults m) source content)"

subsection \<open>Known-good revisions and pruning\<close>

fun collect_known_good :: "'x manager \<Rightarrow> string list \<Rightarrow> ('x, manifest list) rev_proc" where
  "collect_known_good m [] = return []"
| "collect_known_good m (rid # rids) =
     tryE (readManifest m rid) (\<lambda>_. collect_known_good m rids) (\<lambda>mf.
     seqE (collect_known_good m rids) (\<lambda>mfs.
     return (if mf_Status mf = RevisionKnownGood then mf # mfs else mfs)))"

text \<open>\<^verbatim>\<open>sort.SliceStable\<close> with \<^verbatim>\<open>CreatedAt >\<close>: descending, equal elements in their old order.\<close>

definition newest_first :: "manifest list \<Rightarrow> manifest list" where
  "newest_first mfs = rev (sort_key mf_CreatedAt (rev mfs))"

definition KnownGoodRevisions :: "'x manager \<Rightarrow> ('x, manifest list) rev_proc" where
  "KnownGoodRevisions m =
     seqE Ensure (\<lambda>_.
     seqE syscall (\<lambda>_.
     seqE (getS (\<lambda>w. sorted_list_of_fset (fmdom (hy_revisions (rw_files w))))) (\<lambda>rids.
     seqE (collect_known_good m rids) (\<lambda>mfs.
     return (newest_first mfs)))))"

definition drop_file :: "(revision_dir \<Rightarrow> revision_dir) \<Rightarrow> string \<Rightarrow> history \<Rightarrow> history" where
  "drop_file f rid hy =
     (case fmlookup (hy_revisions hy) rid of None \<Rightarrow> hy | Some d \<Rightarrow> put_dir rid (f d) hy)"

definition drop_config :: "string \<Rightarrow> history \<Rightarrow> history" where
  "drop_config = drop_file (\<lambda>d. d\<lparr>rd_config := None\<rparr>)"

definition drop_manifest :: "string \<Rightarrow> history \<Rightarrow> history" where
  "drop_manifest = drop_file (\<lambda>d. d\<lparr>rd_manifest := None\<rparr>)"

definition drop_dir :: "string \<Rightarrow> history \<Rightarrow> history" where
  "drop_dir rid hy = hy\<lparr>hy_revisions := fmdrop rid (hy_revisions hy)\<rparr>"

definition os_RemoveAll :: "'x manager \<Rightarrow> string \<Rightarrow> ('x, unit) rev_proc" where
  "os_RemoveAll m rid =
     (let (f, g) = (if mg_config_first m rid then (drop_config, drop_manifest) else (drop_manifest, drop_config)) in
      seqE syscall (\<lambda>_. seqE (change (f rid)) (\<lambda>_.
      seqE syscall (\<lambda>_. seqE (change (g rid)) (\<lambda>_.
      seqE syscall (\<lambda>_. change (drop_dir rid)))))))"

fun remove_unkept :: "'x manager \<Rightarrow> string list \<Rightarrow> manifest list \<Rightarrow> ('x, bool) rev_proc" where
  "remove_unkept m keepSet [] = return False"
| "remove_unkept m keepSet (mf # mfs) =
     (let rid = mf_RevisionID mf in
      if rid \<in> set keepSet then remove_unkept m keepSet mfs
      else
        (case ValidateRevisionID rid of
           Some e \<Rightarrow> throw e
         | None \<Rightarrow>
             seqE (os_RemoveAll m rid) (\<lambda>_.
             seqE (remove_unkept m keepSet mfs) (\<lambda>_. return True))))"

fun protected_ids :: "pointer list \<Rightarrow> ('x, string list) rev_proc" where
  "protected_ids [] = return []"
| "protected_ids (p # ps) =
     seqE (readPointer p) (\<lambda>rid.
     seqE (protected_ids ps) (\<lambda>rids.
     return (if rid \<noteq> '''' then rid # rids else rids)))"

definition pruneRevisionsLocked :: "'x manager \<Rightarrow> int \<Rightarrow> ('x, unit) rev_proc" where
  "pruneRevisionsLocked m keep =
     (if keep < 1 then throw KeepTooSmall
      else
        seqE (protected_ids [Active, LastKnownGoodPtr, PreviousKnownGoodPtr]) (\<lambda>protected.
        seqE (KnownGoodRevisions m) (\<lambda>revisions.
        let keepSet = protected @ map mf_RevisionID (take (nat keep) revisions) in
        seqE (remove_unkept m keepSet revisions) (\<lambda>removed.
        if \<not> removed then return () else syscalls 2))))"

definition PruneRevisions :: "'x manager \<Rightarrow> int \<Rightarrow> ('x, unit) rev_proc" where
  "PruneRevisions m keep =
     (if keep < 1 then throw KeepTooSmall else seqE lock (\<lambda>_. pruneRevisionsLocked m keep))"

subsection \<open>Activation, promotion, rollback\<close>

definition lift_text :: "(string \<Rightarrow> rev_error) \<Rightarrow> string option \<Rightarrow> ('x, unit) rev_proc" where
  "lift_text f r = (case r of None \<Rightarrow> return () | Some e \<Rightarrow> throw (f e))"

definition apply_runtime :: "'x runtime \<Rightarrow> ('x, unit) rev_proc" where
  "apply_runtime rt =
     seqE (getS (\<lambda>w. hy_active (rw_files w))) (\<lambda>content.
     seqE (consult (rt_Apply rt content)) (lift_text RuntimeFailed))"

definition healthy_runtime :: "'x runtime \<Rightarrow> ('x, unit) rev_proc" where
  "healthy_runtime rt = seqE (consult (rt_Healthy rt)) (lift_text RuntimeFailed)"

text \<open>\<^verbatim>\<open>if r != nil { Apply; Healthy }\<close>\<close>

definition try_runtime :: "'x runtime option \<Rightarrow> ('x, unit) rev_proc" where
  "try_runtime r =
     (case r of
        None \<Rightarrow> return ()
      | Some rt \<Rightarrow> seqE (apply_runtime rt) (\<lambda>_. healthy_runtime rt))"

definition with_status :: "revision_status \<Rightarrow> string \<Rightarrow> manifest \<Rightarrow> manifest" where
  "with_status st reason mf = mf\<lparr>mf_Status := st, mf_FailureReason := reason\<rparr>"

definition failLocked :: "'x manager \<Rightarrow> manifest \<Rightarrow> rev_error \<Rightarrow> ('x, 'a) rev_proc" where
  "failLocked m mf cause =
     seqE (drop_error (writeManifest m (with_status RevisionFailed (mg_error_text m cause) mf))) (\<lambda>_.
     throw cause)"

definition promoteLocked :: "'x manager \<Rightarrow> manifest \<Rightarrow> ('x, manifest) rev_proc" where
  "promoteLocked m mf =
     (let mf = with_status RevisionKnownGood '''' mf; rid = mf_RevisionID mf in
      seqE (writeManifest m mf) (\<lambda>_.
      seqE (or_empty (readPointer LastKnownGoodPtr)) (\<lambda>oldLKG.
      seqE (if oldLKG \<noteq> '''' \<and> oldLKG \<noteq> rid then writePointer PreviousKnownGoodPtr oldLKG else return ()) (\<lambda>_.
      seqE (writePointer LastKnownGoodPtr rid) (\<lambda>_.
      seqE (writePointer Active rid) (\<lambda>_.
      seqE (drop_error (pruneRevisionsLocked m (mg_RevisionKeep m))) (\<lambda>_.
      return mf)))))))"

definition rollbackLocked :: "'x manager \<Rightarrow> manifest \<Rightarrow> rev_error \<Rightarrow> 'x runtime option \<Rightarrow> ('x, 'a) rev_proc" where
  "rollbackLocked m mf cause r =
     (let reason = mg_error_text m cause; failed = with_status RevisionFailed reason mf in
      seqE (drop_error (writeManifest m failed)) (\<lambda>_.
      seqE (or_empty (readPointer LastKnownGoodPtr)) (\<lambda>lkg.
      if lkg = '''' then throw (CandidateLost (mf_RevisionID mf) cause)
      else
        seqE (readConfig lkg) (\<lambda>content.
        seqE (writeActive content) (\<lambda>_.
        seqE (writePointer Active lkg) (\<lambda>_.
        tryE (try_runtime r) (\<lambda>e. throw (RollbackUnapplied e)) (\<lambda>_.
        seqE (drop_error (writeManifest m (with_status RevisionRolledBack reason mf))) (\<lambda>_.
        throw (RolledBack (mf_RevisionID mf) lkg cause)))))))))"

text \<open>
  \<^verbatim>\<open>ActivateAndValidate\<close> up to the first health check, in three parts: the first trial on the runtime, the
  switch of the active file and pointer, and the checks before it.
\<close>

definition first_trial :: "'x manager \<Rightarrow> manifest \<Rightarrow> 'x runtime option \<Rightarrow> ('x, manifest \<times> 'x runtime) rev_proc" where
  "first_trial m mf r =
     (case r of
        None \<Rightarrow> rollbackLocked m mf RuntimeRequired None
      | Some rt \<Rightarrow>
          tryE (apply_runtime rt) (\<lambda>e. rollbackLocked m mf e r) (\<lambda>_.
          tryE (healthy_runtime rt) (\<lambda>e. rollbackLocked m mf e r) (\<lambda>_.
          return (mf, rt))))"

definition switch_active ::
  "'x manager \<Rightarrow> string \<Rightarrow> manifest \<Rightarrow> string \<Rightarrow> 'x runtime option \<Rightarrow> ('x, manifest \<times> 'x runtime) rev_proc" where
  "switch_active m rid mf content r =
     tryE (writeActive content) (failLocked m mf) (\<lambda>_.
     tryE (writePointer Active rid) (\<lambda>e. rollbackLocked m mf e r) (\<lambda>_.
     let mf = with_status RevisionValidating '''' mf in
     seqE (writeManifest m mf) (\<lambda>_.
     first_trial m mf r)))"

definition activate_candidate ::
  "'x manager \<Rightarrow> string \<Rightarrow> 'x runtime option \<Rightarrow> ('x, manifest \<times> 'x runtime) rev_proc" where
  "activate_candidate m rid r =
     seqE lock (\<lambda>_.
     seqE (readManifest m rid) (\<lambda>mf.
     if mf_Status mf \<noteq> RevisionCandidate \<and> mf_Status mf \<noteq> RevisionValidating
     then throw (NotActivatable rid (mf_Status mf))
     else
       seqE (readConfig rid) (\<lambda>content.
       if \<not> contentMatches m mf content then failLocked m mf ContentMismatch
       else
         (case parse_content m content of
            Inl e \<Rightarrow> failLocked m mf (ConfigRejected e)
          | Inr _ \<Rightarrow> switch_active m rid mf content r))))"

text \<open>The probation: it ends when the clock says so, so it is a partial function.\<close>

partial_function (option) probation_loop ::
  "'x manager \<Rightarrow> 'x runtime \<Rightarrow> instant \<Rightarrow> 'x \<Rightarrow> (rev_error option \<times> 'x) option" where
  "probation_loop m rt deadline x =
     (let (now, x1) = mg_Now m x in
      if \<not> now < deadline then Some (None, x1)
      else
        (let (now, x2) = mg_Now m x1;
             wait = min (mg_HealthInterval m) (time_Sub deadline (Some now));
             (slept, x3) = (if wait > 0 then mg_Sleep m wait x2 else (None, x2))
         in case slept of
              Some e \<Rightarrow> Some (Some (SleepFailed e), x3)
            | None \<Rightarrow>
                (let (health, x4) = rt_Healthy rt x3 in
                 case health of
                   Some e \<Rightarrow> Some (Some (RuntimeFailed e), x4)
                 | None \<Rightarrow> probation_loop m rt deadline x4)))"

declare probation_loop.simps [code]

definition ActivateAndValidate ::
  "'x manager \<Rightarrow> string \<Rightarrow> 'x runtime option \<Rightarrow> 'x rev_world \<Rightarrow> ((rev_error + manifest) \<times> 'x rev_world) option" where
  "ActivateAndValidate mgr rid r w =
     (let m = manager_defaults mgr in
      case activate_candidate m rid r w of
        (Inl e, w1) \<Rightarrow> Some (Inl e, w1)
      | (Inr (mf, rt), w1) \<Rightarrow>
          (let (now, x1) = mg_Now m (rw_env w1) in
           case probation_loop m rt (now + mg_Probation m) x1 of
             None \<Rightarrow> None
           | Some (Some e, x2) \<Rightarrow> Some (rollbackLocked m mf e r (w1\<lparr>rw_env := x2\<rparr>))
           | Some (None, x2) \<Rightarrow> Some (promoteLocked m mf (w1\<lparr>rw_env := x2\<rparr>))))"

definition restoreKnownGoodLocked :: "string \<Rightarrow> 'x runtime option \<Rightarrow> ('x, unit) rev_proc" where
  "restoreKnownGoodLocked lkg r =
     (if lkg = '''' then throw NoKnownGood
      else
        seqE (readConfig lkg) (\<lambda>content.
        seqE (writeActive content) (\<lambda>_.
        seqE (writePointer Active lkg) (\<lambda>_.
        try_runtime r))))"

definition restoreAfterManualRollbackFailure ::
  "string \<Rightarrow> string \<Rightarrow> 'x runtime option \<Rightarrow> rev_error \<Rightarrow> ('x, unit) rev_proc" where
  "restoreAfterManualRollbackFailure oldActive oldLKG r cause =
     (if oldActive = '''' then throw (RollbackTargetLost cause)
      else
        seqE (readConfig oldActive) (\<lambda>content.
        seqE (writeActive content) (\<lambda>_.
        seqE (drop_error (writePointer Active oldActive)) (\<lambda>_.
        seqE (if oldLKG \<noteq> '''' then drop_error (writePointer LastKnownGoodPtr oldLKG) else return ()) (\<lambda>_.
        seqE (try_runtime r) (\<lambda>_.
        throw (PreviousRestored cause)))))))"

definition Rollback :: "'x manager \<Rightarrow> string \<Rightarrow> 'x runtime option \<Rightarrow> ('x, unit) rev_proc" where
  "Rollback m target r =
     seqE lock (\<lambda>_.
     seqE (readManifest m target) (\<lambda>mf.
     if mf_Status mf \<noteq> RevisionKnownGood then throw (NotKnownGood target (mf_Status mf))
     else
       seqE (readConfig target) (\<lambda>content.
       if \<not> contentMatches m mf content then throw ContentMismatch
       else
         (case parse_content m content of
            Inl e \<Rightarrow> throw (ConfigRejected e)
          | Inr _ \<Rightarrow>
              seqE (or_empty (readPointer Active)) (\<lambda>oldActive.
              seqE (or_empty (readPointer LastKnownGoodPtr)) (\<lambda>oldLKG.
              seqE (writeActive content) (\<lambda>_.
              seqE (writePointer Active target) (\<lambda>_.
              tryE (try_runtime r) (restoreAfterManualRollbackFailure oldActive oldLKG r) (\<lambda>_.
              seqE (if oldLKG \<noteq> '''' \<and> oldLKG \<noteq> target then writePointer PreviousKnownGoodPtr oldLKG
                    else return ()) (\<lambda>_.
              writePointer LastKnownGoodPtr target))))))))))"

subsection \<open>After a crash\<close>

text \<open>
  What an interrupted transaction needs, once both pointers are read: the common end of
  \<^verbatim>\<open>RecoverInterrupted\<close> and \<^verbatim>\<open>recoverInterruptedLocked\<close>.
\<close>

definition settle_interrupted ::
  "'x manager \<Rightarrow> string \<Rightarrow> string \<Rightarrow> 'x runtime option \<Rightarrow> ('x, unit) rev_proc" where
  "settle_interrupted m active lkg r =
     (if active = '''' then return ()
      else
        tryE (readManifest m active) (\<lambda>_. restoreKnownGoodLocked lkg r) (\<lambda>mf.
        if active = lkg then
          (if mf_Status mf \<noteq> RevisionKnownGood then throw (NotKnownGood active (mf_Status mf)) else return ())
        else if mf_Status mf = RevisionKnownGood then
          seqE (if lkg \<noteq> '''' \<and> lkg \<noteq> active then writePointer PreviousKnownGoodPtr lkg else return ()) (\<lambda>_.
          writePointer LastKnownGoodPtr active)
        else if mf_Status mf \<in> {RevisionCandidate, RevisionValidating, RevisionFailed}
        then restoreKnownGoodLocked lkg r
        else return ()))"

definition RecoverInterrupted :: "'x manager \<Rightarrow> 'x runtime option \<Rightarrow> ('x, unit) rev_proc" where
  "RecoverInterrupted m r =
     seqE lock (\<lambda>_.
     seqE (or_empty (readPointer Active)) (\<lambda>active.
     seqE (or_empty (readPointer LastKnownGoodPtr)) (\<lambda>lkg.
     settle_interrupted m active lkg r)))"

text \<open>The identifier of a revision if it is known good and its content has the recorded hash.\<close>

definition if_verified :: "'x manager \<Rightarrow> manifest \<Rightarrow> string \<Rightarrow> ('x, string) rev_proc" where
  "if_verified m mf rid =
     tryE (readConfig rid) (\<lambda>_. return '''') (\<lambda>content.
     return (if contentMatches m mf content then rid else ''''))"

fun first_verified :: "'x manager \<Rightarrow> manifest list \<Rightarrow> ('x, string) rev_proc" where
  "first_verified m [] = return ''''"
| "first_verified m (mf # mfs) =
     seqE (if_verified m mf (mf_RevisionID mf)) (\<lambda>rid.
     if rid \<noteq> '''' then return rid else first_verified m mfs)"

definition pointed_known_good :: "'x manager \<Rightarrow> ('x, string) rev_proc" where
  "pointed_known_good m =
     seqE (or_empty (readPointer LastKnownGoodPtr)) (\<lambda>lkg.
     if lkg = '''' then return ''''
     else
       tryE (readManifest m lkg) (\<lambda>_. return '''') (\<lambda>mf.
       if mf_Status mf = RevisionKnownGood then if_verified m mf lkg else return ''''))"

definition knownGoodForRepair :: "'x manager \<Rightarrow> ('x, string) rev_proc" where
  "knownGoodForRepair m =
     seqE (pointed_known_good m) (\<lambda>lkg.
     if lkg \<noteq> '''' then return lkg
     else tryE (KnownGoodRevisions m) (\<lambda>_. return '''') (first_verified m))"

definition repairKnownGoodLocked ::
  "'x manager \<Rightarrow> 'x runtime option \<Rightarrow> rev_error \<Rightarrow> ('x, unit) rev_proc" where
  "repairKnownGoodLocked m r cause =
     seqE (knownGoodForRepair m) (\<lambda>lkg.
     if lkg = '''' then throw (Unrepaired cause NoKnownGood)
     else
       tryE (restoreKnownGoodLocked lkg r) (\<lambda>e. throw (Unrepaired cause e)) (\<lambda>_.
       tryE (writePointer LastKnownGoodPtr lkg) (\<lambda>e. throw (Unrepaired cause e)) return))"

definition recoverInterruptedLocked :: "'x manager \<Rightarrow> 'x runtime option \<Rightarrow> ('x, unit) rev_proc" where
  "recoverInterruptedLocked m r =
     tryE (readPointer Active) (repairKnownGoodLocked m r) (\<lambda>active.
     seqE (tryE (readPointer LastKnownGoodPtr)
             (\<lambda>e. seqE (knownGoodForRepair m) (\<lambda>lkg.
                  if lkg = '''' then throw (Unrepaired e NoKnownGood)
                  else tryE (writePointer LastKnownGoodPtr lkg) (\<lambda>e'. throw (Unrepaired e e')) (\<lambda>_. return lkg)))
             return) (\<lambda>lkg.
     settle_interrupted m active lkg r))"

definition readActive :: "('x, string) rev_proc" where
  "readActive =
     seqE syscall (\<lambda>_.
     seqE (getS (\<lambda>w. hy_active (rw_files w))) (\<lambda>c.
     case c of None \<Rightarrow> throw FileMissing | Some c \<Rightarrow> return c))"

text \<open>
  \<^verbatim>\<open>RecoverForStartup\<close>; \<open>held\<close> says whether another process holds the lock, in which case the startup goes
  on with the active file as it is.
\<close>

definition RecoverForStartup :: "'x manager \<Rightarrow> 'x runtime option \<Rightarrow> bool \<Rightarrow> ('x, unit) rev_proc" where
  "RecoverForStartup m r held =
     seqE Ensure (\<lambda>_.
     seqE syscall (\<lambda>_.
     if held then return ()
     else
       seqE syscall (\<lambda>_.
       seqE (recoverInterruptedLocked m r) (\<lambda>_.
       tryE (readPointer Active) (repairKnownGoodLocked m r) (\<lambda>active.
       if active = '''' then return ()
       else
         tryE (readManifest m active) (repairKnownGoodLocked m r) (\<lambda>mf.
         tryE readActive (repairKnownGoodLocked m r) (\<lambda>content.
         if contentMatches m mf content then return ()
         else repairKnownGoodLocked m r ContentMismatch)))))))"

definition BootstrapKnownGood :: "'x manager \<Rightarrow> string \<Rightarrow> string \<Rightarrow> ('x, manifest) rev_proc" where
  "BootstrapKnownGood mgr source content =
     (let m = manager_defaults mgr in
      seqE lock (\<lambda>_.
      case parse_content m content of
        Inl e \<Rightarrow> throw (ConfigRejected e)
      | Inr _ \<Rightarrow>
          seqE (readPointer LastKnownGoodPtr) (\<lambda>lkg.
          if lkg \<noteq> '''' then
            seqE (readManifest m lkg) (\<lambda>mf.
            if mf_Status mf \<noteq> RevisionKnownGood then throw (NotKnownGood lkg (mf_Status mf))
            else if \<not> contentMatches m mf content then throw (Drifted lkg)
            else seqE (writePointer Active lkg) (\<lambda>_. return mf))
          else seqE (beginLocked m source content) (promoteLocked m))))"

end
