(* ===== verification/Armed.thy ===== *)
theory Armed
  imports Health Host_Checks NUT_Client Wake_Packet Config_Revisions
begin

text \<open>
  The runtime of \<^verbatim>\<open>agent/internal/app\<close> (\<^verbatim>\<open>runtime.go\<close>, \<^verbatim>\<open>armed.go\<close>) and the adapters of
  \<^verbatim>\<open>agent/internal/orchestrator/adapters.go\<close>: it wires the components together, adopts the persisted
  transaction, and runs the event loops. The platform (NUT commands, probes, sockets, files, clock, random
  bytes) is a record of functions on an environment; the order in which the channels of a loop deliver is an
  arbitrary list of events.
\<close>

section \<open>The platform\<close>

record 'x nut_controller =
  nt_Query :: "string \<Rightarrow> 'x \<Rightarrow> (status \<times> nut_error option) \<times> 'x"
  nt_RequestFSD :: "string \<Rightarrow> string \<Rightarrow> 'x \<Rightarrow> nut_error option \<times> 'x"

datatype wake_error = UnknownWakeHost string | IncompleteWake string | SendFailed wol_error

text \<open>
  \<open>pf_within d x\<close> is the status checker in a context that is derived in environment \<open>x\<close> with timeout \<open>d\<close>;
  \<open>pf_rand\<close> gives the sixteen random bytes or fails; \<open>pf_readFile\<close> is \<open>None\<close> on any error; \<open>pf_encode_config\<close> is the
  JSON of a configuration and the password digest. The last fields are the texts of errors, \<^verbatim>\<open>err.Error()\<close>.
\<close>

record 'x platform =
  pf_checker :: "'x checker"
  pf_within :: "duration \<Rightarrow> 'x \<Rightarrow> 'x checker"
  pf_executor :: "'x executor"
  pf_socket :: "nat list \<times> nat list \<times> int \<times> byte list \<Rightarrow> 'x \<Rightarrow> string option \<times> 'x"
  pf_interfaces :: "'x \<Rightarrow> interfaces"
  pf_local :: "'x \<Rightarrow> local_files"
  pf_Now :: "'x \<Rightarrow> instant \<times> 'x"
  pf_rand :: "'x \<Rightarrow> nat list option \<times> 'x"
  pf_readFile :: "string \<Rightarrow> 'x \<Rightarrow> string option \<times> 'x"
  pf_sha256_hex :: "string \<Rightarrow> string"
  pf_encode_config :: "config \<Rightarrow> string \<Rightarrow> string option"
  pf_encode_health :: "snapshot \<Rightarrow> string option"
  pf_decode_health :: "string \<Rightarrow> string + snapshot"
  pf_nut_text :: "nut_error \<Rightarrow> string"
  pf_check_text :: "check_error \<Rightarrow> string"
  pf_shutdown_text :: "shutdown_error \<Rightarrow> string"
  pf_wake_text :: "wake_error \<Rightarrow> string"
  pf_health_text :: "health_error \<Rightarrow> string"
  pf_prerequisite_text :: "prerequisite \<Rightarrow> string"

section \<open>Options\<close>

text \<open>A hook returns an error text or nothing. \<open>None\<close> is a nil interface or function.\<close>

type_synonym 'x hook = "'x \<Rightarrow> string option \<times> 'x"

record 'x options =
  op_SocketPath :: string
  op_HealthStatePath :: string
  op_SystemHealthStatePath :: string
  op_SystemHealthMaxAge :: duration
  op_HealthInterval :: duration
  op_PowerInterval :: duration
  op_StateDir :: string
  op_ConfigHistoryDir :: string
  op_UPSMonConfPath :: string
  op_NUT :: "'x nut_controller option"
  op_Ready :: "'x hook option"
  op_Stopping :: "'x hook option"
  op_StartWatchdog :: "(duration \<Rightarrow> 'x hook) option"

text \<open>What the defaults refer to: \<^verbatim>\<open>nut.NewClient()\<close> and the three systemd functions.\<close>

record 'x host_services =
  dv_NUT :: "'x nut_controller"
  dv_Ready :: "'x hook"
  dv_Stopping :: "'x hook"
  dv_StartWatchdog :: "duration \<Rightarrow> 'x hook"

definition client_controller :: "'x nut_client \<Rightarrow> (string \<Rightarrow> 'x \<Rightarrow> file_read) \<Rightarrow> 'x nut_controller" where
  "client_controller cl read = \<lparr>nt_Query = Query cl, nt_RequestFSD = RequestFSD cl read\<rparr>"

definition default_text :: "string \<Rightarrow> string \<Rightarrow> string" where
  "default_text v d = (if v = '''' then d else v)"

definition default_duration :: "duration \<Rightarrow> duration \<Rightarrow> duration" where
  "default_duration v d = (if v \<le> 0 then d else v)"

definition default_hook :: "'a option \<Rightarrow> 'a \<Rightarrow> 'a option" where
  "default_hook v d = Some (case v of None \<Rightarrow> d | Some f \<Rightarrow> f)"

definition options_defaults :: "'x host_services \<Rightarrow> 'x options \<Rightarrow> 'x options" where
  "options_defaults dv os =
     os\<lparr>op_SocketPath := default_text (op_SocketPath os) ''/run/cockpit-ups-wol/agent.sock'',
       op_HealthStatePath := default_text (op_HealthStatePath os) ''/var/lib/cockpit-ups-wol/health.json'',
       op_SystemHealthStatePath := default_text (op_SystemHealthStatePath os) ''/var/lib/cockpit-ups-wol/system-health.json'',
       op_SystemHealthMaxAge := default_duration (op_SystemHealthMaxAge os) (3 * Minute),
       op_StateDir := default_text (op_StateDir os) ''/var/lib/cockpit-ups-wol/state'',
       op_ConfigHistoryDir := default_text (op_ConfigHistoryDir os) ''/var/lib/cockpit-ups-wol/config-history'',
       op_UPSMonConfPath := default_text (op_UPSMonConfPath os) ''/etc/nut/upsmon.conf'',
       op_PowerInterval := default_duration (op_PowerInterval os) (5 * Second),
       op_NUT := default_hook (op_NUT os) (dv_NUT dv),
       op_Ready := default_hook (op_Ready os) (dv_Ready dv),
       op_Stopping := default_hook (op_Stopping os) (dv_Stopping dv),
       op_StartWatchdog := default_hook (op_StartWatchdog os) (dv_StartWatchdog dv)\<rparr>"

section \<open>Policy settings, revision and transaction identifiers\<close>

text \<open>\<^verbatim>\<open>float64(n)\<close>.\<close>

definition f64_of_int :: "int \<Rightarrow> float64" where
  "f64_of_int n =
     (let mag = (case nearest_f64 \<bar>n\<bar> 1 of None \<Rightarrow> PosInf | Some v \<Rightarrow> v) in
      if n = 0 then Finite 0 else if n < 0 then negate_f64 mag else mag)"

definition opt_seconds :: "int option \<Rightarrow> duration" where
  "opt_seconds v = (case v of None \<Rightarrow> 0 | Some n \<Rightarrow> seconds n)"

definition policyFromConfig :: "config \<Rightarrow> policy_config" where
  "policyFromConfig cfg =
     (let oc = cf_Outage cfg; rc = cf_Recovery cfg in
      \<lparr>pc_GracePeriod = seconds (oc_GracePeriodSeconds oc),
       pc_MaxOnBattery = opt_seconds (oc_MaxOnBatterySeconds oc),
       pc_CriticalCharge = map_option f64_of_int (oc_CriticalBatteryPercent oc),
       pc_CriticalRuntime = opt_seconds (oc_CriticalRuntimeSeconds oc),
       pc_CommunicationLossGrace = seconds (oc_CommunicationLossGraceSeconds oc),
       pc_RecoveryEnabled = Some (rc_Enabled rc),
       pc_UtilityStable = seconds (rc_UtilityStableSeconds rc),
       pc_RecoveryChargeMin = map_option f64_of_int (rc_BatteryChargeMin rc),
       pc_RecoveryRuntimeMin = opt_seconds (rc_RuntimeMinSeconds rc),
       pc_RecoveryRechargeTime = opt_seconds (rc_RechargeTimeSeconds rc),
       pc_RecoveryNetworkWait = seconds (rc_NetworkWaitSeconds rc)\<rparr>)"

definition configRevision :: "'x platform \<Rightarrow> config \<Rightarrow> string option" where
  "configRevision pf cfg =
     (let sy = nc_Synology (cf_NUT cfg);
          digest = (if sy_Enabled sy then pf_sha256_hex pf (sy_Password sy) else '''')
      in map_option (\<lambda>b. ''sha256:'' @ pf_sha256_hex pf b) (pf_encode_config pf cfg digest))"

definition hex_digit :: "nat \<Rightarrow> char" where
  "hex_digit n = ''0123456789abcdef'' ! n"

definition EncodeToString :: "nat list \<Rightarrow> string" where
  "EncodeToString bs = concat (map (\<lambda>b. [hex_digit (b div 16), hex_digit (b mod 16)]) bs)"

text \<open>\<^verbatim>\<open>UnixNano\<close> is the reading of the clock, an \<^verbatim>\<open>int64\<close>.\<close>

definition newTransactionID :: "'x platform \<Rightarrow> 'x \<Rightarrow> string \<times> 'x" where
  "newTransactionID pf x =
     (case pf_rand pf x of
        (Some b, x) \<Rightarrow> (EncodeToString b, x)
      | (None, x) \<Rightarrow> (let (now, x) = pf_Now pf x in (''tx-'' @ itoa (int64 now), x)))"

section \<open>Adapters\<close>

text \<open>A call with an error of its own, as the orchestrator sees it.\<close>

definition with_text :: "('e \<Rightarrow> string) \<Rightarrow> ('e + 'a) \<times> 'x \<Rightarrow> (string + 'a) \<times> 'x" where
  "with_text text r = (case r of (Inl e, x) \<Rightarrow> (Inl (text e), x) | (Inr v, x) \<Rightarrow> (Inr v, x))"

definition as_result :: "'e option \<times> 'x \<Rightarrow> ('e + unit) \<times> 'x" where
  "as_result r = (case r of (Some e, x) \<Rightarrow> (Inl e, x) | (None, x) \<Rightarrow> (Inr (), x))"

definition armedProber_Check :: "'x platform \<Rightarrow> host_config \<Rightarrow> ('x, probe_result) call" where
  "armedProber_Check pf h x =
     (case hc_Address h of
        None \<Rightarrow> (Inr \<lparr>pr_Known = False, pr_Online = False\<rparr>, x)
      | Some a \<Rightarrow> with_text (pf_check_text pf) (Check (pf_checker pf) a (hc_Status h) x))"

definition M_address_required :: string where
  "M_address_required = ''host address is required for verified state transition''"

text \<open>\<open>None\<close> when the wait never returns.\<close>

definition armedProber_Wait ::
  "('x platform) \<Rightarrow> 'x checker \<Rightarrow> host_config \<Rightarrow> bool \<Rightarrow> 'x \<Rightarrow> ((string + unit) \<times> 'x) option" where
  "armedProber_Wait pf ck h wantOnline x =
     (case hc_Address h of
        None \<Rightarrow> Some (Inl M_address_required, x)
      | Some a \<Rightarrow>
          map_option (\<lambda>r. with_text (pf_check_text pf) (as_result r)) (WaitForConsecutive ck a (hc_Status h) wantOnline x))"

text \<open>
  The controller waits under a deadline of its own, so the wait returns; \<open>stuck\<close> is never reached with a
  context that reports its deadline.
\<close>

definition wait_under_deadline :: "'x platform \<Rightarrow> host_config \<Rightarrow> bool \<Rightarrow> ('x, unit) call" where
  "wait_under_deadline pf h wantOnline x =
     (let ck = pf_within pf (seconds (sd_TimeoutSeconds (hc_Shutdown h))) x in
      case armedProber_Wait pf ck h wantOnline x of Some r \<Rightarrow> r | None \<Rightarrow> (Inl ''stuck'', x))"

definition hosts_by_id :: "host_config list \<Rightarrow> (string, host_config) fmap" where
  "hosts_by_id hosts = fold (\<lambda>h m. fmupd (hc_ID h) h m) hosts fmempty"

definition wake_request_of :: "string \<Rightarrow> string \<Rightarrow> wake_config \<Rightarrow> wake_request" where
  "wake_request_of mac broadcast wk =
     \<lparr>rq_MAC = mac, rq_Interface = (case wk_Interface wk of None \<Rightarrow> '''' | Some i \<Rightarrow> i), rq_Broadcast = broadcast,
      rq_Port = wk_Port wk\<rparr>"

definition armedWaker_Wake ::
  "'x platform \<Rightarrow> (string, host_config) fmap \<Rightarrow> string \<Rightarrow> 'x \<Rightarrow> wake_error option \<times> 'x" where
  "armedWaker_Wake pf hosts hid x =
     (case fmlookup hosts hid of
        None \<Rightarrow> (Some (UnknownWakeHost hid), x)
      | Some h \<Rightarrow>
          (case (wk_MAC (hc_Wake h), wk_Broadcast (hc_Wake h)) of
             (Some mac, Some broadcast) \<Rightarrow>
               (case Sender_Wake (pf_socket pf) (pf_interfaces pf x) (ck_ctxErr (pf_checker pf) x \<noteq> None)
                       (wake_request_of mac broadcast (hc_Wake h)) x of
                  (e, x') \<Rightarrow> (map_option SendFailed e, x'))
           | _ \<Rightarrow> (Some (IncompleteWake hid), x)))"

definition deadline_exceeded :: "check_error \<Rightarrow> bool" where
  "deadline_exceeded e \<longleftrightarrow> e = ContextError ''context deadline exceeded''"

definition online_budget :: "status_config \<Rightarrow> duration" where
  "online_budget st = int64 (needed st * probe_timeout st + needed st * probe_interval st)"

text \<open>\<open>None\<close> when the wait never returns; \<open>Inl None\<close> is the error of a host without an address.\<close>

definition armedRecoveryChecker_Online ::
  "'x platform \<Rightarrow> (string, host_config) fmap \<Rightarrow> string \<Rightarrow> 'x \<Rightarrow> ((check_error option + bool) \<times> 'x) option" where
  "armedRecoveryChecker_Online pf hosts hid x =
     (case Option.bind (fmlookup hosts hid) (\<lambda>h. map_option (Pair h) (hc_Address h)) of
        None \<Rightarrow> Some (Inl None, x)
      | Some (h, a) \<Rightarrow>
          map_option (\<lambda>r. case r of
              (None, x') \<Rightarrow> (Inr True, x')
            | (Some e, x') \<Rightarrow>
                (if deadline_exceeded e \<and> ck_ctxErr (pf_checker pf) x' = None then (Inr False, x') else (Inl (Some e), x')))
            (WaitForConsecutive (pf_within pf (online_budget (hc_Status h)) x) a (hc_Status h) True x))"

definition online_under_deadline :: "'x platform \<Rightarrow> (string, host_config) fmap \<Rightarrow> string \<Rightarrow> ('x, bool) call" where
  "online_under_deadline pf hosts hid x =
     (case armedRecoveryChecker_Online pf hosts hid x of
        Some r \<Rightarrow>
          with_text (\<lambda>e. case e of None \<Rightarrow> ''host has no verifiable address'' | Some e \<Rightarrow> pf_check_text pf e) r
      | None \<Rightarrow> (Inl ''stuck'', x))"

definition shutdown_call :: "'x platform \<Rightarrow> host_config \<Rightarrow> ('x, shutdown_disposition) call" where
  "shutdown_call pf h x = with_text (pf_shutdown_text pf) (Shutdown (pf_executor pf) h x)"

definition fsd_call :: "'x platform \<Rightarrow> 'x nut_controller \<Rightarrow> string \<Rightarrow> string \<Rightarrow> ('x, unit) call" where
  "fsd_call pf nt ups conf x = with_text (pf_nut_text pf) (as_result (nt_RequestFSD nt ups conf x))"

definition wake_call :: "'x platform \<Rightarrow> (string, host_config) fmap \<Rightarrow> string \<Rightarrow> ('x, unit) call" where
  "wake_call pf hosts hid x = with_text (pf_wake_text pf) (as_result (armedWaker_Wake pf hosts hid x))"

text \<open>The controller of the armed runtime, over the store of the state package.\<close>

definition armed_deps ::
  "'x platform \<Rightarrow> 'x nut_controller \<Rightarrow> string \<Rightarrow> config \<Rightarrow> ('b store_world, 'x, store_error) ctl_deps" where
  "armed_deps pf nt upsmon runtimeCfg =
     (let byID = hosts_by_id (cf_Hosts runtimeCfg) in
      \<lparr>su_Config = runtimeCfg,
       su_put = store_put,
       su_Probe = Some \<lparr>pb_Check = armedProber_Check pf, pb_Wait = wait_under_deadline pf\<rparr>,
       su_Shutdown = Some (shutdown_call pf),
       su_FSD = Some (fsd_call pf nt),
       su_Recovery = Some \<lparr>rv_Online = online_under_deadline pf byID, rv_Wake = wake_call pf byID\<rparr>,
       su_UPSMonConfPath = upsmon,
       su_NewTransactionID = Some (newTransactionID pf)\<rparr>)"

text \<open>\<^verbatim>\<open>NUTFSD.RequestFSD\<close> of the adapters: a nil client is an error.\<close>

definition NUTFSD_RequestFSD ::
  "'x nut_client option \<Rightarrow> (string \<Rightarrow> 'x \<Rightarrow> file_read) \<Rightarrow> string \<Rightarrow> string \<Rightarrow> 'x \<Rightarrow> nut_error option option \<times> 'x" where
  "NUTFSD_RequestFSD cl read ups conf x =
     (case cl of
        None \<Rightarrow> (Some None, x)
      | Some c \<Rightarrow> (case RequestFSD c read ups conf x of (e, x') \<Rightarrow> (map_option Some e, x')))"

section \<open>The controller's own FSD\<close>

record fsd_tracker =
  ft_transactionID :: string
  ft_completed :: bool
  ft_attempts :: int
  ft_nextAttempt :: gtime

definition new_tracker :: "string \<Rightarrow> fsd_tracker" where
  "new_tracker tx = \<lparr>ft_transactionID = tx, ft_completed = False, ft_attempts = 0, ft_nextAttempt = None\<rparr>"

definition resetFor :: "string \<Rightarrow> fsd_tracker \<Rightarrow> fsd_tracker" where
  "resetFor tx t = (if ft_transactionID t = tx then t else new_tracker tx)"

definition shouldAttempt :: "instant \<Rightarrow> string \<Rightarrow> fsd_tracker \<Rightarrow> bool \<times> fsd_tracker" where
  "shouldAttempt now tx t =
     (let t = resetFor tx t in
      (\<not> ft_completed t \<and> (ft_nextAttempt t = None \<or> \<not> time_Before now (ft_nextAttempt t)), t))"

definition markSuccess :: "string \<Rightarrow> fsd_tracker \<Rightarrow> fsd_tracker" where
  "markSuccess tx t = (resetFor tx t)\<lparr>ft_completed := True, ft_nextAttempt := None\<rparr>"

definition markFailure :: "instant \<Rightarrow> string \<Rightarrow> fsd_tracker \<Rightarrow> duration \<times> fsd_tracker" where
  "markFailure now tx t =
     (let t = resetFor tx t;
          n = ft_attempts t + 1;
          delay = retry_delay n
      in (delay, t\<lparr>ft_attempts := n, ft_nextAttempt := time_Add now delay\<rparr>))"

definition hasNUTManagedHosts :: "host_config list \<Rightarrow> bool" where
  "hasNUTManagedHosts hosts = list_ex (\<lambda>h. sd_Method (hc_Shutdown h) = ''nut'') hosts"

section \<open>Dependencies\<close>

type_synonym streaks = "(string, int) fmap"

definition streak_of :: "streaks \<Rightarrow> string \<Rightarrow> int" where
  "streak_of m k = (case fmlookup m k of None \<Rightarrow> 0 | Some n \<Rightarrow> n)"

definition answers_online :: "check_error + probe_result \<Rightarrow> bool" where
  "answers_online r \<longleftrightarrow> (case r of Inl _ \<Rightarrow> False | Inr p \<Rightarrow> pr_Known p \<and> pr_Online p)"

fun ready_loop ::
  "'x checker \<Rightarrow> dependency_config list \<Rightarrow> bool \<Rightarrow> streaks \<Rightarrow> 'x \<Rightarrow> bool \<times> streaks \<times> 'x" where
  "ready_loop ck [] allReady m x = (allReady, m, x)"
| "ready_loop ck (dep # deps) allReady m x =
     (case dc_Address dep of
        None \<Rightarrow> (False, m, x)
      | Some a \<Rightarrow>
          (let (r, x) = Check ck a (dc_Status dep) x in
           if \<not> answers_online r then ready_loop ck deps False (fmupd (dc_ID dep) 0 m) x
           else
             (let n = streak_of m (dc_ID dep) + 1 in
              ready_loop ck deps (allReady \<and> n \<ge> needed (dc_Status dep)) (fmupd (dc_ID dep) n m) x)))"

definition Ready :: "'x checker \<Rightarrow> dependency_config list \<Rightarrow> streaks \<Rightarrow> 'x \<Rightarrow> bool \<times> streaks \<times> 'x" where
  "Ready ck deps m x = (if deps = [] then (True, m, x) else ready_loop ck deps True m x)"

section \<open>The agent\<close>

text \<open>One request of the controller's FSD: when, in which transaction, on which observation, and its outcome.\<close>

record fsd_request =
  fr_At :: instant
  fr_State :: power_txn
  fr_UPS :: status
  fr_OK :: bool

text \<open>
  The variables of \<^verbatim>\<open>runArmed\<close> that the loop changes. \<open>ag_server\<close> and \<open>ag_watchdog\<close> say that the channel is not nil,
  \<open>ag_beat\<close> that the buffered beat is full; \<open>ag_requests\<close> is a history variable.
\<close>

record ('w, 'x) agent =
  ag_ctl :: "('w, 'x) controller"
  ag_streaks :: streaks
  ag_fsd :: fsd_tracker
  ag_latestHealth :: snapshot
  ag_health :: "'x health_world"
  ag_server :: bool
  ag_watchdog :: bool
  ag_beat :: bool
  ag_requests :: "fsd_request list"

text \<open>What \<^verbatim>\<open>runArmed\<close> keeps fixed.\<close>

record ('w, 'x) runtime_deps =
  rn_platform :: "'x platform"
  rn_NUT :: "'x nut_controller"
  rn_options :: "'x options"
  rn_cfg :: config
  rn_deps :: "('w, 'x, store_error) ctl_deps"
  rn_supervisor :: "'x supervisor"

definition ag_env :: "('w, 'x) agent \<Rightarrow> 'x" where
  "ag_env a = ct_env (ag_ctl a)"

definition set_env :: "'x \<Rightarrow> ('w, 'x) agent \<Rightarrow> ('w, 'x) agent" where
  "set_env x a = a\<lparr>ag_ctl := (ag_ctl a)\<lparr>ct_env := x\<rparr>\<rparr>"

definition utility_name :: "utility_state \<Rightarrow> string" where
  "utility_name u = (case u of UtilityOnline \<Rightarrow> ''ONLINE'' | UtilityOnBattery \<Rightarrow> ''ON_BATTERY'' | UtilityUnknown \<Rightarrow> ''UNKNOWN'')"

definition observation :: "status \<Rightarrow> instant \<Rightarrow> ups_observation" where
  "observation ups now =
     \<lparr>ob_Utility = utility_name (us_Utility ups), ob_LowBattery = Some (us_LowBattery ups), ob_FSD = Some (us_FSD ups),
      ob_BatteryCharge = us_ChargePercent ups, ob_BatteryRuntimeSeconds = us_RuntimeSeconds ups,
      ob_RawStatus = us_RawStatus ups, ob_ObservedAtWallclock = rfc3339_stamp now\<rparr>"

definition nut_target :: "config \<Rightarrow> string" where
  "nut_target cfg = Target (nc_UPSName (cf_NUT cfg)) (nc_Host (cf_NUT cfg)) (nc_Port (cf_NUT cfg))"

text \<open>The query, an error read as an unknown utility state.\<close>

definition query_ups :: "'x nut_controller \<Rightarrow> config \<Rightarrow> 'x \<Rightarrow> status \<times> 'x" where
  "query_ups nt cfg x =
     (case nt_Query nt (nut_target cfg) x of
        ((st, None), x) \<Rightarrow> (st, x)
      | ((_, Some _), x) \<Rightarrow> (unknown_status fmempty, x))"

text \<open>Whether the controller must be shut down through its own \<^verbatim>\<open>upsmon\<close>.\<close>

definition controller_fsd_due :: "config \<Rightarrow> status \<Rightarrow> power_txn \<Rightarrow> bool" where
  "controller_fsd_due cfg ups st \<longleftrightarrow>
     st_ShutdownCommitted st \<and> st_PowerState st = WaitingForAC \<and> us_Utility ups = UtilityOnBattery
     \<and> nc_Profile (cf_NUT cfg) \<noteq> ''remote-client'' \<and> \<not> hasNUTManagedHosts (cf_Hosts cfg)"

definition request_controller_fsd ::
  "'x nut_controller \<Rightarrow> 'x options \<Rightarrow> config \<Rightarrow> instant \<Rightarrow> status \<Rightarrow> ('w, 'x) agent \<Rightarrow> ('w, 'x) agent" where
  "request_controller_fsd nt os cfg now ups a =
     (let st = ctl_state (ag_ctl a); tx = st_TransactionID st in
      if \<not> controller_fsd_due cfg ups st then a
      else
        (let (attempt, t) = shouldAttempt now tx (ag_fsd a) in
         if \<not> attempt then a\<lparr>ag_fsd := t\<rparr>
         else
           (let (err, x) = nt_RequestFSD nt (nc_UPSName (cf_NUT cfg)) (op_UPSMonConfPath os) (ag_env a);
                req = \<lparr>fr_At = now, fr_State = st, fr_UPS = ups, fr_OK = (err = None)\<rparr>;
                t = (if err = None then markSuccess tx t else snd (markFailure now tx t))
            in (set_env x a)\<lparr>ag_fsd := t, ag_requests := ag_requests a @ [req]\<rparr>)))"

text \<open>What the tick observes, and the agent with the observation noted.\<close>

definition observe ::
  "('w, 'x) runtime_deps \<Rightarrow> ('w, 'x) agent \<Rightarrow> instant \<times> inputs \<times> ('w, 'x) agent" where
  "observe rn a =
     (let pf = rn_platform rn; os = rn_options rn; cfg = rn_cfg rn;
          (ups, x) = query_ups (rn_NUT rn) cfg (ag_env a);
          (now, x) = pf_Now pf x;
          (file, x) = pf_readFile pf (op_SystemHealthStatePath os) x;
          (systemSafe, reason) = systemHealthSafe (pf_decode_health pf) file (op_SystemHealthMaxAge os) now;
          healthSafe = (criticalAgentHealthSafe (ag_latestHealth a) \<and> systemSafe);
          (networkReady, m, x) = Ready (pf_checker pf) (cf_Dependencies cfg) (ag_streaks a) x;
          c = (ag_ctl a)\<lparr>ct_policy := ObserveUPS (observation ups now) (ct_policy (ag_ctl a)), ct_env := x\<rparr>
      in (now, \<lparr>in_UPS = ups, in_NetworkReady = networkReady, in_HealthSafe = healthSafe\<rparr>, a\<lparr>ag_ctl := c, ag_streaks := m\<rparr>))"

datatype armed_failure =
    CapabilityRejected armed_error
  | CapabilityPanic
  | RevisionUnencodable
  | StateNotInitialized store_error
  | ForeignTransaction string string
  | StateNotReconciled store_error
  | ShutdownNotResumed "store_error coord_error"
  | OrchestrationFailed "store_error ctl_error"
  | ReadyFailed string
  | WatchdogNotStarted string
  | ServerFailed string
  | WatchdogFailed string

definition armedPowerTick ::
  "('w, 'x) runtime_deps \<Rightarrow> ('w, 'x) agent \<Rightarrow> armed_failure option \<times> ('w, 'x) agent" where
  "armedPowerTick rn a =
     (let (now, inp, a) = observe rn a in
      case Tick (rn_deps rn) now inp (ag_ctl a) of
        (Inl e, c) \<Rightarrow> (Some (OrchestrationFailed e), a\<lparr>ag_ctl := c\<rparr>)
      | (Inr _, c) \<Rightarrow>
          (None, request_controller_fsd (rn_NUT rn) (rn_options rn) (rn_cfg rn) now (in_UPS inp) (a\<lparr>ag_ctl := c\<rparr>)))"

section \<open>Health checks of the agent\<close>

definition nutHealthCheck :: "'x platform \<Rightarrow> 'x nut_controller \<Rightarrow> string \<Rightarrow> 'x health_check" where
  "nutHealthCheck pf nt target =
     \<lparr>hk_Name = ''nut.query'',
      hk_Run = (\<lambda>x.
        let r = \<lparr>hr_Name = ''nut.query'', hr_OK = False, hr_Critical = True, hr_Repairable = False, hr_Message = ''''\<rparr> in
        case nt_Query nt target x of
          ((_, Some e), x) \<Rightarrow> (r\<lparr>hr_Message := pf_nut_text pf e\<rparr>, x)
        | ((st, None), x) \<Rightarrow>
            (if us_Utility st = UtilityUnknown then (r\<lparr>hr_Message := ''UPS utility state is UNKNOWN''\<rparr>, x)
             else (r\<lparr>hr_OK := True, hr_Message := ''UPS status available: '' @ utility_name (us_Utility st)\<rparr>, x)))\<rparr>"

definition excluded_checks :: "'x platform \<Rightarrow> config \<Rightarrow> exclusions \<Rightarrow> 'x health_check list" where
  "excluded_checks pf cfg excluded =
     List.map_filter (\<lambda>h. map_option (\<lambda>reason. runtimePrerequisiteCheck (hc_ID h) (pf_prerequisite_text pf reason))
       (fmlookup excluded (hc_ID h))) (cf_Hosts cfg)"

definition agent_supervisor ::
  "'x platform \<Rightarrow> 'x options \<Rightarrow> config \<Rightarrow> 'x health_check list \<Rightarrow> 'x supervisor" where
  "agent_supervisor pf os cfg checks =
     \<lparr>sv_Checks = checks, sv_Repairers = fmempty, sv_StatePath = op_HealthStatePath os,
      sv_MaxRepairAttempts = hl_MaxRepairAttempts (cf_Health cfg), sv_BaseBackoff = 0, sv_MaxBackoff = 0,
      sv_Now = pf_Now pf, sv_encode = pf_encode_health pf, sv_decode = pf_decode_health pf\<rparr>"

definition health_tick :: "('w, 'x) runtime_deps \<Rightarrow> bool \<Rightarrow> ('w, 'x) agent \<Rightarrow> ('w, 'x) agent" where
  "health_tick rn autofix a =
     (let (snap, w) = runAgentHealth (pf_health_text (rn_platform rn)) (rn_supervisor rn) autofix ((ag_health a)\<lparr>hw_env := ag_env a\<rparr>)
      in (set_env (hw_env w) a)\<lparr>ag_latestHealth := snap, ag_health := w\<rparr>)"

definition health_interval :: "'x options \<Rightarrow> config \<Rightarrow> duration" where
  "health_interval os cfg =
     default_duration (if op_HealthInterval os \<le> 0 then seconds (hl_IntervalSeconds (cf_Health cfg)) else op_HealthInterval os)
       (60 * Second)"

section \<open>Starting the armed runtime\<close>

definition with_revision :: "string \<Rightarrow> string \<Rightarrow> power_txn \<Rightarrow> power_txn" where
  "with_revision tid revision p =
     p\<lparr>st_ParentTransactionID := st_TransactionID p, st_TransactionID := tid, st_ActiveConfigRevision := revision,
       st_Hosts := Some fmempty, st_PowerState := BootReconcile\<rparr>"

text \<open>A transaction that must not be carried over to another configuration.\<close>

definition in_transaction :: "power_txn \<Rightarrow> bool" where
  "in_transaction p \<longleftrightarrow> st_ShutdownCommitted p \<or> st_RecoveryStarted p
     \<or> (st_PowerState p \<noteq> Normal \<and> st_PowerState p \<noteq> BootReconcile)"

text \<open>Adopting the persisted transaction: load it, or initialize it, or bring an idle one to this configuration.\<close>

definition write_as ::
  "(store_error \<Rightarrow> armed_failure) \<Rightarrow> power_txn \<Rightarrow> 'b store_world \<Rightarrow> 'x \<Rightarrow> (armed_failure + power_txn) \<times> 'b store_world \<times> 'x" where
  "write_as failure st w x =
     (case Write st w of (Inl e, w') \<Rightarrow> (Inl (failure e), w', x) | (Inr p, w') \<Rightarrow> (Inr p, w', x))"

definition adopt ::
  "'x platform \<Rightarrow> config \<Rightarrow> 'b store_world \<Rightarrow> 'x \<Rightarrow> (armed_failure + power_txn) \<times> 'b store_world \<times> 'x" where
  "adopt pf cfg w x =
     (case configRevision pf cfg of
        None \<Rightarrow> (Inl RevisionUnencodable, w, x)
      | Some revision \<Rightarrow>
          (case Load (sw_codec w) (sw_fault w (sw_calls w)) (sw_disk w) of
             Inl e \<Rightarrow>
               (if e \<noteq> ErrNoValidState then (Inl (StateNotInitialized e), w, x)
                else
                  (let (tid, x) = newTransactionID pf x in
                   write_as StateNotInitialized (New_State tid revision) w x))
           | Inr (p, _) \<Rightarrow>
               (if st_ActiveConfigRevision p = revision then (Inr p, w, x)
                else if in_transaction p then (Inl (ForeignTransaction (st_ActiveConfigRevision p) revision), w, x)
                else
                  (let (tid, x) = newTransactionID pf x in
                   write_as StateNotReconciled (with_revision tid revision p) w x))))"

text \<open>The coordinator on the adopted transaction; a committed shutdown is resumed as one in progress.\<close>

definition resume_controller ::
  "('b store_world, 'x, store_error) ctl_deps \<Rightarrow> policy_config \<Rightarrow> power_txn \<Rightarrow> 'b store_world \<Rightarrow> 'x
     \<Rightarrow> store_error ctl_error option \<times> ('b store_world, 'x) controller" where
  "resume_controller su pcfg p w x =
     (let c = boot_ctl pcfg p w x [] in
      if resumes_shutdown p
      then (case policy_write su (p\<lparr>st_PowerState := ShutdownInProgress\<rparr>) c of
              (Inl e, c') \<Rightarrow> (Some e, c') | (Inr _, c') \<Rightarrow> (None, c'))
      else (None, c))"

definition new_agent :: "('w, 'x) controller \<Rightarrow> snapshot \<Rightarrow> 'x health_world \<Rightarrow> ('w, 'x) agent" where
  "new_agent c snap hw =
     \<lparr>ag_ctl = c, ag_streaks = fmempty, ag_fsd = new_tracker '''', ag_latestHealth = snap, ag_health = hw,
      ag_server = True, ag_watchdog = True, ag_beat = False, ag_requests = []\<rparr>"

definition armed_runtime ::
  "'x platform \<Rightarrow> 'x nut_controller \<Rightarrow> 'x options \<Rightarrow> config \<Rightarrow> exclusions \<Rightarrow> ('b store_world, 'x) runtime_deps" where
  "armed_runtime pf nt os cfg excluded =
     \<lparr>rn_platform = pf, rn_NUT = nt, rn_options = os, rn_cfg = cfg,
      rn_deps = armed_deps pf nt (op_UPSMonConfPath os) (RuntimeConfigWithExclusions cfg excluded),
      rn_supervisor = agent_supervisor pf os cfg (nutHealthCheck pf nt (nut_target cfg) # excluded_checks pf cfg excluded)\<rparr>"

definition armed_start ::
  "'x platform \<Rightarrow> 'x nut_controller \<Rightarrow> 'x options \<Rightarrow> config \<Rightarrow> 'x health_world \<Rightarrow> 'b store_world
     \<Rightarrow> armed_failure + ('b store_world, 'x) runtime_deps \<times> ('b store_world, 'x) agent" where
  "armed_start pf nt os cfg hw w =
     (case RuntimeArmedExclusions (pf_local pf (hw_env hw)) cfg of
        Panic \<Rightarrow> Inl CapabilityPanic
      | Rejected e \<Rightarrow> Inl (CapabilityRejected e)
      | Excluded excluded \<Rightarrow>
          (let rn = armed_runtime pf nt os cfg excluded;
               (snap, hw) = runAgentHealth (pf_health_text pf) (rn_supervisor rn) False hw
           in case adopt pf cfg w (hw_env hw) of
                (Inl e, _, _) \<Rightarrow> Inl e
              | (Inr p, w, x) \<Rightarrow>
                  (case resume_controller (rn_deps rn) (policyFromConfig cfg) p w x of
                     (Some (PolicyFailed e), _) \<Rightarrow> Inl (ShutdownNotResumed e)
                   | (Some e, _) \<Rightarrow> Inl (OrchestrationFailed e)
                   | (None, c) \<Rightarrow> Inr (rn, new_agent c snap hw))))"

section \<open>The loops\<close>

text \<open>What a \<^verbatim>\<open>select\<close> can receive. A channel that is nil never delivers.\<close>

datatype loop_event =
    ContextDone
  | ServerError "string option"
  | WatchdogClosed
  | WatchdogError "string option"
  | LivenessTick
  | HealthTick
  | PowerTick

datatype run_state = Running | Returned "armed_failure option"

definition nonBlockingBeat :: "('w, 'x) agent \<Rightarrow> ('w, 'x) agent" where
  "nonBlockingBeat a = a\<lparr>ag_beat := True\<rparr>"

fun loop_step :: "('w, 'x) runtime_deps \<Rightarrow> loop_event \<Rightarrow> ('w, 'x) agent \<Rightarrow> run_state \<times> ('w, 'x) agent" where
  "loop_step rn ContextDone a = (Returned None, a)"
| "loop_step rn (ServerError e) a =
     (if \<not> ag_server a then (Running, a)
      else
        (case e of
           Some err \<Rightarrow>
             if ck_ctxErr (pf_checker (rn_platform rn)) (ag_env a) = None then (Returned (Some (ServerFailed err)), a)
             else (Running, a\<lparr>ag_server := False\<rparr>)
         | None \<Rightarrow> (Running, a\<lparr>ag_server := False\<rparr>)))"
| "loop_step rn WatchdogClosed a = (Running, a\<lparr>ag_watchdog := False\<rparr>)"
| "loop_step rn (WatchdogError e) a =
     (case e of
        Some err \<Rightarrow> if ag_watchdog a then (Returned (Some (WatchdogFailed err)), a) else (Running, a)
      | None \<Rightarrow> (Running, a))"
| "loop_step rn LivenessTick a = (Running, a)"
| "loop_step rn HealthTick a = (Running, health_tick rn (hl_Autofix (cf_Health (rn_cfg rn))) a)"
| "loop_step rn PowerTick a =
     (case armedPowerTick rn a of
        (Some e, a') \<Rightarrow> (Returned (Some e), a')
      | (None, a') \<Rightarrow> (Running, nonBlockingBeat a'))"

text \<open>\<open>step\<close> is the body of the \<^verbatim>\<open>for\<close> loop; \<open>Running\<close> after all events means that it waits for more.\<close>

fun select_loop :: "(loop_event \<Rightarrow> 'a \<Rightarrow> run_state \<times> 'a) \<Rightarrow> loop_event list \<Rightarrow> 'a \<Rightarrow> run_state \<times> 'a" where
  "select_loop step [] a = (Running, a)"
| "select_loop step (ev # evs) a =
     (case step ev a of (Running, a') \<Rightarrow> select_loop step evs a' | (Returned r, a') \<Rightarrow> (Returned r, a'))"

definition call_hook :: "'x hook option \<Rightarrow> 'x \<Rightarrow> string option \<times> 'x" where
  "call_hook h x = (case h of None \<Rightarrow> (None, x) | Some f \<Rightarrow> f x)"

text \<open>\<^verbatim>\<open>defer opts.Stopping()\<close>.\<close>

definition stopping :: "'x options \<Rightarrow> run_state \<times> ('w, 'x) agent \<Rightarrow> run_state \<times> ('w, 'x) agent" where
  "stopping os r =
     (case r of
        (Running, a) \<Rightarrow> (Running, a)
      | (Returned e, a) \<Rightarrow> (Returned e, set_env (snd (call_hook (op_Stopping os) (ag_env a))) a))"

text \<open>From READY on: the watchdog, the first beat, the loop.\<close>

definition serve ::
  "'x options \<Rightarrow> (loop_event \<Rightarrow> ('w, 'x) agent \<Rightarrow> run_state \<times> ('w, 'x) agent) \<Rightarrow> loop_event list
     \<Rightarrow> ('w, 'x) agent \<Rightarrow> run_state \<times> ('w, 'x) agent" where
  "serve os step evs a =
     (case call_hook (op_Ready os) (ag_env a) of
        (Some e, x) \<Rightarrow> (Returned (Some (ReadyFailed e)), set_env x a)
      | (None, x) \<Rightarrow>
          stopping os
            (case call_hook (map_option (\<lambda>f. f (20 * Second)) (op_StartWatchdog os)) x of
               (Some e, x) \<Rightarrow> (Returned (Some (WatchdogNotStarted e)), set_env x a)
             | (None, x) \<Rightarrow> select_loop step evs (nonBlockingBeat (set_env x a))))"

definition run_started ::
  "('w, 'x) runtime_deps \<Rightarrow> loop_event list \<Rightarrow> ('w, 'x) agent \<Rightarrow> run_state \<times> ('w, 'x) agent" where
  "run_started rn evs a =
     (case armedPowerTick rn a of
        (Some e, a') \<Rightarrow> (Returned (Some e), a')
      | (None, a') \<Rightarrow> serve (rn_options rn) (loop_step rn) evs a')"

definition runArmed ::
  "'x platform \<Rightarrow> 'x nut_controller \<Rightarrow> 'x options \<Rightarrow> config \<Rightarrow> 'x health_world \<Rightarrow> 'b store_world \<Rightarrow> loop_event list
     \<Rightarrow> run_state \<times> ('b store_world, 'x) agent option" where
  "runArmed pf nt os cfg hw w evs =
     (case armed_start pf nt os cfg hw w of
        Inl e \<Rightarrow> (Returned (Some e), None)
      | Inr (rn, a) \<Rightarrow> (case run_started rn evs a of (r, a') \<Rightarrow> (r, Some a')))"

section \<open>Passive modes\<close>

record 'x passive_agent =
  pv_health :: "'x health_world"
  pv_server :: bool
  pv_watchdog :: bool
  pv_beat :: bool

definition passive_supervisor :: "'x platform \<Rightarrow> 'x nut_controller \<Rightarrow> 'x options \<Rightarrow> config \<Rightarrow> 'x supervisor" where
  "passive_supervisor pf nt os cfg = agent_supervisor pf os cfg [nutHealthCheck pf nt (nut_target cfg)]"

fun passive_step ::
  "'x platform \<Rightarrow> 'x supervisor \<Rightarrow> bool \<Rightarrow> loop_event \<Rightarrow> 'x passive_agent \<Rightarrow> run_state \<times> 'x passive_agent" where
  "passive_step pf s autofix ContextDone p = (Returned None, p)"
| "passive_step pf s autofix (ServerError e) p =
     (if \<not> pv_server p then (Running, p)
      else
        (case e of
           Some err \<Rightarrow>
             if ck_ctxErr (pf_checker pf) (hw_env (pv_health p)) = None then (Returned (Some (ServerFailed err)), p)
             else (Running, p\<lparr>pv_server := False\<rparr>)
         | None \<Rightarrow> (Running, p\<lparr>pv_server := False\<rparr>)))"
| "passive_step pf s autofix WatchdogClosed p = (Running, p\<lparr>pv_watchdog := False\<rparr>)"
| "passive_step pf s autofix (WatchdogError e) p =
     (case e of
        Some err \<Rightarrow> if pv_watchdog p then (Returned (Some (WatchdogFailed err)), p) else (Running, p)
      | None \<Rightarrow> (Running, p))"
| "passive_step pf s autofix LivenessTick p = (Running, p\<lparr>pv_beat := True\<rparr>)"
| "passive_step pf s autofix HealthTick p =
     (Running, p\<lparr>pv_health := snd (runAgentHealth (pf_health_text pf) s autofix (pv_health p)), pv_beat := True\<rparr>)"
| "passive_step pf s autofix PowerTick p = (Running, p)"

definition at_passive_env :: "('x \<Rightarrow> 'r \<times> 'x) \<Rightarrow> 'x passive_agent \<Rightarrow> 'r \<times> 'x passive_agent" where
  "at_passive_env f p =
     (case f (hw_env (pv_health p)) of (r, x) \<Rightarrow> (r, p\<lparr>pv_health := (pv_health p)\<lparr>hw_env := x\<rparr>\<rparr>))"

definition passive_stopping :: "'x options \<Rightarrow> run_state \<times> 'x passive_agent \<Rightarrow> run_state \<times> 'x passive_agent" where
  "passive_stopping os r =
     (case r of
        (Running, p) \<Rightarrow> (Running, p)
      | (Returned e, p) \<Rightarrow> (Returned e, snd (at_passive_env (call_hook (op_Stopping os)) p)))"

definition runPassive ::
  "'x platform \<Rightarrow> 'x nut_controller \<Rightarrow> 'x options \<Rightarrow> config \<Rightarrow> 'x health_world \<Rightarrow> loop_event list
     \<Rightarrow> run_state \<times> 'x passive_agent" where
  "runPassive pf nt os cfg hw evs =
     (let s = passive_supervisor pf nt os cfg;
          p = \<lparr>pv_health = snd (runAgentHealth (pf_health_text pf) s False hw), pv_server = True, pv_watchdog = True,
               pv_beat = False\<rparr>
      in case at_passive_env (call_hook (op_Ready os)) p of
           (Some e, p) \<Rightarrow> (Returned (Some (ReadyFailed e)), p)
         | (None, p) \<Rightarrow>
             passive_stopping os
               (case at_passive_env (call_hook (map_option (\<lambda>f. f (20 * Second)) (op_StartWatchdog os))) p of
                  (Some e, p) \<Rightarrow> (Returned (Some (WatchdogNotStarted e)), p)
                | (None, p) \<Rightarrow>
                    select_loop (passive_step pf s (hl_Autofix (cf_Health cfg))) evs (p\<lparr>pv_beat := True\<rparr>)))"

section \<open>Running the agent\<close>

text \<open>The mode selects the runtime; the options have their defaults, so the NUT controller is there.\<close>

datatype ('w, 'x) agent_run =
    ArmedRun run_state "('w, 'x) agent option"
  | PassiveRun run_state "'x passive_agent"

definition Run_agent ::
  "'x host_services \<Rightarrow> 'x platform \<Rightarrow> 'x options \<Rightarrow> config \<Rightarrow> 'x health_world \<Rightarrow> 'b store_world \<Rightarrow> loop_event list
     \<Rightarrow> ('b store_world, 'x) agent_run" where
  "Run_agent dv pf opts cfg hw w evs =
     (let os = options_defaults dv opts; nt = (case op_NUT os of None \<Rightarrow> dv_NUT dv | Some nt \<Rightarrow> nt) in
      if cf_Mode cfg = ''armed'' then (case runArmed pf nt os cfg hw w evs of (r, a) \<Rightarrow> ArmedRun r a)
      else (case runPassive pf nt os cfg hw evs of (r, p) \<Rightarrow> PassiveRun r p))"

datatype load_error = NotRecovered rev_error | ConfigUnread rev_error | ConfigNotParsed config_error

text \<open>The configuration \<^verbatim>\<open>Run\<close> is called with: recover the history, read the active file, parse it.\<close>

definition load_config :: "'x manager \<Rightarrow> bool \<Rightarrow> 'x rev_world \<Rightarrow> (load_error + config) \<times> 'x rev_world" where
  "load_config m held w =
     (case RecoverForStartup m None held w of
        (Inl e, w) \<Rightarrow> (Inl (NotRecovered e), w)
      | (Inr _, w) \<Rightarrow>
          (case readActive w of
             (Inl e, w) \<Rightarrow> (Inl (ConfigUnread e), w)
           | (Inr content, w) \<Rightarrow>
               (case parse_content m content of
                  Inl e \<Rightarrow> (Inl (ConfigNotParsed e), w)
                | Inr cfg \<Rightarrow> (Inr cfg, w))))"

definition LoadAndRun ::
  "'x host_services \<Rightarrow> 'x platform \<Rightarrow> 'x options \<Rightarrow> 'x manager \<Rightarrow> bool \<Rightarrow> 'x rev_world \<Rightarrow> 'x health_world
     \<Rightarrow> 'b store_world \<Rightarrow> loop_event list \<Rightarrow> load_error + ('b store_world, 'x) agent_run" where
  "LoadAndRun dv pf opts m held rw hw w evs =
     (case load_config m held rw of
        (Inl e, _) \<Rightarrow> Inl e
      | (Inr cfg, rw) \<Rightarrow> Inr (Run_agent dv pf (options_defaults dv opts) cfg (hw\<lparr>hw_env := rw_env rw\<rparr>) w evs))"

end
