(* ===== verification/Revision_Logic.thy ===== *)
theory Revision_Logic
  imports Config_Revisions
begin

text \<open>
  The invariant of the configuration history and a logic of triples for its operations: whatever system
  calls fail, every content the files go through satisfies the invariant. Each operation of the manager
  has its triple here.
\<close>

section \<open>What the history promises\<close>

text \<open>
  What the manager relies on: hashes are lower-case hexadecimal, and reading a manifest back gives its
  status, and its identifier and hash where they are ASCII (JSON replaces malformed UTF-8).
\<close>

definition manager_ok :: "'x manager \<Rightarrow> bool" where
  "manager_ok m \<longleftrightarrow>
     (\<forall>c. list_all lower_hex (mg_sha256_hex m c))
     \<and> (\<forall>mf. \<exists>mf'. mg_decode m (mg_encode m mf) = Some mf' \<and> mf_Status mf' = mf_Status mf
          \<and> (ascii (mf_RevisionID mf) \<longrightarrow> mf_RevisionID mf' = mf_RevisionID mf)
          \<and> (ascii (mf_ContentSHA256 mf) \<longrightarrow> mf_ContentSHA256 mf' = mf_ContentSHA256 mf))"

definition parses :: "'x manager \<Rightarrow> string \<Rightarrow> bool" where
  "parses m c \<longleftrightarrow> (\<exists>cfg. parse_content m c = Inr cfg)"

text \<open>A revision that was promoted and is complete; one that is still in a transaction; one that may be active.\<close>

definition known_good :: "'x manager \<Rightarrow> history \<Rightarrow> string \<Rightarrow> bool" where
  "known_good m hy rid \<longleftrightarrow>
     (\<exists>mf. read_manifest m hy rid = Inr mf \<and> mf_Status mf = RevisionKnownGood) \<and> rd_config (dir_of hy rid) \<noteq> None"

definition in_progress :: "revision_status \<Rightarrow> bool" where
  "in_progress st \<longleftrightarrow> st \<in> {RevisionCandidate, RevisionValidating, RevisionFailed}"

definition opened :: "'x manager \<Rightarrow> history \<Rightarrow> string \<Rightarrow> bool" where
  "opened m hy rid \<longleftrightarrow> (\<exists>mf. read_manifest m hy rid = Inr mf \<and> in_progress (mf_Status mf))"

definition may_be_active :: "'x manager \<Rightarrow> history \<Rightarrow> string \<Rightarrow> bool" where
  "may_be_active m hy rid \<longleftrightarrow> opened m hy rid \<or> known_good m hy rid"

definition verified :: "'x manager \<Rightarrow> history \<Rightarrow> string \<Rightarrow> string \<Rightarrow> bool" where
  "verified m hy rid h \<longleftrightarrow>
     (\<exists>c. rd_config (dir_of hy rid) = Some c \<and> parses m c
        \<and> map lower_char h = map lower_char (mg_sha256_hex m c))"

definition rev_inv :: "'x manager \<Rightarrow> history \<Rightarrow> bool" where
  "rev_inv m hy \<longleftrightarrow>
     (\<forall>p. \<exists>rid. read_pointer hy p = Inr rid)
     \<and> (\<forall>rid. read_pointer hy LastKnownGoodPtr = Inr rid \<longrightarrow> rid \<noteq> '''' \<longrightarrow> known_good m hy rid)
     \<and> (\<forall>rid. read_pointer hy Active = Inr rid \<longrightarrow> rid \<noteq> '''' \<longrightarrow> may_be_active m hy rid)
     \<and> (\<forall>rid mf. read_manifest m hy rid = Inr mf \<longrightarrow> mf_RevisionID mf = rid)
     \<and> (\<forall>rid mf c. read_manifest m hy rid = Inr mf \<longrightarrow> mf_Status mf = RevisionKnownGood
          \<longrightarrow> rd_config (dir_of hy rid) = Some c \<longrightarrow> contentMatches m mf c \<and> parses m c)"

section \<open>Effects of the elementary changes\<close>

lemma dir_of_put_dir [simp]: "dir_of (put_dir r d hy) q = (if q = r then d else dir_of hy q)"
  by (simp add: dir_of_def put_dir_def)

lemma dir_of_changes [simp]:
  "dir_of (make_dir r hy) q = dir_of hy q"
  "dir_of (put_pointer p b hy) q = dir_of hy q"
  "dir_of (put_active c hy) q = dir_of hy q"
  "dir_of (put_revision_config r c hy) q = (if q = r then (dir_of hy q)\<lparr>rd_config := Some c\<rparr> else dir_of hy q)"
  "dir_of (put_manifest r b hy) q = (if q = r then (dir_of hy q)\<lparr>rd_manifest := Some b\<rparr> else dir_of hy q)"
  by (simp_all add: make_dir_def put_revision_config_def put_manifest_def)
    (simp_all add: dir_of_def put_pointer_def put_active_def)

lemma dir_of_drop [simp]:
  "dir_of (drop_config r hy) q = (if q = r then (dir_of hy q)\<lparr>rd_config := None\<rparr> else dir_of hy q)"
  "dir_of (drop_manifest r hy) q = (if q = r then (dir_of hy q)\<lparr>rd_manifest := None\<rparr> else dir_of hy q)"
  "dir_of (drop_dir r hy) q = (if q = r then no_files else dir_of hy q)"
  by (auto simp: drop_config_def drop_manifest_def drop_file_def drop_dir_def dir_of_def put_dir_def no_files_def
      split: option.split)

lemma pointers_changes [simp]:
  "read_pointer (make_dir r hy) p = read_pointer hy p"
  "read_pointer (put_active c hy) p = read_pointer hy p"
  "read_pointer (put_revision_config r c hy) p = read_pointer hy p"
  "read_pointer (put_manifest r b hy) p = read_pointer hy p"
  "read_pointer (drop_config r hy) p = read_pointer hy p"
  "read_pointer (drop_manifest r hy) p = read_pointer hy p"
  "read_pointer (drop_dir r hy) p = read_pointer hy p"
  by (simp_all add: read_pointer_def make_dir_def put_dir_def put_active_def put_revision_config_def put_manifest_def
      drop_config_def drop_manifest_def drop_file_def drop_dir_def split: option.split)

text \<open>Facts about revisions depend on the directories only.\<close>

lemma read_manifest_cong: "dir_of hy rid = dir_of hy' rid \<Longrightarrow> read_manifest m hy rid = read_manifest m hy' rid"
  by (simp add: read_manifest_def)

lemma revision_cong:
  assumes "dir_of hy rid = dir_of hy' rid"
  shows "known_good m hy rid = known_good m hy' rid" "opened m hy rid = opened m hy' rid"
    "may_be_active m hy rid = may_be_active m hy' rid" "verified m hy rid h = verified m hy' rid h"
  using assms by (simp_all add: known_good_def opened_def may_be_active_def verified_def read_manifest_def)

lemma plain_id_char: "is_digit c \<or> lower_hex c \<or> c \<in> set ''cfg-TZ'' \<Longrightarrow> plain_char c"
  by (auto simp: lower_hex_def is_digit_def plain_char_def ascii_space_def Let_def)

lemma revisionIDPattern_plain:
  assumes "revisionIDPattern s"
  shows "s \<noteq> []" "list_all plain_char s"
proof -
  have len: "29 \<le> length s" using assms by (simp add: revisionIDPattern_def)
  have drop: "drop n s = s ! n # drop (Suc n) s" if "n < 29" for n
    using len that by (simp add: Cons_nth_drop_Suc)
  have "s = take 4 s @ take 8 (drop 4 s) @ drop 12 s"
    using append_take_drop_id [of 4 s] append_take_drop_id [of 8 "drop 4 s"] by simp
  moreover have "drop 12 s = s ! 12 # take 6 (drop 13 s) @ drop 19 s"
    using drop [of 12] append_take_drop_id [of 6 "drop 13 s"] by simp
  moreover have "drop 19 s = s ! 19 # s ! 20 # take 8 (drop 21 s) @ drop 29 s"
    using drop [of 19] drop [of 20] append_take_drop_id [of 8 "drop 21 s"] by simp
  ultimately have "s = take 4 s @ take 8 (drop 4 s) @ s ! 12 # take 6 (drop 13 s) @ s ! 19 # s ! 20
      # take 8 (drop 21 s) @ drop 29 s"
    by simp
  from arg_cong [OF this, of set] have s: "set s = set (take 4 s) \<union> (set (take 8 (drop 4 s)) \<union> insert (s ! 12)
      (set (take 6 (drop 13 s)) \<union> insert (s ! 19) (insert (s ! 20) (set (take 8 (drop 21 s)) \<union> set (drop 29 s)))))"
    unfolding set_append list.set(2) .
  have "set (drop 29 s) \<subseteq> {CHR ''-''} \<union> {c. is_digit c}"
    using assms by (cases "drop 29 s") (auto simp: revisionIDPattern_def list_all_iff)
  then have "\<forall>c\<in>set s. is_digit c \<or> lower_hex c \<or> c \<in> set ''cfg-TZ''"
    using assms unfolding s revisionIDPattern_def list_all_iff Let_def by auto
  then show "list_all plain_char s" using plain_id_char by (auto simp: list_all_iff)
  show "s \<noteq> []" using len by auto
qed

lemma revisionIDPattern_ascii: "revisionIDPattern s \<Longrightarrow> ascii s"
  using revisionIDPattern_plain [of s] by (auto simp: ascii_def list_all_iff plain_char_def)

lemma TrimSpace_line: "revisionIDPattern s \<Longrightarrow> TrimSpace (s @ [newline]) = s"
proof -
  assume "revisionIDPattern s"
  note p = revisionIDPattern_plain [OF this]
  have "ascii_space newline" by (simp add: ascii_space_def newline_def)
  moreover have "strip wide (s @ [newline]) = s @ [newline]" "strip wide (rev s) = rev s" for wide
    using p by (auto intro!: strip_plain simp: list_all_iff hd_rev)
  ultimately show ?thesis by (simp add: TrimSpace_def strip_blank)
qed

lemma read_pointer_put:
  "revisionIDPattern v \<Longrightarrow> read_pointer (put_pointer p (v @ [newline]) hy) q = (if q = p then Inr v else read_pointer hy q)"
  using TrimSpace_line [of v] revisionIDPattern_plain(1) [of v] by (simp add: read_pointer_def put_pointer_def)

lemma read_pointer_pattern: "read_pointer hy p = Inr rid \<Longrightarrow> rid \<noteq> '''' \<Longrightarrow> revisionIDPattern rid"
  by (auto simp: read_pointer_def Let_def split: option.splits if_splits)

lemma revision_frame [simp]:
  "read_manifest m (put_pointer p b hy) rid = read_manifest m hy rid"
  "read_manifest m (put_active c hy) rid = read_manifest m hy rid"
  "read_manifest m (make_dir r hy) rid = read_manifest m hy rid"
  "known_good m (put_pointer p b hy) rid = known_good m hy rid"
  "known_good m (put_active c hy) rid = known_good m hy rid"
  "known_good m (make_dir r hy) rid = known_good m hy rid"
  "opened m (put_pointer p b hy) rid = opened m hy rid"
  "opened m (put_active c hy) rid = opened m hy rid"
  "opened m (make_dir r hy) rid = opened m hy rid"
  "may_be_active m (put_pointer p b hy) rid = may_be_active m hy rid"
  "may_be_active m (put_active c hy) rid = may_be_active m hy rid"
  "may_be_active m (make_dir r hy) rid = may_be_active m hy rid"
  "verified m (put_pointer p b hy) rid h = verified m hy rid h"
  "verified m (put_active c hy) rid h = verified m hy rid h"
  "verified m (make_dir r hy) rid h = verified m hy rid h"
  by (rule read_manifest_cong revision_cong; simp)+

section \<open>Preservation of the invariant\<close>

lemma rev_inv_pointersD:
  assumes "rev_inv m hy"
  shows "\<exists>rid. read_pointer hy p = Inr rid"
    and "read_pointer hy LastKnownGoodPtr = Inr rid \<Longrightarrow> rid \<noteq> '''' \<Longrightarrow> known_good m hy rid"
    and "read_pointer hy Active = Inr rid \<Longrightarrow> rid \<noteq> '''' \<Longrightarrow> may_be_active m hy rid"
    and "read_manifest m hy rid = Inr mf \<Longrightarrow> mf_RevisionID mf = rid"
    and "read_manifest m hy rid = Inr mf \<Longrightarrow> mf_Status mf = RevisionKnownGood \<Longrightarrow> rd_config (dir_of hy rid) = Some c
      \<Longrightarrow> contentMatches m mf c \<and> parses m c"
  using assms unfolding rev_inv_def by blast+

lemma known_good_not_opened: "known_good m hy rid \<Longrightarrow> \<not> opened m hy rid"
  by (auto simp: known_good_def opened_def in_progress_def)

lemma opened_not_last:
  "rev_inv m hy \<Longrightarrow> opened m hy rid \<Longrightarrow> read_pointer hy LastKnownGoodPtr \<noteq> Inr rid \<or> rid = ''''"
  using rev_inv_pointersD(2) known_good_not_opened by blast

lemma rev_inv_frame [simp]:
  "rev_inv m (put_active c hy) = rev_inv m hy" "rev_inv m (make_dir r hy) = rev_inv m hy"
  by (simp_all add: rev_inv_def)

lemma rev_inv_put_pointer:
  assumes "rev_inv m hy" "revisionIDPattern rid"
    and "p = LastKnownGoodPtr \<Longrightarrow> known_good m hy rid" "p = Active \<Longrightarrow> may_be_active m hy rid"
  shows "rev_inv m (put_pointer p (rid @ [newline]) hy)"
  using assms unfolding rev_inv_def read_pointer_put [OF assms(2)] by auto

text \<open>A change to the directory of one revision that no pointer relies on.\<close>

lemma rev_inv_local:
  assumes inv: "rev_inv m hy"
    and ptr: "\<And>p. read_pointer hy' p = read_pointer hy p" and dirs: "\<And>q. q \<noteq> rid \<Longrightarrow> dir_of hy' q = dir_of hy q"
    and last: "read_pointer hy LastKnownGoodPtr = Inr rid \<Longrightarrow> rid \<noteq> '''' \<Longrightarrow> known_good m hy' rid"
    and active: "read_pointer hy Active = Inr rid \<Longrightarrow> rid \<noteq> '''' \<Longrightarrow> may_be_active m hy' rid"
    and ident: "\<And>mf. read_manifest m hy' rid = Inr mf \<Longrightarrow> mf_RevisionID mf = rid"
    and content: "\<And>mf c. read_manifest m hy' rid = Inr mf \<Longrightarrow> mf_Status mf = RevisionKnownGood
      \<Longrightarrow> rd_config (dir_of hy' rid) = Some c \<Longrightarrow> contentMatches m mf c \<and> parses m c"
  shows "rev_inv m hy'"
proof -
  have same: "read_manifest m hy' q = read_manifest m hy q" "known_good m hy' q = known_good m hy q"
      "may_be_active m hy' q = may_be_active m hy q" if "q \<noteq> rid" for q
    using dirs [OF that] read_manifest_cong revision_cong by blast+
  note old = rev_inv_pointersD [OF inv]
  show ?thesis
    unfolding rev_inv_def ptr
  proof (intro conjI allI impI)
    show "\<exists>q. read_pointer hy p = Inr q" for p by (rule old(1))
    show "known_good m hy' q" if "read_pointer hy LastKnownGoodPtr = Inr q" "q \<noteq> ''''" for q
      using that last old(2) same by (cases "q = rid") auto
    show "may_be_active m hy' q" if "read_pointer hy Active = Inr q" "q \<noteq> ''''" for q
      using that active old(3) same by (cases "q = rid") auto
    show "mf_RevisionID mf = q" if "read_manifest m hy' q = Inr mf" for q mf
      using that ident old(4) same by (cases "q = rid") auto
    show "contentMatches m mf c" "parses m c"
      if "read_manifest m hy' q = Inr mf" "mf_Status mf = RevisionKnownGood" "rd_config (dir_of hy' q) = Some c" for q mf c
      using that content old(5) same dirs by (cases "q = rid"; auto)+
  qed
qed

lemma read_manifest_put:
  "read_manifest m (put_manifest rid b hy) q =
     (if q = rid then (case mg_decode m b of None \<Rightarrow> Inl ManifestUnreadable | Some mf \<Rightarrow> Inr mf)
      else read_manifest m hy q)"
  by (simp add: read_manifest_def)

lemma hash_ascii:
  assumes "manager_ok m" "map lower_char h = map lower_char (mg_sha256_hex m c)"
  shows "ascii h"
proof -
  have hex: "(of_char (lower_char x) :: nat) < 128" if "lower_hex x" for x
    using that by (auto simp: lower_hex_def is_digit_def lower_char_def Let_def)
  have orig: "(of_char x :: nat) < 128" if "(of_char (lower_char x) :: nat) < 128" for x
    using that by (auto simp: lower_char_def Let_def split: if_splits)
  have "(of_char x :: nat) < 128" if "x \<in> set h" for x
  proof -
    have "lower_char x \<in> set (map lower_char (mg_sha256_hex m c))"
      unfolding assms(2) [symmetric] using that by simp
    then obtain y where "y \<in> set (mg_sha256_hex m c)" "lower_char x = lower_char y" by auto
    moreover have "list_all lower_hex (mg_sha256_hex m c)" using assms(1) by (simp add: manager_ok_def)
    ultimately show ?thesis using hex [of y] orig [of x] by (simp add: list_all_iff)
  qed
  then show ?thesis by (simp add: ascii_def)
qed

text \<open>Writing a manifest: it reads back with the same identifier and status, and the same hash where it is verified.\<close>

lemma manifest_reads_back:
  assumes "manager_ok m" "revisionIDPattern (mf_RevisionID mf)"
  obtains mf' where "mg_decode m (mg_encode m mf) = Some mf'" "mf_Status mf' = mf_Status mf"
    "mf_RevisionID mf' = mf_RevisionID mf" "ascii (mf_ContentSHA256 mf) \<longrightarrow> mf_ContentSHA256 mf' = mf_ContentSHA256 mf"
  using assms revisionIDPattern_ascii unfolding manager_ok_def by metis

lemma rev_inv_put_manifest:
  assumes "manager_ok m" "rev_inv m hy" "revisionIDPattern (mf_RevisionID mf)"
    and last: "read_pointer hy LastKnownGoodPtr \<noteq> Inr (mf_RevisionID mf)"
    and cases: "in_progress (mf_Status mf)
      \<or> mf_Status mf = RevisionKnownGood \<and> verified m hy (mf_RevisionID mf) (mf_ContentSHA256 mf)
      \<or> mf_Status mf = RevisionRolledBack \<and> read_pointer hy Active \<noteq> Inr (mf_RevisionID mf)"
  shows "rev_inv m (put_manifest (mf_RevisionID mf) (mg_encode m mf) hy)"
proof -
  let ?rid = "mf_RevisionID mf" and ?hy = "put_manifest (mf_RevisionID mf) (mg_encode m mf) hy"
  obtain mf' where mf': "mg_decode m (mg_encode m mf) = Some mf'" "mf_Status mf' = mf_Status mf"
      "mf_RevisionID mf' = ?rid" "ascii (mf_ContentSHA256 mf) \<longrightarrow> mf_ContentSHA256 mf' = mf_ContentSHA256 mf"
    using manifest_reads_back [OF assms(1,3)] .
  have read: "read_manifest m ?hy ?rid = Inr mf'" by (simp add: read_manifest_put mf'(1))
  have content: "contentMatches m mf' c \<and> parses m c"
    if "mf_Status mf = RevisionKnownGood" "rd_config (dir_of hy ?rid) = Some c" for c
    using cases that hash_ascii [OF assms(1)] mf'(4)
    by (fastforce simp: verified_def contentMatches_def in_progress_def)
  show ?thesis
  proof (rule rev_inv_local [OF assms(2), where rid = ?rid])
    show "may_be_active m ?hy ?rid" if "read_pointer hy Active = Inr ?rid"
      using cases that read mf'(2)
      by (auto simp: may_be_active_def opened_def known_good_def verified_def)
    show "contentMatches m mf'' c \<and> parses m c"
      if "read_manifest m ?hy ?rid = Inr mf''" "mf_Status mf'' = RevisionKnownGood" "rd_config (dir_of ?hy ?rid) = Some c"
      for mf'' c
      using that read content mf'(2) by auto
    show "mf_RevisionID mf'' = ?rid" if "read_manifest m ?hy ?rid = Inr mf''" for mf''
      using that read mf'(3) by simp
  qed (use last in auto)
qed

section \<open>A logic for the operations\<close>

text \<open>
  \<open>safe m w\<close>: the files satisfy the invariant, and so did every content they went through.
  \<open>triple m P f Q E\<close>: from a safe world whose files satisfy \<open>P\<close>, whatever system calls fail and whatever the
  environment answers, \<open>f\<close> stays safe and ends with \<open>Q\<close>, or with \<open>E\<close> when it returns an error.
\<close>

definition safe :: "'x manager \<Rightarrow> 'x rev_world \<Rightarrow> bool" where
  "safe m w \<longleftrightarrow> rev_inv m (rw_files w) \<and> (\<forall>hy\<in>set (rw_seen w). rev_inv m hy)"

definition triple :: "'x manager \<Rightarrow> (history \<Rightarrow> bool) \<Rightarrow> ('x, 'a) rev_proc \<Rightarrow> ('a \<Rightarrow> history \<Rightarrow> bool) \<Rightarrow> (history \<Rightarrow> bool) \<Rightarrow> bool" where
  "triple m P f Q E \<longleftrightarrow>
     (\<forall>w. safe m w \<longrightarrow> P (rw_files w) \<longrightarrow>
        wp f (\<lambda>r w'. safe m w' \<and> Q r (rw_files w')) (\<lambda>_ w'. safe m w' \<and> E (rw_files w')) w)"

lemma tripleD: "triple m P f Q E \<Longrightarrow> safe m w \<Longrightarrow> P (rw_files w) \<Longrightarrow>
    wp f (\<lambda>r w'. safe m w' \<and> Q r (rw_files w')) (\<lambda>_ w'. safe m w' \<and> E (rw_files w')) w"
  by (simp add: triple_def)

lemma triple_conseq:
  assumes "triple m P f Q E" "\<And>hy. rev_inv m hy \<Longrightarrow> P' hy \<Longrightarrow> P hy" "\<And>x hy. Q x hy \<Longrightarrow> Q' x hy" "\<And>hy. E hy \<Longrightarrow> E' hy"
  shows "triple m P' f Q' E'"
  using assms unfolding triple_def safe_def by (blast intro: wp_conseq)

lemma triple_return [intro]: "(\<And>hy. rev_inv m hy \<Longrightarrow> P hy \<Longrightarrow> Q x hy) \<Longrightarrow> triple m P (return x) Q E"
  by (simp add: triple_def safe_def)

lemma triple_throw [intro]: "(\<And>hy. rev_inv m hy \<Longrightarrow> P hy \<Longrightarrow> E hy) \<Longrightarrow> triple m P (throw e) Q E"
  by (simp add: triple_def safe_def)

lemma triple_seq:
  assumes "triple m P f R E" "\<And>x. triple m (R x) (g x) Q E"
  shows "triple m P (seqE f g) Q E"
  unfolding triple_def wp_seqE
proof (intro allI impI)
  fix w assume "safe m w" "P (rw_files w)"
  from tripleD [OF assms(1) this] show "wp f (\<lambda>x. wp (g x) (\<lambda>r w'. safe m w' \<and> Q r (rw_files w'))
      (\<lambda>_ w'. safe m w' \<and> E (rw_files w'))) (\<lambda>_ w'. safe m w' \<and> E (rw_files w')) w"
    by (rule wp_conseq) (use tripleD [OF assms(2)] in blast)+
qed

lemma triple_try:
  assumes "triple m P f R F" "\<And>e. triple m F (h e) Q E" "\<And>x. triple m (R x) (g x) Q E"
  shows "triple m P (tryE f h g) Q E"
  unfolding triple_def wp_tryE
proof (intro allI impI)
  fix w assume "safe m w" "P (rw_files w)"
  from tripleD [OF assms(1) this] show "wp f (\<lambda>x. wp (g x) (\<lambda>r w'. safe m w' \<and> Q r (rw_files w'))
      (\<lambda>_ w'. safe m w' \<and> E (rw_files w'))) (\<lambda>e. wp (h e) (\<lambda>r w'. safe m w' \<and> Q r (rw_files w'))
      (\<lambda>_ w'. safe m w' \<and> E (rw_files w'))) w"
    by (rule wp_conseq) (use tripleD [OF assms(2)] tripleD [OF assms(3)] in blast)+
qed

lemma triple_if [intro]:
  "(b \<Longrightarrow> triple m P f Q E) \<Longrightarrow> (\<not> b \<Longrightarrow> triple m P g Q E) \<Longrightarrow> triple m P (if b then f else g) Q E"
  by simp

text \<open>Steps that leave the files alone.\<close>

definition quiet :: "('x, 'a) rev_proc \<Rightarrow> bool" where
  "quiet f \<longleftrightarrow> (\<forall>w. rw_files (snd (f w)) = rw_files w \<and> rw_seen (snd (f w)) = rw_seen w)"

lemma quiet_triple: "quiet f \<Longrightarrow> triple m P f (\<lambda>_. P) P"
  unfolding triple_def quiet_def safe_def wp_def by (auto split: prod.splits sum.splits) (metis snd_conv)+

lemma quiet_seqE: "quiet f \<Longrightarrow> (\<And>x. quiet (g x)) \<Longrightarrow> quiet (seqE f g)"
  by (auto simp: quiet_def seqE_def split: prod.split sum.split) (metis snd_conv)+

lemma quiet_basic: "quiet syscall" "quiet (consult h)" "quiet (return x)" "quiet (throw e)" "quiet (lift_text k t)" "quiet (getS h')"
  by (auto simp: quiet_def syscall_def consult_def return_def throw_def lift_text_def getS_def Let_def
      split: prod.split option.split)

lemma quiet_forE: "(\<And>x. quiet (f x)) \<Longrightarrow> quiet (forE xs f)"
  by (induction xs) (auto intro: quiet_seqE quiet_basic)

lemma quiet_steps: "quiet (syscalls n)" "quiet Ensure" "quiet lock" "quiet (apply_runtime rt)" "quiet (healthy_runtime rt)" "quiet (try_runtime r)"
  unfolding syscalls_def Ensure_def lock_def apply_runtime_def healthy_runtime_def try_runtime_def
  by (auto intro!: quiet_seqE quiet_forE quiet_basic split: option.split)

lemma triple_readPointer:
  "triple m P (readPointer p) (\<lambda>rid hy. P hy \<and> read_pointer hy p = Inr rid) P"
  unfolding triple_def readPointer_def syscall_def liftR_def safe_def wp_def proc_defs
  by (auto simp: Let_def split: sum.splits)

lemma triple_readManifest:
  "triple m P (readManifest m rid) (\<lambda>mf hy. P hy \<and> revisionIDPattern rid \<and> read_manifest m hy rid = Inr mf) P"
  unfolding triple_def readManifest_def ValidateRevisionID_def syscall_def liftR_def safe_def wp_def proc_defs
  by (auto simp: Let_def split: sum.splits)

lemma triple_readConfig:
  "triple m P (readConfig rid) (\<lambda>c hy. P hy \<and> rd_config (dir_of hy rid) = Some c) P"
  unfolding triple_def readConfig_def syscall_def safe_def wp_def proc_defs
  by (auto simp: Let_def split: sum.splits option.splits)

lemma triple_or_empty:
  "triple m P (or_empty (readPointer p)) (\<lambda>rid hy. P hy \<and> (rid = '''' \<or> read_pointer hy p = Inr rid)) E"
  unfolding or_empty_def by (rule triple_try [OF triple_readPointer]) auto

lemma triple_or_empty_keep: "triple m P (or_empty (readPointer p)) (\<lambda>_. P) E"
  by (rule triple_conseq [OF triple_or_empty [where P = P]]) auto

text \<open>An atomic write: each of the contents it may leave satisfies the invariant.\<close>

lemma triple_change:
  assumes "\<And>hy. rev_inv m hy \<Longrightarrow> P hy \<Longrightarrow> rev_inv m (f hy)"
  shows "triple m P (change f) (\<lambda>_ hy'. \<exists>hy. rev_inv m hy \<and> P hy \<and> hy' = f hy) E"
  using assms unfolding triple_def change_def safe_def by auto

lemma triple_writeAtomic:
  assumes "\<And>hy. rev_inv m hy \<Longrightarrow> P hy \<Longrightarrow> rev_inv m (mkdir hy) \<and> R (mkdir hy)"
    and "\<And>hy. rev_inv m hy \<Longrightarrow> R hy \<Longrightarrow> rev_inv m (install hy) \<and> Q (install hy)"
    and "\<And>hy. P hy \<Longrightarrow> E hy" "\<And>hy. R hy \<Longrightarrow> E hy" "\<And>hy. Q hy \<Longrightarrow> E hy"
  shows "triple m P (writeAtomic mkdir install) (\<lambda>_. Q) E"
  unfolding writeAtomic_def
proof (rule triple_seq [where R = "\<lambda>_. P"])
  show "triple m P syscall (\<lambda>_. P) E"
    by (rule triple_conseq [OF quiet_triple [OF quiet_basic(1), where P = P]]) (use assms(3) in auto)
next
  fix x
  show "triple m P (seqE (change mkdir) (\<lambda>_. seqE (syscalls 6) (\<lambda>_. seqE (change install) (\<lambda>_. syscalls 2)))) (\<lambda>_. Q) E"
  proof (rule triple_seq [where R = "\<lambda>_. R"])
    show "triple m P (change mkdir) (\<lambda>_. R) E"
      by (rule triple_conseq [OF triple_change [where P = P]]) (use assms(1) in auto)
  next
    fix x
    show "triple m R (seqE (syscalls 6) (\<lambda>_. seqE (change install) (\<lambda>_. syscalls 2))) (\<lambda>_. Q) E"
    proof (rule triple_seq [where R = "\<lambda>_. R"])
      show "triple m R (syscalls 6) (\<lambda>_. R) E"
        by (rule triple_conseq [OF quiet_triple [OF quiet_steps(1), where P = R]]) (use assms(4) in auto)
    next
      fix x
      show "triple m R (seqE (change install) (\<lambda>_. syscalls 2)) (\<lambda>_. Q) E"
      proof (rule triple_seq [where R = "\<lambda>_. Q"])
        show "triple m R (change install) (\<lambda>_. Q) E"
          by (rule triple_conseq [OF triple_change [where P = R]]) (use assms(2) in auto)
        show "triple m Q (syscalls 2) (\<lambda>_. Q) E"
          by (rule triple_conseq [OF quiet_triple [OF quiet_steps(1), where P = Q]]) (use assms(5) in auto)
      qed
    qed
  qed
qed

text \<open>Composing with a step whose error leaves its precondition, or any safe files.\<close>

lemma triple_then:
  assumes "triple m P f R P" "\<And>x. triple m (R x) (g x) Q (\<lambda>_. True)"
  shows "triple m P (seqE f g) Q (\<lambda>_. True)"
  by (rule triple_seq [OF triple_conseq [OF assms(1)] assms(2)]) auto

lemma triple_or_else:
  assumes "triple m P f R P" "\<And>e. triple m P (h e) Q (\<lambda>_. True)" "\<And>x. triple m (R x) (g x) Q (\<lambda>_. True)"
  shows "triple m P (tryE f h g) Q (\<lambda>_. True)"
  by (rule triple_try [OF assms])

lemma triple_quiet_then:
  assumes "quiet f" "\<And>x. triple m P (g x) Q (\<lambda>_. True)"
  shows "triple m P (seqE f g) Q (\<lambda>_. True)"
  by (rule triple_then [OF quiet_triple [OF assms(1)] assms(2)])

lemma triple_pre: "triple m P f Q E \<Longrightarrow> (\<And>hy. rev_inv m hy \<Longrightarrow> P' hy \<Longrightarrow> P hy) \<Longrightarrow> triple m P' f Q E"
  by (rule triple_conseq)

lemma triple_drop_error:
  assumes "triple m P f (\<lambda>_. Q) Q"
  shows "triple m P (drop_error f) (\<lambda>_. Q) E"
  unfolding drop_error_def by (rule triple_try [OF assms]) auto

text \<open>Facts about revisions: what neither a pointer nor the active file can change.\<close>

definition about_revisions :: "(history \<Rightarrow> bool) \<Rightarrow> bool" where
  "about_revisions P \<longleftrightarrow> (\<forall>hy hy'. (\<forall>q. dir_of hy' q = dir_of hy q) \<longrightarrow> P hy \<longrightarrow> P hy')"

lemma about_revisionsD:
  assumes "about_revisions P" "P hy"
  shows "P (put_pointer p b hy)" "P (put_active c hy)" "P (make_dir r hy)"
  using assms unfolding about_revisions_def by (metis dir_of_changes)+

lemma about_revisionsI [intro!]:
  "about_revisions (\<lambda>_. b)"
  "about_revisions (\<lambda>hy. known_good m hy rid)" "about_revisions (\<lambda>hy. opened m hy rid)"
  "about_revisions (\<lambda>hy. may_be_active m hy rid)" "about_revisions (\<lambda>hy. verified m hy rid h)"
  "about_revisions (\<lambda>hy. read_manifest m hy rid = r)" "about_revisions (\<lambda>hy. rd_config (dir_of hy rid) = c)"
  "about_revisions P \<Longrightarrow> about_revisions Q \<Longrightarrow> about_revisions (\<lambda>hy. P hy \<and> Q hy)"
  "about_revisions P \<Longrightarrow> about_revisions Q \<Longrightarrow> about_revisions (\<lambda>hy. P hy \<or> Q hy)"
  "about_revisions P \<Longrightarrow> about_revisions Q \<Longrightarrow> about_revisions (\<lambda>hy. P hy \<longrightarrow> Q hy)"
  unfolding about_revisions_def
  by (simp_all add: known_good_def opened_def may_be_active_def verified_def read_manifest_def) metis+

lemma triple_writeActive:
  assumes "about_revisions P"
  shows "triple m P (writeActive c) (\<lambda>_. P) P"
  unfolding writeActive_def
  by (rule triple_writeAtomic [where R = P]) (auto intro: about_revisionsD [OF assms])

lemma triple_writePointer:
  assumes "about_revisions P"
    and "\<And>hy. rev_inv m hy \<Longrightarrow> P hy \<Longrightarrow> p = LastKnownGoodPtr \<Longrightarrow> known_good m hy rid"
    and "\<And>hy. rev_inv m hy \<Longrightarrow> P hy \<Longrightarrow> p = Active \<Longrightarrow> may_be_active m hy rid"
  shows "triple m P (writePointer p rid) (\<lambda>_ hy. P hy \<and> read_pointer hy p = Inr rid) P"
proof (cases "revisionIDPattern rid")
  case True
  have "triple m P (writeAtomic id (put_pointer p (rid @ [newline]))) (\<lambda>_ hy. P hy \<and> read_pointer hy p = Inr rid) P"
    by (rule triple_writeAtomic [where R = P])
      (simp_all add: rev_inv_put_pointer True assms(2,3) about_revisionsD(1) [OF assms(1)] read_pointer_put)
  then show ?thesis using True by (simp add: writePointer_def ValidateRevisionID_def)
qed (auto simp: writePointer_def ValidateRevisionID_def)

lemma triple_writeManifest:
  assumes "manager_ok m" "\<And>hy. P hy \<Longrightarrow> P (make_dir (mf_RevisionID mf) hy)"
    and "\<And>hy. rev_inv m hy \<Longrightarrow> P hy \<Longrightarrow> read_pointer hy LastKnownGoodPtr \<noteq> Inr (mf_RevisionID mf) \<or> mf_RevisionID mf = ''''"
    and "\<And>hy. rev_inv m hy \<Longrightarrow> P hy \<Longrightarrow> in_progress (mf_Status mf)
      \<or> mf_Status mf = RevisionKnownGood \<and> verified m hy (mf_RevisionID mf) (mf_ContentSHA256 mf)
      \<or> mf_Status mf = RevisionRolledBack \<and> read_pointer hy Active \<noteq> Inr (mf_RevisionID mf)"
    and "\<And>hy. rev_inv m hy \<Longrightarrow> P hy \<Longrightarrow> revisionIDPattern (mf_RevisionID mf)
      \<Longrightarrow> Q (put_manifest (mf_RevisionID mf) (mg_encode m mf) hy)"
    and "\<And>hy. P hy \<Longrightarrow> E hy" "\<And>hy. Q hy \<Longrightarrow> E hy"
  shows "triple m P (writeManifest m mf) (\<lambda>_. Q) E"
proof (cases "revisionIDPattern (mf_RevisionID mf)")
  case True
  then have "mf_RevisionID mf \<noteq> ''''" using revisionIDPattern_plain(1) by auto
  then have "triple m P (writeAtomic (make_dir (mf_RevisionID mf)) (put_manifest (mf_RevisionID mf) (mg_encode m mf)))
      (\<lambda>_. Q) E"
    using assms(3) by (intro triple_writeAtomic [where R = P])
      (simp_all add: assms(2,4-7) rev_inv_put_manifest [OF assms(1) _ True] True)
  then show ?thesis using True by (simp add: writeManifest_def ValidateRevisionID_def)
qed (auto simp: writeManifest_def ValidateRevisionID_def assms(6))

section \<open>The operations keep the invariant\<close>

lemma quiet_tryE: "quiet f \<Longrightarrow> (\<And>e. quiet (h e)) \<Longrightarrow> (\<And>x. quiet (g x)) \<Longrightarrow> quiet (tryE f h g)"
  by (auto simp: quiet_def tryE_def split: prod.split sum.split) (metis snd_conv)+

lemma quiet_reads: "quiet (readPointer p)" "quiet (readManifest m rid)" "quiet (readConfig rid)" "quiet readActive"
  unfolding readPointer_def readManifest_def readConfig_def readActive_def
  by (auto intro!: quiet_seqE quiet_basic split: option.split) (simp_all add: quiet_def liftR_def)

lemma quiet_collect: "quiet (collect_known_good m rids)"
  by (induction rids) (auto intro!: quiet_tryE quiet_seqE quiet_reads quiet_basic)

lemma quiet_KnownGoodRevisions: "quiet (KnownGoodRevisions m)"
  unfolding KnownGoodRevisions_def by (intro quiet_seqE quiet_basic quiet_steps quiet_collect)

text \<open>The manifest of a promoted revision, as found on disk.\<close>

definition promoted :: "'x manager \<Rightarrow> history \<Rightarrow> manifest \<Rightarrow> bool" where
  "promoted m hy mf \<longleftrightarrow> read_manifest m hy (mf_RevisionID mf) = Inr mf \<and> mf_Status mf = RevisionKnownGood"

lemma triple_collect:
  "triple m P (collect_known_good m rids) (\<lambda>mfs hy. P hy \<and> (\<forall>mf\<in>set mfs. promoted m hy mf)) E"
proof (induction rids arbitrary: P)
  case (Cons rid rids)
  show ?case
    unfolding collect_known_good.simps
  proof (rule triple_try [OF triple_readManifest Cons])
    fix mf
    show "triple m (\<lambda>hy. P hy \<and> revisionIDPattern rid \<and> read_manifest m hy rid = Inr mf)
      (seqE (collect_known_good m rids) (\<lambda>mfs. return (if mf_Status mf = RevisionKnownGood then mf # mfs else mfs)))
      (\<lambda>mfs hy. P hy \<and> (\<forall>mf\<in>set mfs. promoted m hy mf)) E"
      by (rule triple_seq [OF Cons], rule triple_return) (auto simp: promoted_def dest: rev_inv_pointersD(4))
  qed
qed auto

lemma triple_KnownGoodRevisions:
  "triple m P (KnownGoodRevisions m) (\<lambda>mfs hy. P hy \<and> (\<forall>mf\<in>set mfs. promoted m hy mf)) P"
proof -
  have "triple m P (seqE (collect_known_good m rids) (\<lambda>mfs. return (newest_first mfs)))
      (\<lambda>mfs hy. P hy \<and> (\<forall>mf\<in>set mfs. promoted m hy mf)) P" for rids
    by (rule triple_seq [OF triple_collect], rule triple_return) (auto simp: newest_first_def)
  then show ?thesis
    unfolding KnownGoodRevisions_def
    by (intro triple_seq [OF quiet_triple [OF quiet_steps(2)]] triple_seq [OF quiet_triple [OF quiet_basic(1)]]
        triple_seq [OF quiet_triple [OF quiet_basic(6)]])
qed

subsection \<open>Pruning\<close>

definition about_pointers :: "(history \<Rightarrow> bool) \<Rightarrow> bool" where
  "about_pointers P \<longleftrightarrow> (\<forall>hy hy'. (\<forall>p. read_pointer hy' p = read_pointer hy p) \<longrightarrow> P hy \<longrightarrow> P hy')"

definition pinned :: "string list \<Rightarrow> history \<Rightarrow> bool" where
  "pinned ks hy \<longleftrightarrow> (\<forall>p\<in>{Active, LastKnownGoodPtr}. \<forall>rid. read_pointer hy p = Inr rid \<longrightarrow> rid \<noteq> '''' \<longrightarrow> rid \<in> set ks)"

lemma about_pointersI [intro]:
  "about_pointers P \<Longrightarrow> about_pointers (\<lambda>hy. P hy \<and> pinned ks hy)"
  unfolding about_pointers_def pinned_def by metis

lemma rev_inv_drop:
  assumes "rev_inv m hy" "pinned ks hy" "rid \<notin> set ks"
  shows "rev_inv m (drop_config rid hy)" "rev_inv m (drop_manifest rid hy)" "rev_inv m (drop_dir rid hy)"
proof -
  have free: "read_pointer hy LastKnownGoodPtr = Inr rid \<Longrightarrow> rid = ''''" "read_pointer hy Active = Inr rid \<Longrightarrow> rid = ''''"
    using assms(2,3) by (auto simp: pinned_def)
  show "rev_inv m (drop_config rid hy)"
    using free rev_inv_pointersD(4) [OF assms(1)]
    by (intro rev_inv_local [OF assms(1), where rid = rid]) (auto simp: read_manifest_def)
  show "rev_inv m (drop_manifest rid hy)" "rev_inv m (drop_dir rid hy)"
    using free by (intro rev_inv_local [OF assms(1), where rid = rid]; auto simp: read_manifest_def no_files_def)+
qed

lemma triple_drop:
  assumes "about_pointers P" "\<And>hy. P hy \<Longrightarrow> pinned ks hy" "rid \<notin> set ks"
    and "f \<in> {drop_config, drop_manifest, drop_dir}"
  shows "triple m P (change (f rid)) (\<lambda>_. P) P"
proof (rule triple_conseq [OF triple_change [where P = P]])
  show "rev_inv m (f rid hy)" if "rev_inv m hy" "P hy" for hy
    using that assms(2-4) rev_inv_drop [of m hy ks rid] by auto
  show "P hy'" if "\<exists>hy. rev_inv m hy \<and> P hy \<and> hy' = f rid hy" for hy'
    using that assms(1,4) unfolding about_pointers_def by (auto, (metis pointers_changes)+)
qed

lemma triple_removeAll:
  assumes "about_pointers P" "\<And>hy. P hy \<Longrightarrow> pinned ks hy" "rid \<notin> set ks"
  shows "triple m P (os_RemoveAll m rid) (\<lambda>_. P) P"
proof -
  have "triple m P (seqE syscall (\<lambda>_. seqE (change (f rid)) (\<lambda>_. seqE syscall (\<lambda>_. seqE (change (g rid)) (\<lambda>_.
      seqE syscall (\<lambda>_. change (drop_dir rid))))))) (\<lambda>_. P) P"
    if "f \<in> {drop_config, drop_manifest}" "g \<in> {drop_config, drop_manifest}" for f g
    using that by (intro triple_seq [OF quiet_triple [OF quiet_basic(1)]] triple_seq [OF triple_drop [OF assms]]
        triple_drop [OF assms]) auto
  then show ?thesis by (cases "mg_config_first m rid") (simp_all add: os_RemoveAll_def)
qed

lemma triple_remove_unkept:
  assumes "about_pointers P" "\<And>hy. P hy \<Longrightarrow> pinned ks hy"
  shows "triple m P (remove_unkept m ks mfs) (\<lambda>_. P) P"
proof (induction mfs)
  case (Cons mf mfs)
  have "triple m P (seqE (os_RemoveAll m (mf_RevisionID mf)) (\<lambda>_. seqE (remove_unkept m ks mfs) (\<lambda>_. return True))) (\<lambda>_. P) P"
    if "mf_RevisionID mf \<notin> set ks"
  proof (rule triple_seq)
    show "triple m P (os_RemoveAll m (mf_RevisionID mf)) (\<lambda>_. P) P"
      by (rule triple_removeAll [OF assms(1) _ that]) (rule assms(2))
    show "triple m P (seqE (remove_unkept m ks mfs) (\<lambda>_. return True)) (\<lambda>_. P) P" for x :: unit
      by (rule triple_seq [OF Cons]) auto
  qed
  then show ?case using Cons by (auto simp: Let_def split: option.split)
qed auto

lemma triple_protected:
  "triple m P (protected_ids ps)
     (\<lambda>rids hy. P hy \<and> (\<forall>p\<in>set ps. \<forall>rid. read_pointer hy p = Inr rid \<longrightarrow> rid \<noteq> '''' \<longrightarrow> rid \<in> set rids)) P"
proof (induction ps arbitrary: P)
  case (Cons p ps)
  show ?case
    unfolding protected_ids.simps
  proof (rule triple_seq [OF triple_readPointer])
    fix rid
    have tail: "triple m (\<lambda>hy. P hy \<and> read_pointer hy p = Inr rid) (protected_ids ps)
        (\<lambda>rids hy. (P hy \<and> read_pointer hy p = Inr rid)
          \<and> (\<forall>p\<in>set ps. \<forall>rid. read_pointer hy p = Inr rid \<longrightarrow> rid \<noteq> '''' \<longrightarrow> rid \<in> set rids)) P"
      by (rule triple_conseq [OF Cons [where P = "\<lambda>hy. P hy \<and> read_pointer hy p = Inr rid"]]) auto
    show "triple m (\<lambda>hy. P hy \<and> read_pointer hy p = Inr rid)
        (seqE (protected_ids ps) (\<lambda>rids. return (if rid \<noteq> '''' then rid # rids else rids)))
        (\<lambda>rids hy. P hy \<and> (\<forall>q\<in>set (p # ps). \<forall>rid. read_pointer hy q = Inr rid \<longrightarrow> rid \<noteq> '''' \<longrightarrow> rid \<in> set rids)) P"
      by (rule triple_seq [OF tail]) auto
  qed
qed auto

lemma triple_prune:
  assumes "about_pointers P"
  shows "triple m P (pruneRevisionsLocked m keep) (\<lambda>_. P) P"
proof -
  have "triple m (\<lambda>hy. P hy \<and> pinned (protected @ ks) hy)
      (seqE (remove_unkept m (protected @ ks) mfs) (\<lambda>removed. if \<not> removed then return () else syscalls 2)) (\<lambda>_. P) P"
    for protected ks mfs
  proof (rule triple_seq [where R = "\<lambda>_. P"])
    show "triple m (\<lambda>hy. P hy \<and> pinned (protected @ ks) hy) (remove_unkept m (protected @ ks) mfs) (\<lambda>_. P) P"
      by (rule triple_conseq [OF triple_remove_unkept [where P = "\<lambda>hy. P hy \<and> pinned (protected @ ks) hy"]])
        (use assms in auto)
    show "triple m P (if \<not> removed then return () else syscalls 2) (\<lambda>_. P) P" for removed
      using quiet_triple [OF quiet_steps(1)] by auto
  qed
  note rest = this
  let ?pins = "\<lambda>rids hy. \<forall>p\<in>set [Active, LastKnownGoodPtr, PreviousKnownGoodPtr].
    \<forall>rid. read_pointer hy p = Inr rid \<longrightarrow> rid \<noteq> '''' \<longrightarrow> rid \<in> set rids"
  have known: "triple m (\<lambda>hy. P hy \<and> ?pins rids hy) (KnownGoodRevisions m) (\<lambda>_ hy. P hy \<and> ?pins rids hy) P" for rids
    by (rule triple_conseq [OF triple_KnownGoodRevisions [where P = "\<lambda>hy. P hy \<and> ?pins rids hy"]]) auto
  have "triple m P (seqE (protected_ids [Active, LastKnownGoodPtr, PreviousKnownGoodPtr]) (\<lambda>protected.
      seqE (KnownGoodRevisions m) (\<lambda>revisions.
      seqE (remove_unkept m (protected @ map mf_RevisionID (take (nat keep) revisions)) revisions)
        (\<lambda>removed. if \<not> removed then return () else syscalls 2)))) (\<lambda>_. P) P"
    by (rule triple_seq [OF triple_protected], rule triple_seq [OF known], rule triple_pre [OF rest])
      (auto simp: pinned_def)
  then show ?thesis by (auto simp: pruneRevisionsLocked_def Let_def simp del: protected_ids.simps)
qed

subsection \<open>Promotion and rollback\<close>

lemma opened_put_manifest:
  assumes "manager_ok m" "revisionIDPattern (mf_RevisionID mf)" "in_progress (mf_Status mf)"
  shows "opened m (put_manifest (mf_RevisionID mf) (mg_encode m mf) hy) (mf_RevisionID mf)"
  using manifest_reads_back [OF assms(1,2)] assms(3) unfolding opened_def read_manifest_put by fastforce

lemma verified_put_manifest [simp]: "verified m (put_manifest r b hy) rid h = verified m hy rid h"
  by (simp add: verified_def)

lemma with_status_simps [simp]:
  "mf_RevisionID (with_status st reason mf) = mf_RevisionID mf"
  "mf_Status (with_status st reason mf) = st"
  "mf_ContentSHA256 (with_status st reason mf) = mf_ContentSHA256 mf"
  by (simp_all add: with_status_def)

text \<open>Rewriting the manifest of a revision in progress, with a status in progress.\<close>

lemma triple_write_open:
  assumes "manager_ok m" "in_progress st"
  shows "triple m (\<lambda>hy. opened m hy (mf_RevisionID mf) \<and> (v \<longrightarrow> verified m hy (mf_RevisionID mf) h))
      (writeManifest m (with_status st reason mf))
      (\<lambda>_ hy. opened m hy (mf_RevisionID mf) \<and> (v \<longrightarrow> verified m hy (mf_RevisionID mf) h))
      (\<lambda>hy. opened m hy (mf_RevisionID mf) \<and> (v \<longrightarrow> verified m hy (mf_RevisionID mf) h))"
  using opened_put_manifest [OF assms(1), of "with_status st reason mf"] assms(2)
  by (intro triple_writeManifest [OF assms(1)]) (auto dest: opened_not_last)

lemma triple_rollbackLocked:
  assumes "manager_ok m"
  shows "triple m (\<lambda>hy. opened m hy (mf_RevisionID mf)) (rollbackLocked m mf cause r) Q (\<lambda>_. True)"
proof -
  let ?rid = "mf_RevisionID mf"
  have failed: "triple m (\<lambda>hy. opened m hy ?rid) (drop_error (writeManifest m (with_status RevisionFailed reason mf)))
      (\<lambda>_ hy. opened m hy ?rid) (\<lambda>_. True)" for reason
    using triple_write_open [OF assms, of RevisionFailed mf False "''''" reason]
    by (intro triple_drop_error) (simp add: in_progress_def)
  have closed: "triple m (\<lambda>hy. opened m hy ?rid \<and> known_good m hy lkg \<and> read_pointer hy Active = Inr lkg)
      (drop_error (writeManifest m (with_status RevisionRolledBack reason mf))) (\<lambda>_ _. True) (\<lambda>_. True)" for reason lkg
    using known_good_not_opened
    by (intro triple_drop_error triple_writeManifest [OF assms]) (auto dest: opened_not_last)
  have restore: "triple m (\<lambda>hy. opened m hy ?rid \<and> known_good m hy lkg)
      (seqE (readConfig lkg) (\<lambda>content. seqE (writeActive content) (\<lambda>_. seqE (writePointer Active lkg) (\<lambda>_.
        tryE (try_runtime r) (\<lambda>e. throw (RollbackUnapplied e)) (\<lambda>_.
        seqE (drop_error (writeManifest m (with_status RevisionRolledBack reason mf))) (\<lambda>_.
        throw (RolledBack ?rid lkg cause))))))) Q (\<lambda>_. True)" for reason lkg
    by (rule triple_quiet_then [OF quiet_reads(3)], rule triple_then [OF triple_writeActive], intro about_revisionsI,
        rule triple_then [OF triple_writePointer [where P = "\<lambda>hy. opened m hy ?rid \<and> known_good m hy lkg"]])
      (auto intro!: triple_or_else [OF quiet_triple [OF quiet_steps(6)]] triple_seq [OF closed] simp: may_be_active_def)
  show ?thesis
    unfolding rollbackLocked_def Let_def
  proof (rule triple_seq [OF failed], rule triple_seq [OF triple_or_empty])
    show "triple m (\<lambda>hy. opened m hy ?rid \<and> (lkg = '''' \<or> read_pointer hy LastKnownGoodPtr = Inr lkg))
      (if lkg = '''' then throw (CandidateLost ?rid cause)
       else seqE (readConfig lkg) (\<lambda>content. seqE (writeActive content) (\<lambda>_. seqE (writePointer Active lkg) (\<lambda>_.
        tryE (try_runtime r) (\<lambda>e. throw (RollbackUnapplied e)) (\<lambda>_.
        seqE (drop_error (writeManifest m (with_status RevisionRolledBack (mg_error_text m cause) mf))) (\<lambda>_.
        throw (RolledBack ?rid lkg cause))))))) Q (\<lambda>_. True)" for lkg
      by (auto intro!: triple_pre [OF restore] dest: rev_inv_pointersD(2))
  qed
qed

lemma triple_failLocked:
  assumes "manager_ok m"
  shows "triple m (\<lambda>hy. opened m hy (mf_RevisionID mf)) (failLocked m mf cause) Q (\<lambda>_. True)"
  unfolding failLocked_def
  using triple_write_open [OF assms, of RevisionFailed mf False "''''"]
  by (intro triple_seq [OF triple_drop_error [where Q = "\<lambda>hy. opened m hy (mf_RevisionID mf)"]])
    (auto simp: in_progress_def)

lemma known_good_put_manifest:
  assumes "manager_ok m" "revisionIDPattern (mf_RevisionID mf)" "mf_Status mf = RevisionKnownGood"
    and "verified m hy (mf_RevisionID mf) h"
  shows "known_good m (put_manifest (mf_RevisionID mf) (mg_encode m mf) hy) (mf_RevisionID mf)"
  using manifest_reads_back [OF assms(1,2)] assms(3,4)
  unfolding known_good_def read_manifest_put verified_def by fastforce

definition settled :: "string \<Rightarrow> history \<Rightarrow> bool" where
  "settled rid hy \<longleftrightarrow> read_pointer hy LastKnownGoodPtr = Inr rid \<and> read_pointer hy Active = Inr rid"

lemma about_pointers_settled [intro]: "about_pointers (settled rid)"
  by (auto simp: about_pointers_def settled_def)

lemma triple_write_known_good:
  assumes "manager_ok m" "mf_Status mf = RevisionKnownGood"
  shows "triple m (\<lambda>hy. opened m hy (mf_RevisionID mf) \<and> verified m hy (mf_RevisionID mf) (mf_ContentSHA256 mf))
      (writeManifest m mf) (\<lambda>_ hy. known_good m hy (mf_RevisionID mf)) (\<lambda>_. True)"
  using known_good_put_manifest [OF assms(1)] assms
  by (intro triple_writeManifest [OF assms(1)]) (auto dest: opened_not_last)

lemma triple_promoteLocked:
  assumes "manager_ok m"
  shows "triple m (\<lambda>hy. opened m hy (mf_RevisionID mf) \<and> verified m hy (mf_RevisionID mf) (mf_ContentSHA256 mf))
      (promoteLocked m mf) (\<lambda>r hy. r = with_status RevisionKnownGood '''' mf \<and> settled (mf_RevisionID mf) hy) (\<lambda>_. True)"
proof -
  let ?rid = "mf_RevisionID mf" and ?mf = "with_status RevisionKnownGood '''' mf"
  have previous: "triple m (\<lambda>hy. known_good m hy ?rid)
      (if old \<noteq> '''' \<and> old \<noteq> ?rid then writePointer PreviousKnownGoodPtr old else return ())
      (\<lambda>_ hy. known_good m hy ?rid) (\<lambda>_. True)" for old
    by (auto intro!: triple_conseq [OF triple_writePointer [where P = "\<lambda>hy. known_good m hy ?rid"]])
  have last: "triple m (\<lambda>hy. known_good m hy ?rid) (writePointer LastKnownGoodPtr ?rid)
      (\<lambda>_ hy. known_good m hy ?rid \<and> read_pointer hy LastKnownGoodPtr = Inr ?rid) (\<lambda>_. True)"
    by (rule triple_conseq [OF triple_writePointer [where P = "\<lambda>hy. known_good m hy ?rid"]]) auto
  have active: "triple m (\<lambda>hy. known_good m hy ?rid \<and> read_pointer hy LastKnownGoodPtr = Inr ?rid)
      (writePointer Active ?rid) (\<lambda>_. settled ?rid) (\<lambda>_. True)"
  proof (cases "revisionIDPattern ?rid")
    case True
    then have "triple m (\<lambda>hy. known_good m hy ?rid \<and> read_pointer hy LastKnownGoodPtr = Inr ?rid)
        (writeAtomic id (put_pointer Active (?rid @ [newline]))) (\<lambda>_. settled ?rid) (\<lambda>_. True)"
      by (intro triple_writeAtomic [where R = "\<lambda>hy. known_good m hy ?rid \<and> read_pointer hy LastKnownGoodPtr = Inr ?rid"])
        (auto simp: settled_def read_pointer_put may_be_active_def intro!: rev_inv_put_pointer)
    then show ?thesis using True by (simp add: writePointer_def ValidateRevisionID_def)
  qed (auto simp: writePointer_def ValidateRevisionID_def)
  have prune: "triple m (settled ?rid) (drop_error (pruneRevisionsLocked m (mg_RevisionKeep m))) (\<lambda>_. settled ?rid) (\<lambda>_. True)"
    by (rule triple_drop_error [OF triple_prune]) auto
  have "triple m (\<lambda>hy. opened m hy ?rid \<and> verified m hy ?rid (mf_ContentSHA256 mf)) (writeManifest m ?mf)
      (\<lambda>_ hy. known_good m hy ?rid) (\<lambda>_. True)"
    using triple_write_known_good [OF assms, of ?mf] by simp
  then show ?thesis
    unfolding promoteLocked_def Let_def with_status_simps
    by (rule triple_seq, intro triple_seq [OF triple_or_empty_keep] triple_seq [OF previous] triple_seq [OF last]
        triple_seq [OF active] triple_seq [OF prune] triple_return) auto
qed

subsection \<open>New revisions and activation\<close>

definition fresh_id :: "history \<Rightarrow> string \<Rightarrow> bool" where
  "fresh_id hy rid \<longleftrightarrow> rd_manifest (dir_of hy rid) = None"

lemma fresh_unread: "fresh_id hy rid \<Longrightarrow> read_manifest m hy rid = Inl FileMissing"
  by (simp add: fresh_id_def read_manifest_def)

lemma fresh_not_pointed:
  assumes "rev_inv m hy" "fresh_id hy rid"
  shows "read_pointer hy LastKnownGoodPtr = Inr rid \<Longrightarrow> rid = ''''" "read_pointer hy Active = Inr rid \<Longrightarrow> rid = ''''"
  using rev_inv_pointersD(2,3) [OF assms(1), of rid] fresh_unread [OF assms(2), of m]
  by (auto simp: known_good_def may_be_active_def opened_def)

lemma fresh_id_frame [simp]:
  "fresh_id (make_dir r hy) rid = fresh_id hy rid" "fresh_id (put_revision_config r c hy) rid = fresh_id hy rid"
  by (auto simp: fresh_id_def)

lemma rev_inv_put_revision_config:
  assumes "rev_inv m hy" "fresh_id hy rid"
  shows "rev_inv m (put_revision_config rid c hy)"
  using fresh_not_pointed [OF assms] assms(2)
  by (intro rev_inv_local [OF assms(1), where rid = rid]) (auto simp: fresh_unread)

lemma triple_first_free:
  "triple m P (first_free_id base ns) (\<lambda>rid hy. P hy \<and> fresh_id hy rid) P"
proof (induction ns)
  case (Cons n ns)
  let ?rid = "if n > 0 then base @ ''-'' @ utoa n else base"
  have get: "triple m P (getS (\<lambda>w. fmlookup (hy_revisions (rw_files w)) ?rid))
      (\<lambda>d hy. P hy \<and> d = fmlookup (hy_revisions hy) ?rid) P"
    by (simp add: triple_def)
  show ?case
    unfolding first_free_id.simps Let_def
  proof (rule triple_seq [OF quiet_triple [OF quiet_basic(1)]], rule triple_seq [OF get])
    fix d
    show "triple m (\<lambda>hy. P hy \<and> d = fmlookup (hy_revisions hy) ?rid)
        (case d of None \<Rightarrow> return ?rid | Some x \<Rightarrow> first_free_id base ns) (\<lambda>rid hy. P hy \<and> fresh_id hy rid) P"
    proof (cases d)
      case None
      then show ?thesis
        unfolding None option.case by (intro triple_return) (auto simp: fresh_id_def dir_of_def no_files_def)
    next
      case (Some x)
      then show ?thesis using triple_pre [OF Cons] by (auto intro: triple_pre [OF Cons])
    qed
  qed
qed auto

lemma triple_uniqueRevisionID:
  "triple m (\<lambda>_. True) (uniqueRevisionID m h) (\<lambda>rid hy. fresh_id hy rid) (\<lambda>_. True)"
  unfolding uniqueRevisionID_def
  by (intro triple_if triple_throw triple_quiet_then [OF quiet_basic(2)]
      triple_conseq [OF triple_first_free [where P = "\<lambda>_. True"]]) auto

lemma new_manifest_simps [simp]:
  "mf_RevisionID (new_manifest rid now source parent h) = rid"
  "mf_Status (new_manifest rid now source parent h) = RevisionCandidate"
  "mf_ContentSHA256 (new_manifest rid now source parent h) = h"
  by (simp_all add: new_manifest_def)

lemma triple_write_new:
  assumes "manager_ok m"
  shows "triple m (\<lambda>hy. fresh_id hy rid \<and> verified m hy rid h) (writeManifest m (new_manifest rid now source parent h))
      (\<lambda>_ hy. opened m hy rid \<and> verified m hy rid h) (\<lambda>_. True)"
  using opened_put_manifest [OF assms, of "new_manifest rid now source parent h"]
  by (intro triple_writeManifest [OF assms]) (auto dest: fresh_not_pointed simp: in_progress_def)

lemma triple_beginLocked:
  assumes "manager_ok m"
  shows "triple m (\<lambda>_. True) (beginLocked m source content)
      (\<lambda>mf hy. opened m hy (mf_RevisionID mf) \<and> verified m hy (mf_RevisionID mf) (mf_ContentSHA256 mf)) (\<lambda>_. True)"
proof (cases "parse_content m content")
  case (Inr cfg)
  let ?h = "mg_sha256_hex m content"
  have mkdir: "triple m (\<lambda>hy. fresh_id hy rid) (change (make_dir rid)) (\<lambda>_ hy. fresh_id hy rid) (\<lambda>_. True)" for rid
    by (rule triple_conseq [OF triple_change [where P = "\<lambda>hy. fresh_id hy rid"]]) auto
  have config: "triple m (\<lambda>hy. fresh_id hy rid) (writeAtomic (make_dir rid) (put_revision_config rid content))
      (\<lambda>_ hy. fresh_id hy rid \<and> verified m hy rid ?h) (\<lambda>_. True)" for rid
    using Inr by (intro triple_writeAtomic [where R = "\<lambda>hy. fresh_id hy rid"])
      (auto simp: rev_inv_put_revision_config verified_def parses_def)

  show ?thesis
    unfolding beginLocked_def Inr Let_def sum.case
    by (rule triple_seq [OF triple_uniqueRevisionID], rule triple_seq [OF triple_or_empty_keep],
        rule triple_quiet_then [OF quiet_basic(1)], rule triple_seq [OF mkdir], rule triple_seq [OF config],
        rule triple_quiet_then [OF quiet_basic(2)], rule triple_seq [OF triple_write_new [OF assms]]) auto
qed (auto simp: beginLocked_def)

lemma contentMatches_verified:
  "contentMatches m mf c \<Longrightarrow> rd_config (dir_of hy rid) = Some c \<Longrightarrow> parse_content m c = Inr cfg
    \<Longrightarrow> verified m hy rid (mf_ContentSHA256 mf)"
  by (auto simp: verified_def contentMatches_def parses_def)

abbreviation in_trial :: "'x manager \<Rightarrow> manifest \<Rightarrow> history \<Rightarrow> bool" where
  "in_trial m mf hy \<equiv> opened m hy (mf_RevisionID mf) \<and> verified m hy (mf_RevisionID mf) (mf_ContentSHA256 mf)"

lemma triple_first_trial:
  assumes "manager_ok m"
  shows "triple m (in_trial m mf) (first_trial m mf r) (\<lambda>(mf, rt). in_trial m mf) (\<lambda>_. True)"
  by (cases r)
    (auto simp: first_trial_def intro!: triple_pre [OF triple_rollbackLocked [OF assms]]
      triple_or_else [OF quiet_triple [OF quiet_steps(4)]] triple_or_else [OF quiet_triple [OF quiet_steps(5)]])

lemma triple_validating:
  assumes "manager_ok m"
  shows "triple m (in_trial m mf) (writeManifest m (with_status RevisionValidating '''' mf))
      (\<lambda>_. in_trial m (with_status RevisionValidating '''' mf)) (\<lambda>_. True)"
  by (rule triple_conseq [OF triple_write_open [OF assms, of RevisionValidating mf True "mf_ContentSHA256 mf"]])
    (auto simp: in_progress_def)

lemma triple_switch_active:
  assumes "manager_ok m"
  shows "triple m (in_trial m mf) (switch_active m (mf_RevisionID mf) mf content r) (\<lambda>(mf, rt). in_trial m mf) (\<lambda>_. True)"
  unfolding switch_active_def Let_def
proof (rule triple_or_else [OF triple_writeActive], intro about_revisionsI)
  show "triple m (in_trial m mf) (failLocked m mf e) (\<lambda>(mf, rt). in_trial m mf) (\<lambda>_. True)" for e
    by (rule triple_pre [OF triple_failLocked [OF assms]]) auto
next
  let ?mf = "with_status RevisionValidating '''' mf"
  show "triple m (in_trial m mf)
      (tryE (writePointer Active (mf_RevisionID mf)) (\<lambda>e. rollbackLocked m mf e r) (\<lambda>_.
       seqE (writeManifest m ?mf) (\<lambda>_. first_trial m ?mf r))) (\<lambda>(mf, rt). in_trial m mf) (\<lambda>_. True)"
  proof (rule triple_or_else [OF triple_writePointer [where P = "in_trial m mf"]])
    show "triple m (in_trial m mf) (rollbackLocked m mf e r) (\<lambda>(mf, rt). in_trial m mf) (\<lambda>_. True)" for e
      by (rule triple_pre [OF triple_rollbackLocked [OF assms]]) auto
    show "triple m (\<lambda>hy. in_trial m mf hy \<and> read_pointer hy Active = Inr (mf_RevisionID mf))
      (seqE (writeManifest m ?mf) (\<lambda>_. first_trial m ?mf r)) (\<lambda>(mf, rt). in_trial m mf) (\<lambda>_. True)"
      by (rule triple_pre [OF triple_seq [OF triple_validating [OF assms] triple_first_trial [OF assms]]]) auto
  qed (auto simp: may_be_active_def intro!: about_revisionsI)
qed

lemma triple_activate_candidate:
  assumes "manager_ok m"
  shows "triple m (\<lambda>_. True) (activate_candidate m rid r) (\<lambda>(mf, rt). in_trial m mf) (\<lambda>_. True)"
proof -
  let ?P = "\<lambda>mf content hy. opened m hy rid \<and> mf_RevisionID mf = rid \<and> rd_config (dir_of hy rid) = Some content"
  have fail: "triple m (?P mf content) (failLocked m mf e) (\<lambda>(mf, rt). in_trial m mf) (\<lambda>_. True)" for mf content e
    by (rule triple_pre [OF triple_failLocked [OF assms]]) auto
  have switch: "triple m (?P mf content) (switch_active m rid mf content r) (\<lambda>(mf, rt). in_trial m mf) (\<lambda>_. True)"
    if "contentMatches m mf content" "parse_content m content = Inr cfg" for mf content cfg
  proof (cases "mf_RevisionID mf = rid")
    case True
    then show ?thesis
      using triple_pre [OF triple_switch_active [OF assms, of mf content r], of "?P mf content"]
        contentMatches_verified [OF that(1) _ that(2)] by auto
  qed (simp add: triple_def)
  show ?thesis
    unfolding activate_candidate_def
  proof (rule triple_quiet_then [OF quiet_steps(3)], rule triple_then [OF triple_readManifest], rule triple_if)
    fix mf :: manifest
    assume st: "\<not> (mf_Status mf \<noteq> RevisionCandidate \<and> mf_Status mf \<noteq> RevisionValidating)"
    show "triple m (\<lambda>hy. True \<and> revisionIDPattern rid \<and> read_manifest m hy rid = Inr mf)
        (seqE (readConfig rid) (\<lambda>content.
           if \<not> contentMatches m mf content then failLocked m mf ContentMismatch
           else (case parse_content m content of
                   Inl e \<Rightarrow> failLocked m mf (ConfigRejected e) | Inr _ \<Rightarrow> switch_active m rid mf content r)))
        (\<lambda>(mf, rt). in_trial m mf) (\<lambda>_. True)"
    proof (rule triple_then [OF triple_readConfig], rule triple_pre [of _ "?P mf content" for content])
      show "triple m (?P mf content) (if \<not> contentMatches m mf content then failLocked m mf ContentMismatch
           else (case parse_content m content of
                   Inl e \<Rightarrow> failLocked m mf (ConfigRejected e) | Inr _ \<Rightarrow> switch_active m rid mf content r))
         (\<lambda>(mf, rt). in_trial m mf) (\<lambda>_. True)" for content
        using fail switch by (cases "parse_content m content") auto
    qed (use st rev_inv_pointersD(4) in \<open>auto simp: opened_def in_progress_def\<close>)
  qed auto
qed

subsection \<open>Restoring and recovering\<close>

lemma triple_restoreKnownGood:
  "triple m (\<lambda>hy. lkg = '''' \<or> known_good m hy lkg) (restoreKnownGoodLocked lkg r) (\<lambda>_ _. True) (\<lambda>_. True)"
proof (cases "lkg = ''''")
  case False
  have "triple m (\<lambda>hy. known_good m hy lkg) (seqE (readConfig lkg) (\<lambda>content. seqE (writeActive content) (\<lambda>_.
      seqE (writePointer Active lkg) (\<lambda>_. try_runtime r)))) (\<lambda>_ _. True) (\<lambda>_. True)"
    by (rule triple_quiet_then [OF quiet_reads(3)], rule triple_then [OF triple_writeActive], intro about_revisionsI,
        rule triple_then [OF triple_writePointer [where P = "\<lambda>hy. known_good m hy lkg"]])
      (auto intro!: triple_conseq [OF quiet_triple [OF quiet_steps(6)]] simp: may_be_active_def)
  then show ?thesis using False by (simp add: restoreKnownGoodLocked_def)
qed (auto simp: restoreKnownGoodLocked_def)

lemma triple_settle_interrupted:
  "triple m (\<lambda>hy. (active = '''' \<or> may_be_active m hy active) \<and> (lkg = '''' \<or> known_good m hy lkg))
     (settle_interrupted m active lkg r) (\<lambda>_ _. True) (\<lambda>_. True)" (is "triple m ?P _ _ _")
proof -
  have restore: "triple m Q (restoreKnownGoodLocked lkg r) (\<lambda>_ _. True) (\<lambda>_. True)"
    if "\<And>hy. Q hy \<Longrightarrow> ?P hy" for Q
    by (rule triple_pre [OF triple_restoreKnownGood]) (use that in auto)
  have last: "triple m (\<lambda>hy. known_good m hy active)
      (seqE (if lkg \<noteq> '''' \<and> lkg \<noteq> active then writePointer PreviousKnownGoodPtr lkg else return ())
        (\<lambda>_. writePointer LastKnownGoodPtr active)) (\<lambda>_ _. True) (\<lambda>_. True)"
  proof (rule triple_seq [where R = "\<lambda>_ hy. known_good m hy active"])
    show "triple m (\<lambda>hy. known_good m hy active)
        (if lkg \<noteq> '''' \<and> lkg \<noteq> active then writePointer PreviousKnownGoodPtr lkg else return ())
        (\<lambda>_ hy. known_good m hy active) (\<lambda>_. True)"
      by (auto intro!: triple_conseq [OF triple_writePointer [where P = "\<lambda>hy. known_good m hy active"]])
    show "triple m (\<lambda>hy. known_good m hy active) (writePointer LastKnownGoodPtr active) (\<lambda>_ _. True) (\<lambda>_. True)" for x :: unit
      by (rule triple_conseq [OF triple_writePointer [where P = "\<lambda>hy. known_good m hy active"]]) auto
  qed
  have "triple m ?P (tryE (readManifest m active) (\<lambda>_. restoreKnownGoodLocked lkg r) (\<lambda>mf.
        if active = lkg then
          (if mf_Status mf \<noteq> RevisionKnownGood then throw (NotKnownGood active (mf_Status mf)) else return ())
        else if mf_Status mf = RevisionKnownGood then
          seqE (if lkg \<noteq> '''' \<and> lkg \<noteq> active then writePointer PreviousKnownGoodPtr lkg else return ()) (\<lambda>_.
          writePointer LastKnownGoodPtr active)
        else if mf_Status mf \<in> {RevisionCandidate, RevisionValidating, RevisionFailed}
        then restoreKnownGoodLocked lkg r
        else return ())) (\<lambda>_ _. True) (\<lambda>_. True)" if "active \<noteq> ''''"
  proof (rule triple_or_else [OF triple_readManifest restore], assumption, intro triple_if)
    fix mf :: manifest
    assume "mf_Status mf = RevisionKnownGood"
    then show "triple m (\<lambda>hy. ?P hy \<and> revisionIDPattern active \<and> read_manifest m hy active = Inr mf)
        (seqE (if lkg \<noteq> '''' \<and> lkg \<noteq> active then writePointer PreviousKnownGoodPtr lkg else return ())
          (\<lambda>_. writePointer LastKnownGoodPtr active)) (\<lambda>_ _. True) (\<lambda>_. True)"
      by (intro triple_pre [OF last]) (use that in \<open>auto simp: may_be_active_def opened_def in_progress_def\<close>)
  qed (auto intro!: restore)
  then show ?thesis by (auto simp: settle_interrupted_def)
qed

text \<open>The pointers read before an interrupted transaction is settled are those the invariant speaks of.\<close>

lemma settle_read_pointers:
  assumes "rev_inv m hy" "active = '''' \<or> read_pointer hy Active = Inr active"
    and "lkg = '''' \<or> read_pointer hy LastKnownGoodPtr = Inr lkg"
  shows "(active = '''' \<or> may_be_active m hy active) \<and> (lkg = '''' \<or> known_good m hy lkg)"
  using assms rev_inv_pointersD(2,3) by blast

lemma triple_RecoverInterrupted: "triple m (\<lambda>_. True) (RecoverInterrupted m r) (\<lambda>_ _. True) (\<lambda>_. True)"
  unfolding RecoverInterrupted_def
  by (rule triple_quiet_then [OF quiet_steps(3)], rule triple_seq [OF triple_or_empty], rule triple_seq [OF triple_or_empty],
      rule triple_pre [OF triple_settle_interrupted]) (use settle_read_pointers in blast)

lemma triple_if_verified:
  "triple m P (if_verified m mf rid) (\<lambda>r hy. P hy \<and> (r = '''' \<or> r = rid \<and> rd_config (dir_of hy rid) \<noteq> None)) E"
  unfolding if_verified_def by (rule triple_try [OF triple_readConfig]) auto

lemma promoted_known_good:
  "promoted m hy mf \<Longrightarrow> rd_config (dir_of hy (mf_RevisionID mf)) = Some c \<Longrightarrow> known_good m hy (mf_RevisionID mf)"
  by (auto simp: known_good_def promoted_def)

lemma triple_first_verified:
  "triple m (\<lambda>hy. \<forall>mf\<in>set mfs. promoted m hy mf) (first_verified m mfs)
     (\<lambda>r hy. r = '''' \<or> known_good m hy r) E"
proof (induction mfs)
  case (Cons mf mfs)
  show ?case
    unfolding first_verified.simps
    by (rule triple_seq [OF triple_if_verified])
      (auto intro!: triple_pre [OF Cons] triple_return promoted_known_good)
qed auto

lemma triple_knownGoodForRepair:
  "triple m (\<lambda>_. True) (knownGoodForRepair m) (\<lambda>r hy. r = '''' \<or> known_good m hy r) E"
proof -
  have pointed: "triple m (\<lambda>_. True) (pointed_known_good m) (\<lambda>r hy. r = '''' \<or> known_good m hy r) E"
    unfolding pointed_known_good_def
  proof (rule triple_seq [OF triple_or_empty_keep], intro triple_if triple_return triple_try [OF triple_readManifest])
    fix lkg :: string and mf :: manifest
    assume "mf_Status mf = RevisionKnownGood"
    then show "triple m (\<lambda>hy. True \<and> revisionIDPattern lkg \<and> read_manifest m hy lkg = Inr mf) (if_verified m mf lkg)
        (\<lambda>r hy. r = '''' \<or> known_good m hy r) E"
      by (intro triple_conseq [OF triple_if_verified [where P = "\<lambda>hy. read_manifest m hy lkg = Inr mf"]])
        (auto simp: known_good_def)
  qed auto
  have listed: "triple m (\<lambda>_. True) (tryE (KnownGoodRevisions m) (\<lambda>_. return '''') (first_verified m))
      (\<lambda>r hy. r = '''' \<or> known_good m hy r) E"
    by (rule triple_try [OF triple_KnownGoodRevisions]) (auto intro!: triple_pre [OF triple_first_verified])
  show ?thesis
    unfolding knownGoodForRepair_def
    by (rule triple_seq [OF pointed], intro triple_if triple_return triple_pre [OF listed]) auto
qed

lemma quiet_first_verified: "quiet (first_verified m mfs)"
  by (induction mfs) (auto simp: if_verified_def intro!: quiet_seqE quiet_tryE quiet_reads quiet_basic)

lemma quiet_knownGoodForRepair: "quiet (knownGoodForRepair m)"
  unfolding knownGoodForRepair_def pointed_known_good_def if_verified_def or_empty_def
  by (auto intro!: quiet_seqE quiet_tryE quiet_reads quiet_basic quiet_KnownGoodRevisions quiet_first_verified)

text \<open>A step that leaves the files alone keeps any fact about them.\<close>

lemma triple_quiet_frame:
  assumes "quiet f" "triple m (\<lambda>_. True) f Q E"
  shows "triple m P f (\<lambda>r hy. P hy \<and> Q r hy) (\<lambda>hy. P hy \<and> E hy)"
  unfolding triple_def
proof (intro allI impI)
  fix w assume w: "safe m w" "P (rw_files w)"
  obtain r w' where f: "f w = (r, w')" by (cases "f w")
  then have "rw_files w' = rw_files w" using assms(1) unfolding quiet_def by (metis snd_conv)
  then show "wp f (\<lambda>r w'. safe m w' \<and> P (rw_files w') \<and> Q r (rw_files w')) (\<lambda>_ w'. safe m w' \<and> P (rw_files w') \<and> E (rw_files w')) w"
    using tripleD [OF assms(2) w(1)] w(2) f by (cases r) (auto simp: wp_def)
qed

lemma triple_write_last:
  "triple m (\<lambda>hy. known_good m hy lkg) (writePointer LastKnownGoodPtr lkg) (\<lambda>_ hy. known_good m hy lkg) (\<lambda>_. True)"
  by (rule triple_conseq [OF triple_writePointer [where P = "\<lambda>hy. known_good m hy lkg"]]) auto

lemma triple_repairKnownGood: "triple m (\<lambda>_. True) (repairKnownGoodLocked m r cause) (\<lambda>_ _. True) (\<lambda>_. True)"
proof -
  have restore: "triple m (\<lambda>hy. known_good m hy lkg) (restoreKnownGoodLocked lkg r) (\<lambda>_ hy. known_good m hy lkg) (\<lambda>_. True)"
    if "lkg \<noteq> ''''" for lkg
  proof -
    have "triple m (\<lambda>hy. known_good m hy lkg) (seqE (readConfig lkg) (\<lambda>content. seqE (writeActive content) (\<lambda>_.
        seqE (writePointer Active lkg) (\<lambda>_. try_runtime r)))) (\<lambda>_ hy. known_good m hy lkg) (\<lambda>_. True)"
      by (rule triple_quiet_then [OF quiet_reads(3)], rule triple_then [OF triple_writeActive], intro about_revisionsI,
          rule triple_then [OF triple_writePointer [where P = "\<lambda>hy. known_good m hy lkg"]])
        (auto intro!: triple_conseq [OF quiet_triple [OF quiet_steps(6), where P = "\<lambda>hy. known_good m hy lkg"]]
          simp: may_be_active_def)
    then show ?thesis using that by (simp add: restoreKnownGoodLocked_def)
  qed
  show ?thesis
    unfolding repairKnownGoodLocked_def
  proof (rule triple_seq [OF triple_knownGoodForRepair], rule triple_if)
    fix lkg :: string
    assume lkg: "lkg \<noteq> ''''"
    show "triple m (\<lambda>hy. lkg = '''' \<or> known_good m hy lkg) (tryE (restoreKnownGoodLocked lkg r) (\<lambda>e. throw (Unrepaired cause e))
        (\<lambda>_. tryE (writePointer LastKnownGoodPtr lkg) (\<lambda>e. throw (Unrepaired cause e)) return)) (\<lambda>_ _. True) (\<lambda>_. True)"
      by (rule triple_pre [OF triple_try [OF restore [OF lkg]]])
        (use lkg in \<open>auto intro!: triple_try [OF triple_write_last]\<close>)
  qed auto
qed

lemma triple_recoverInterruptedLocked: "triple m (\<lambda>_. True) (recoverInterruptedLocked m r) (\<lambda>_ _. True) (\<lambda>_. True)"
  unfolding recoverInterruptedLocked_def
proof (rule triple_or_else [OF triple_readPointer triple_repairKnownGood])
  fix active
  let ?A = "\<lambda>hy. active = '''' \<or> may_be_active m hy active"
  have point: "triple m (\<lambda>hy. ?A hy \<and> known_good m hy lkg)
      (tryE (writePointer LastKnownGoodPtr lkg) (\<lambda>e'. throw (Unrepaired e e')) (\<lambda>_. return lkg))
      (\<lambda>lkg hy. ?A hy \<and> (lkg = '''' \<or> known_good m hy lkg)) (\<lambda>_. True)" for e lkg
    by (rule triple_or_else [OF triple_writePointer [where P = "\<lambda>hy. ?A hy \<and> known_good m hy lkg"]])
      (auto intro!: about_revisionsI)
  have repair: "triple m ?A (seqE (knownGoodForRepair m) (\<lambda>lkg.
        if lkg = '''' then throw (Unrepaired e NoKnownGood)
        else tryE (writePointer LastKnownGoodPtr lkg) (\<lambda>e'. throw (Unrepaired e e')) (\<lambda>_. return lkg)))
      (\<lambda>lkg hy. ?A hy \<and> (lkg = '''' \<or> known_good m hy lkg)) (\<lambda>_. True)" for e
  proof (rule triple_seq [where R = "\<lambda>lkg hy. ?A hy \<and> (lkg = '''' \<or> known_good m hy lkg)"])
    show "triple m ?A (knownGoodForRepair m) (\<lambda>lkg hy. ?A hy \<and> (lkg = '''' \<or> known_good m hy lkg)) (\<lambda>_. True)"
      by (rule triple_conseq [OF triple_quiet_frame [OF quiet_knownGoodForRepair triple_knownGoodForRepair, where P = ?A]]) auto
  qed (auto intro!: triple_pre [OF point])
  have "triple m ?A (tryE (readPointer LastKnownGoodPtr)
             (\<lambda>e. seqE (knownGoodForRepair m) (\<lambda>lkg.
                  if lkg = '''' then throw (Unrepaired e NoKnownGood)
                  else tryE (writePointer LastKnownGoodPtr lkg) (\<lambda>e'. throw (Unrepaired e e')) (\<lambda>_. return lkg)))
             return) (\<lambda>lkg hy. ?A hy \<and> (lkg = '''' \<or> known_good m hy lkg)) (\<lambda>_. True)"
    by (rule triple_or_else [OF triple_readPointer repair]) (auto dest: rev_inv_pointersD(2))
  then show "triple m (\<lambda>hy. True \<and> read_pointer hy Active = Inr active)
      (seqE (tryE (readPointer LastKnownGoodPtr)
             (\<lambda>e. seqE (knownGoodForRepair m) (\<lambda>lkg.
                  if lkg = '''' then throw (Unrepaired e NoKnownGood)
                  else tryE (writePointer LastKnownGoodPtr lkg) (\<lambda>e'. throw (Unrepaired e e')) (\<lambda>_. return lkg)))
             return) (\<lambda>lkg. settle_interrupted m active lkg r)) (\<lambda>_ _. True) (\<lambda>_. True)"
    by (rule triple_pre [OF triple_seq [OF _ triple_settle_interrupted]]) (auto dest: rev_inv_pointersD(3))
qed

lemma triple_RecoverForStartup: "triple m (\<lambda>_. True) (RecoverForStartup m r held) (\<lambda>_ _. True) (\<lambda>_. True)"
  unfolding RecoverForStartup_def
  by (intro triple_quiet_then [OF quiet_steps(2)] triple_quiet_then [OF quiet_basic(1)] triple_if
      triple_seq [OF triple_recoverInterruptedLocked]
      triple_or_else [OF quiet_triple [OF quiet_reads(1)] triple_repairKnownGood]
      triple_or_else [OF quiet_triple [OF quiet_reads(2)] triple_repairKnownGood]
      triple_or_else [OF quiet_triple [OF quiet_reads(4)] triple_repairKnownGood]
      triple_repairKnownGood triple_return) auto

subsection \<open>Manual rollback and bootstrap\<close>

text \<open>What a manual rollback has checked: the target, and the revisions it may have to return to.\<close>

definition returnable :: "'x manager \<Rightarrow> string \<Rightarrow> string \<Rightarrow> string \<Rightarrow> history \<Rightarrow> bool" where
  "returnable m target oldActive oldLKG hy \<longleftrightarrow>
     known_good m hy target \<and> (oldActive = '''' \<or> may_be_active m hy oldActive)
     \<and> (oldLKG = '''' \<or> known_good m hy oldLKG)"

lemma about_returnable: "about_revisions (returnable m target oldActive oldLKG)"
  unfolding returnable_def by (intro about_revisionsI)

lemma triple_pointer_returnable:
  assumes "p = LastKnownGoodPtr \<longrightarrow> rid = target \<or> rid = oldLKG \<and> oldLKG \<noteq> ''''"
    and "p = Active \<longrightarrow> rid = target \<or> rid = oldActive \<and> oldActive \<noteq> ''''"
  shows "triple m (returnable m target oldActive oldLKG) (writePointer p rid)
      (\<lambda>_. returnable m target oldActive oldLKG) (returnable m target oldActive oldLKG)"
  by (rule triple_conseq [OF triple_writePointer [OF about_returnable, where p = p and rid = rid]])
    (use assms in \<open>auto simp: returnable_def may_be_active_def\<close>)

lemma triple_undo_rollback:
  "triple m (returnable m target oldActive oldLKG) (restoreAfterManualRollbackFailure oldActive oldLKG r e)
     (\<lambda>_ _. True) (\<lambda>_. True)"
proof (cases "oldActive = ''''")
  case False
  have active: "triple m (returnable m target oldActive oldLKG) (drop_error (writePointer Active oldActive))
      (\<lambda>_. returnable m target oldActive oldLKG) (\<lambda>_. True)"
    by (rule triple_drop_error [OF triple_pointer_returnable]) (use False in auto)
  have last: "triple m (returnable m target oldActive oldLKG)
      (if oldLKG \<noteq> '''' then drop_error (writePointer LastKnownGoodPtr oldLKG) else return ())
      (\<lambda>_. returnable m target oldActive oldLKG) (\<lambda>_. True)"
    by (auto intro!: triple_drop_error [OF triple_pointer_returnable])
  have "triple m (returnable m target oldActive oldLKG)
      (seqE (readConfig oldActive) (\<lambda>content. seqE (writeActive content) (\<lambda>_.
       seqE (drop_error (writePointer Active oldActive)) (\<lambda>_.
       seqE (if oldLKG \<noteq> '''' then drop_error (writePointer LastKnownGoodPtr oldLKG) else return ()) (\<lambda>_.
       seqE (try_runtime r) (\<lambda>_. throw (PreviousRestored e))))))) (\<lambda>_ _. True) (\<lambda>_. True)"
    by (intro triple_quiet_then [OF quiet_reads(3)] triple_then [OF triple_writeActive [OF about_returnable]]
        triple_seq [OF active] triple_seq [OF last] triple_quiet_then [OF quiet_steps(6)] triple_throw TrueI)
  then show ?thesis using False by (simp add: restoreAfterManualRollbackFailure_def)
qed (auto simp: restoreAfterManualRollbackFailure_def)

lemma triple_Rollback: "triple m (\<lambda>_. True) (Rollback m target r) (\<lambda>_ _. True) (\<lambda>_. True)"
proof -
  have commit: "triple m (returnable m target oldActive oldLKG)
      (seqE (if oldLKG \<noteq> '''' \<and> oldLKG \<noteq> target then writePointer PreviousKnownGoodPtr oldLKG else return ())
        (\<lambda>_. writePointer LastKnownGoodPtr target)) (\<lambda>_ _. True) (\<lambda>_. True)" for oldActive oldLKG
    by (rule triple_then [where R = "\<lambda>_. returnable m target oldActive oldLKG"])
      (auto intro!: triple_pointer_returnable
        triple_conseq [OF triple_pointer_returnable [where target = target and oldActive = oldActive and oldLKG = oldLKG]])
  have switch: "triple m (returnable m target oldActive oldLKG)
      (seqE (writeActive content) (\<lambda>_. seqE (writePointer Active target) (\<lambda>_.
       tryE (try_runtime r) (restoreAfterManualRollbackFailure oldActive oldLKG r) (\<lambda>_.
       seqE (if oldLKG \<noteq> '''' \<and> oldLKG \<noteq> target then writePointer PreviousKnownGoodPtr oldLKG else return ())
         (\<lambda>_. writePointer LastKnownGoodPtr target))))) (\<lambda>_ _. True) (\<lambda>_. True)" for oldActive oldLKG content
    by (intro triple_then [OF triple_writeActive [OF about_returnable]] triple_then [OF triple_pointer_returnable]
        triple_or_else [OF quiet_triple [OF quiet_steps(6)] triple_undo_rollback] commit) auto
  have pointers: "triple m (\<lambda>hy. known_good m hy target)
      (seqE (or_empty (readPointer Active)) (\<lambda>oldActive. seqE (or_empty (readPointer LastKnownGoodPtr)) (\<lambda>oldLKG.
       seqE (writeActive content) (\<lambda>_. seqE (writePointer Active target) (\<lambda>_.
       tryE (try_runtime r) (restoreAfterManualRollbackFailure oldActive oldLKG r) (\<lambda>_.
       seqE (if oldLKG \<noteq> '''' \<and> oldLKG \<noteq> target then writePointer PreviousKnownGoodPtr oldLKG else return ())
         (\<lambda>_. writePointer LastKnownGoodPtr target))))))) (\<lambda>_ _. True) (\<lambda>_. True)" for content
    by (rule triple_seq [OF triple_or_empty], rule triple_seq [OF triple_or_empty], rule triple_pre [OF switch])
      (auto simp: returnable_def dest: rev_inv_pointersD(2,3))
  show ?thesis
    unfolding Rollback_def
  proof (intro triple_quiet_then [OF quiet_steps(3)] triple_then [OF triple_readManifest] triple_if triple_then [OF triple_readConfig])
    fix mf :: manifest and content
    assume "\<not> mf_Status mf \<noteq> RevisionKnownGood"
    then show "triple m (\<lambda>hy. (True \<and> revisionIDPattern target \<and> read_manifest m hy target = Inr mf)
        \<and> rd_config (dir_of hy target) = Some content)
      (case parse_content m content of
         Inl e \<Rightarrow> throw (ConfigRejected e)
       | Inr _ \<Rightarrow>
           seqE (or_empty (readPointer Active)) (\<lambda>oldActive. seqE (or_empty (readPointer LastKnownGoodPtr)) (\<lambda>oldLKG.
           seqE (writeActive content) (\<lambda>_. seqE (writePointer Active target) (\<lambda>_.
           tryE (try_runtime r) (restoreAfterManualRollbackFailure oldActive oldLKG r) (\<lambda>_.
           seqE (if oldLKG \<noteq> '''' \<and> oldLKG \<noteq> target then writePointer PreviousKnownGoodPtr oldLKG else return ())
             (\<lambda>_. writePointer LastKnownGoodPtr target))))))) (\<lambda>_ _. True) (\<lambda>_. True)"
      by (cases "parse_content m content") (auto intro!: triple_pre [OF pointers] simp: known_good_def)
  qed auto
qed

lemma triple_BootstrapKnownGood:
  assumes "manager_ok (manager_defaults m)"
  shows "triple (manager_defaults m) (\<lambda>_. True) (BootstrapKnownGood m source content) (\<lambda>_ _. True) (\<lambda>_. True)"
proof -
  let ?m = "manager_defaults m"
  have again: "triple ?m (\<lambda>hy. known_good ?m hy lkg) (seqE (writePointer Active lkg) (\<lambda>_. return mf)) (\<lambda>_ _. True) (\<lambda>_. True)" for lkg mf
    by (rule triple_then [OF triple_writePointer [where P = "\<lambda>hy. known_good ?m hy lkg"]]) (auto simp: may_be_active_def)
  have first: "triple ?m (\<lambda>_. True) (seqE (beginLocked ?m source content) (promoteLocked ?m)) (\<lambda>_ _. True) (\<lambda>_. True)"
    by (rule triple_seq [OF triple_beginLocked [OF assms]], rule triple_conseq [OF triple_promoteLocked [OF assms]]) auto
  have "triple ?m (\<lambda>hy. True \<and> read_pointer hy LastKnownGoodPtr = Inr lkg)
     (if lkg \<noteq> '''' then
        seqE (readManifest ?m lkg) (\<lambda>mf.
        if mf_Status mf \<noteq> RevisionKnownGood then throw (NotKnownGood lkg (mf_Status mf))
        else if \<not> contentMatches ?m mf content then throw (Drifted lkg)
        else seqE (writePointer Active lkg) (\<lambda>_. return mf))
      else seqE (beginLocked ?m source content) (promoteLocked ?m)) (\<lambda>_ _. True) (\<lambda>_. True)" for lkg
    by (intro triple_if triple_then [OF triple_readManifest] triple_pre [OF again] triple_pre [OF first])
      (auto dest: rev_inv_pointersD(2))
  then show ?thesis
    unfolding BootstrapKnownGood_def Let_def
    by (intro triple_quiet_then [OF quiet_steps(3)])
      (cases "parse_content ?m content"; auto intro!: triple_then [OF triple_readPointer])
qed

end
