(* ===== verification/Config_Props.thy ===== *)
theory Config_Props
  imports Orchestrator_Props Config_Validate Wake_Packet
begin

text \<open>
  What a validated configuration guarantees: the cycle check is exact, identifiers are distinct, every
  recovery plan exists, and a wake request can be built for every host that has one.
\<close>

section \<open>The cycle check\<close>

definition edges :: "dep_graph \<Rightarrow> (string \<times> string) set" where
  "edges g = {(a, b). b \<in> set (deps_of g a) \<and> b |\<in>| fmdom g}"

lemma edges_dom: "(a, b) \<in> edges g \<Longrightarrow> a |\<in>| fmdom g \<and> b |\<in>| fmdom g"
  by (cases "fmlookup g a") (auto simp: edges_def deps_of_def intro: fmdomI)

definition search_ok :: "dep_graph \<Rightarrow> search \<Rightarrow> bool" where
  "search_ok g s \<longleftrightarrow> (\<forall>x. sr_marks s x = Visiting \<longleftrightarrow> x \<in> set (sr_stack s))
     \<and> successively (\<lambda>a b. (a, b) \<in> edges g) (sr_stack s)"

text \<open>The hosts done with depend only on hosts done with, and without a cycle.\<close>

definition clean :: "dep_graph \<Rightarrow> search \<Rightarrow> bool" where
  "clean g s \<longleftrightarrow> (\<forall>a b. sr_marks s a = Visited \<longrightarrow> (a, b) \<in> edges g \<longrightarrow> sr_marks s b = Visited)
     \<and> acyclic {(a, b). (a, b) \<in> edges g \<and> sr_marks s a = Visited}"

lemma successively_reaches:
  "successively (\<lambda>a b. (a, b) \<in> R) xs \<Longrightarrow> x \<in> set xs \<Longrightarrow> (x, last xs) \<in> R\<^sup>*"
proof (induction xs arbitrary: x)
  case (Cons a ys)
  show ?case
  proof (cases ys)
    case (Cons b zs)
    then have "(a, b) \<in> R" "(b, last ys) \<in> R\<^sup>*" using Cons.IH [of b] Cons.prems by auto
    then show ?thesis
      using Cons Cons.IH [of x] Cons.prems by (auto intro: converse_rtrancl_into_rtrancl)
  qed (use Cons.prems in simp)
qed simp

lemma acyclic_add_source:
  assumes "acyclic R" "h \<notin> Range R" "h \<notin> ds"
  shows "acyclic (R \<union> {h} \<times> ds)"
proof -
  let ?S = "R \<union> {h} \<times> ds"
  have "(x, y) \<in> ?S\<^sup>+ \<Longrightarrow> y \<noteq> h \<and> (x \<noteq> h \<longrightarrow> (x, y) \<in> R\<^sup>+)" for x y
    by (induction rule: trancl_induct) (use assms(2,3) in \<open>auto intro: trancl_into_trancl\<close>)
  then show ?thesis using assms(1) unfolding acyclic_def by blast
qed

lemma search_ok_enter:
  assumes "search_ok g s" "sr_stack s \<noteq> [] \<longrightarrow> (last (sr_stack s), hid) \<in> edges g"
  shows "search_ok g (enter hid s)"
  using assms by (auto simp: search_ok_def enter_def successively_append_iff)

lemma search_ok_leave:
  assumes "search_ok g s" "hid \<notin> set st" "sr_stack s = st @ [hid]"
  shows "search_ok g (leave hid s)"
  using assms by (auto simp: search_ok_def leave_def successively_append_iff)

lemma clean_leave:
  assumes "clean g s" "sr_marks s hid = Visiting" "\<And>d. (hid, d) \<in> edges g \<Longrightarrow> sr_marks s d = Visited"
  shows "clean g (leave hid s)"
proof -
  let ?R = "{(a, b). (a, b) \<in> edges g \<and> sr_marks s a = Visited}" and ?ds = "{d. (hid, d) \<in> edges g}"
  have "{(a, b). (a, b) \<in> edges g \<and> sr_marks (leave hid s) a = Visited} = ?R \<union> {hid} \<times> ?ds"
    by (auto simp: leave_def split: if_splits)
  moreover have "hid \<notin> Range ?R" using assms(1,2) unfolding clean_def by force
  moreover have "hid \<notin> ?ds" using assms(2,3) by force
  ultimately have "acyclic {(a, b). (a, b) \<in> edges g \<and> sr_marks (leave hid s) a = Visited}"
    using acyclic_add_source [of ?R hid ?ds] assms(1) by (simp add: clean_def)
  then show ?thesis using assms by (auto simp: clean_def leave_def)
qed

definition search_found :: "dep_graph \<Rightarrow> string list \<Rightarrow> search \<Rightarrow> search \<Rightarrow> problem list \<Rightarrow> bool" where
  "search_found g ids s s' ps \<longleftrightarrow> sr_problems s' = sr_problems s @ ps \<and> (ps \<noteq> [] \<longrightarrow> \<not> acyclic (edges g))
     \<and> (ps = [] \<longrightarrow> clean g s \<longrightarrow> clean g s' \<and> (\<forall>hid \<in> set ids. sr_marks s' hid = Visited))"

definition search_post :: "dep_graph \<Rightarrow> string list \<Rightarrow> search \<Rightarrow> search \<Rightarrow> bool" where
  "search_post g ids s s' \<longleftrightarrow> sr_stack s' = sr_stack s \<and> search_ok g s'
     \<and> (\<forall>x. sr_marks s x = Visited \<longrightarrow> sr_marks s' x = Visited) \<and> (\<exists>ps. search_found g ids s s' ps)"

lemma search_found_step:
  assumes "search_found g [hid] s s1 ps" "search_found g ids s1 s' qs"
    and "sr_marks s1 hid = Visited \<longrightarrow> sr_marks s' hid = Visited"
  shows "search_found g (hid # ids) s s' (ps @ qs)"
  using assms by (auto simp: search_found_def)

lemma search_post_step:
  assumes "search_post g [hid] s s1" "search_post g ids s1 s'"
  shows "search_post g (hid # ids) s s'"
proof -
  obtain ps qs where "search_found g [hid] s s1 ps" "search_found g ids s1 s' qs"
    using assms by (auto simp: search_post_def)
  then have "search_found g (hid # ids) s s' (ps @ qs)"
    using assms(2) by (intro search_found_step) (auto simp: search_post_def)
  then show ?thesis using assms by (auto simp: search_post_def)
qed

lemma search_post_quiet:
  assumes "search_ok g s'" "sr_stack s' = sr_stack s" "sr_marks s' = sr_marks s" "search_found g ids s s' ps"
  shows "search_post g ids s s'"
  using assms by (auto simp: search_post_def)

lemma visit_each_spec:
  assumes "search_ok g s" "set ids \<subseteq> fset (fmdom g)"
    and "sr_stack s \<noteq> [] \<longrightarrow> (\<forall>hid \<in> set ids. (last (sr_stack s), hid) \<in> edges g)"
  shows "search_post g ids s (visit_each g ids s)"
  using assms
proof (induction g ids s rule: visit_each.induct)
  case (1 g s)
  then show ?case by (intro search_post_quiet [where ps = "[]"]) (simp_all add: search_found_def)
next
  case (2 g hid ids s)
  have step: "search_post g ids s1 (visit_each g ids s1) \<Longrightarrow> search_post g [hid] s s1 \<Longrightarrow>
      search_post g (hid # ids) s (visit_each g ids s1)" for s1
    using search_post_step by blast
  show ?case
  proof (cases "sr_marks s hid")
    case Visited
    then have "search_post g [hid] s s"
      using "2.prems"(1) by (intro search_post_quiet [where ps = "[]"]) (simp_all add: search_found_def)
    moreover have "search_post g ids s (visit_each g ids s)"
      using "2.prems" by (intro 2(4) [OF Visited]) auto
    ultimately show ?thesis using step Visited by simp
  next
    case Visiting
    let ?st = "sr_stack s"
    have st: "hid \<in> set ?st" "?st \<noteq> []" using "2.prems"(1) Visiting by (auto simp: search_ok_def)
    then have "(hid, hid) \<in> (edges g)\<^sup>+"
      using successively_reaches [of "edges g" ?st hid] "2.prems"(1,3)
      by (auto simp: search_ok_def intro: rtrancl_into_trancl1)
    then have "\<not> acyclic (edges g)" by (auto simp: acyclic_def)
    then have "search_post g [hid] s (report_cycle hid s)"
      using "2.prems"(1) st(1)
      by (intro search_post_quiet [where ps = "[DependencyCycle (dropWhile (\<lambda>v. v \<noteq> hid) ?st @ [hid])]"])
        (simp_all add: search_found_def report_cycle_def search_ok_def)
    moreover have "search_post g ids (report_cycle hid s) (visit_each g ids (report_cycle hid s))"
      using "2.prems" by (intro 2(3) [OF Visiting]) (auto simp: search_ok_def report_cycle_def)
    ultimately show ?thesis using step Visiting by simp
  next
    case Unvisited
    let ?ds = "filter (\<lambda>d. d |\<in>| fmdom g) (deps_of g hid)"
    let ?s1 = "enter hid s" let ?s2 = "visit_each g ?ds ?s1"
    have hid: "hid \<notin> set (sr_stack s)" "hid |\<in>| fmdom g"
      using "2.prems"(1,2) Unvisited by (simp_all add: search_ok_def) (metis mark.distinct(1))
    have "search_post g ?ds ?s1 ?s2"
    proof (rule 2(1) [OF Unvisited])
      show "search_ok g ?s1" using "2.prems"(1,3) by (intro search_ok_enter) auto
    qed (use hid in \<open>auto simp: enter_def edges_def\<close>)
    note p = this [unfolded search_post_def]
    have s2: "sr_stack ?s2 = sr_stack s @ [hid]" "search_ok g ?s2" using p by (auto simp: enter_def)
    have post: "search_post g [hid] s (leave hid ?s2)"
      unfolding search_post_def
    proof (intro conjI)
      show "sr_stack (leave hid ?s2) = sr_stack s" using s2 by (simp add: leave_def)
      show "search_ok g (leave hid ?s2)" by (rule search_ok_leave [OF s2(2) hid(1) s2(1)])
      show "\<forall>x. sr_marks s x = Visited \<longrightarrow> sr_marks (leave hid ?s2) x = Visited"
        using p Unvisited by (auto simp: leave_def enter_def)
      obtain ps where ps: "sr_problems ?s2 = sr_problems s @ ps" "ps \<noteq> [] \<longrightarrow> \<not> acyclic (edges g)"
          "ps = [] \<longrightarrow> clean g ?s1 \<longrightarrow> clean g ?s2 \<and> (\<forall>d \<in> set ?ds. sr_marks ?s2 d = Visited)"
        using p by (auto simp: enter_def search_found_def)
      have "clean g s \<Longrightarrow> clean g ?s1"
        using Unvisited by (auto simp: clean_def enter_def elim!: acyclic_subset split: if_splits)
      moreover have "sr_marks ?s2 hid = Visiting" using s2 by (auto simp: search_ok_def)
      ultimately have "ps = [] \<longrightarrow> clean g s \<longrightarrow> clean g (leave hid ?s2)"
        using ps(3) by (auto simp: edges_def intro!: clean_leave)
      then show "\<exists>ps. search_found g [hid] s (leave hid ?s2) ps"
        using ps(1,2) by (auto simp: leave_def search_found_def intro!: exI [of _ ps])
    qed
    have "search_post g ids (leave hid ?s2) (visit_each g ids (leave hid ?s2))"
      using 2(2) [OF Unvisited] post "2.prems"(2,3) by (simp add: search_post_def)
    then show ?thesis using step post Unvisited by simp
  qed
qed

lemma cycles_checked:
  assumes "set order = fset (fmdom (host_graph hosts))"
  shows "validateHostDependencyCycles order hosts = [] \<longleftrightarrow> acyclic (edges (host_graph hosts))"
proof -
  let ?g = "host_graph hosts"
  let ?f = "\<lambda>hid s. if sr_marks s hid = Unvisited then visit_each ?g [hid] s else s"
  let ?s0 = "\<lparr>sr_marks = (\<lambda>_. Unvisited), sr_stack = [], sr_problems = []\<rparr>"
  have "set xs \<subseteq> fset (fmdom ?g) \<Longrightarrow> search_ok ?g s \<Longrightarrow> sr_stack s = [] \<Longrightarrow> search_post ?g xs s (fold ?f xs s)" for xs s
  proof (induction xs arbitrary: s)
    case Nil
    then show ?case by (intro search_post_quiet [where ps = "[]"]) (simp_all add: search_found_def)
  next
    case (Cons x xs)
    have "search_post ?g [x] s (?f x s)"
    proof (cases "sr_marks s x = Unvisited")
      case True
      then show ?thesis using Cons.prems visit_each_spec [of ?g s "[x]"] by simp
    next
      case False
      moreover have "sr_marks s x \<noteq> Visiting" using Cons.prems(2,3) by (simp add: search_ok_def)
      ultimately have "sr_marks s x = Visited" by (cases "sr_marks s x") auto
      then show ?thesis
        using Cons.prems(2) by (intro search_post_quiet [where ps = "[]"]) (simp_all add: search_found_def)
    qed
    moreover from this have "search_post ?g xs (?f x s) (fold ?f xs (?f x s))"
      using Cons.prems by (intro Cons.IH) (simp_all add: search_post_def)
    ultimately show ?case unfolding fold_simps by (rule search_post_step)
  qed
  from this [of order ?s0] assms
  have post: "search_post ?g order ?s0 (fold ?f order ?s0)" by (simp add: search_ok_def)
  have c0: "clean ?g ?s0" by (simp add: clean_def acyclic_def)
  show ?thesis
  proof
    assume "validateHostDependencyCycles order hosts = []"
    then have "clean ?g (fold ?f order ?s0)" "\<forall>hid \<in> set order. sr_marks (fold ?f order ?s0) hid = Visited"
      using post c0 by (auto simp: search_post_def search_found_def validateHostDependencyCycles_def Let_def)
    moreover from this have "{(a, b). (a, b) \<in> edges ?g \<and> sr_marks (fold ?f order ?s0) a = Visited} = edges ?g"
      using assms edges_dom by auto
    ultimately show "acyclic (edges ?g)" by (simp add: clean_def)
  next
    assume "acyclic (edges ?g)"
    then show "validateHostDependencyCycles order hosts = []"
      using post by (auto simp: search_post_def search_found_def validateHostDependencyCycles_def Let_def)
  qed
qed

section \<open>Identifiers and host parts\<close>

lemma problem_if_empty [simp]: "problem_if b m = [] \<longleftrightarrow> \<not> b"
  by (simp add: problem_if_def)

lemma validateID_ok:
  "validateID ids hid path = ([], ids') \<Longrightarrow> hid |\<notin>| fmdom ids \<and> ids' = fmupd hid path ids"
  by (auto simp: validateID_def fmlookup_dom_iff split: if_splits option.splits)

lemma validate_hosts_ok:
  "validate_hosts i hs ids = ([], ids') \<Longrightarrow>
     distinct (map hc_ID hs) \<and> (\<forall>h \<in> set hs. hc_ID h |\<notin>| fmdom ids) \<and> (\<forall>h \<in> set hs. \<exists>path. validate_host path h = [])"
proof (induction hs arbitrary: i ids)
  case (Cons h hs)
  obtain ids1 where v: "validateID ids (hc_ID h) (indexed ''hosts'' i) = ([], ids1)"
      "validate_hosts (i + 1) hs ids1 = ([], ids')" "validate_host (indexed ''hosts'' i) h = []"
    using Cons.prems by (auto simp: Let_def split: prod.splits)
  note id1 = validateID_ok [OF v(1)]
  show ?case using Cons.IH [OF v(2)] id1 v(3) by (auto simp: image_iff)
qed simp

lemma Validate_hosts:
  assumes "Validate order cfg = []"
  shows "distinct (map hc_ID (cf_Hosts cfg))" "\<And>h. h \<in> set (cf_Hosts cfg) \<Longrightarrow> \<exists>path. validate_host path h = []"
    "validateHostDependencyCycles order (cf_Hosts cfg) = []"
proof -
  obtain ids ids' where v: "validate_hosts 0 (cf_Hosts cfg) ids = ([], ids')"
      and c: "validateHostDependencyCycles order (cf_Hosts cfg) = []"
    using assms by (auto simp: Validate_def Let_def split: prod.splits)
  show "distinct (map hc_ID (cf_Hosts cfg))" "\<And>h. h \<in> set (cf_Hosts cfg) \<Longrightarrow> \<exists>path. validate_host path h = []"
    using validate_hosts_ok [OF v] by auto
  show "validateHostDependencyCycles order (cf_Hosts cfg) = []" by (rule c)
qed

lemma host_graph_dom: "fset (fmdom (host_graph hosts)) = hc_ID ` set hosts"
proof -
  have "fset (fmdom (fold (\<lambda>h g. fmupd (hc_ID h) (hc_DependsOn h) g) hosts g)) = fset (fmdom g) \<union> hc_ID ` set hosts" for g
    by (induction hosts arbitrary: g) auto
  then show ?thesis by (simp add: host_graph_def)
qed

lemma host_graph_deps:
  assumes "distinct (map hc_ID hosts)" "h \<in> set hosts"
  shows "deps_of (host_graph hosts) (hc_ID h) = hc_DependsOn h"
proof -
  have "distinct (map hc_ID hosts) \<Longrightarrow>
      h \<in> set hosts \<or> (hc_ID h \<notin> hc_ID ` set hosts \<and> fmlookup g (hc_ID h) = Some (hc_DependsOn h)) \<Longrightarrow>
      fmlookup (fold (\<lambda>h g. fmupd (hc_ID h) (hc_DependsOn h) g) hosts g) (hc_ID h) = Some (hc_DependsOn h)" for g
  proof (induction hosts arbitrary: g)
    case (Cons a hosts)
    then show ?case by (auto simp: image_iff)
  qed simp
  then show ?thesis using assms by (simp add: host_graph_def deps_of_def)
qed

text \<open>The dependencies among eligible hosts are among those the cycle check looked at.\<close>

lemma dep_rel_edges:
  assumes "distinct (map hc_ID hosts)"
  shows "dep_rel (eligible_map (toHostConfigs hosts) states) \<subseteq> (edges (host_graph hosts))\<inverse>"
proof safe
  fix d h
  let ?el = "eligible_map (toHostConfigs hosts) states"
  assume "(d, h) \<in> dep_rel ?el"
  then have e: "h |\<in>| fmdom ?el" "d \<in> set (hp_DependsOn (cfg_at ?el h))" "d |\<in>| fmdom ?el"
    by (auto simp: dep_rel_def deps_in_def)
  have cfg: "fmlookup ?el h = Some (cfg_at ?el h)" using e(1) by (auto simp: cfg_at_def fmlookup_dom_iff)
  obtain d' where d': "fmlookup ?el d = Some d'" using e(3) by (meson fmlookup_dom_iff)
  obtain c where c: "c \<in> set hosts" "cfg_at ?el h = toHostConfig c" "hc_ID c = h"
    using eligible_map_range [OF cfg] by (auto simp: toHostConfigs_def toHostConfig_def)
  have "d \<in> hc_ID ` set hosts"
    using eligible_map_range [OF d'] by (auto simp: toHostConfigs_def toHostConfig_def)
  moreover have "d \<in> set (hc_DependsOn c)" using e(2) c(2) by (simp add: toHostConfig_def)
  ultimately show "(h, d) \<in> edges (host_graph hosts)"
    using host_graph_deps [OF assms c(1)] c(3) host_graph_dom [of hosts] by (auto simp: edges_def)
qed

section \<open>Properties\<close>

text \<open>
  Claim C31. The cycle check is exact: whatever order the hosts are visited in, it reports no problem
  exactly when the dependencies between configured hosts have no cycle.
\<close>

theorem cycle_check_exact:
  assumes "set order = hc_ID ` set hosts"
  shows "validateHostDependencyCycles order hosts = [] \<longleftrightarrow>
    acyclic {(a, b). b \<in> set (deps_of (host_graph hosts) a) \<and> b \<in> hc_ID ` set hosts}"
proof -
  have "edges (host_graph hosts) = {(a, b). b \<in> set (deps_of (host_graph hosts) a) \<and> b \<in> hc_ID ` set hosts}"
    using host_graph_dom [of hosts] by (auto simp: edges_def)
  then show ?thesis
    using cycles_checked [of order hosts] assms host_graph_dom [of hosts] by simp
qed

theorem cycle_check_exact_witness:
  "validateHostDependencyCycles [''app'', ''nas''] (cf_Hosts demo_agent_config) = []
   \<and> acyclic {(a, b). b \<in> set (deps_of (host_graph (cf_Hosts demo_agent_config)) a)
        \<and> b \<in> hc_ID ` set (cf_Hosts demo_agent_config)}"
proof -
  have "validateHostDependencyCycles [''app'', ''nas''] (cf_Hosts demo_agent_config) = []" by code_simp
  then show ?thesis
    using cycle_check_exact [of "[''app'', ''nas'']" "cf_Hosts demo_agent_config"]
    by (simp add: demo_agent_config_def demo_machine_def insert_commute)
qed

text \<open>
  Claim C32. A validated fleet can always be planned: when validation finds no problem, host identifiers
  are distinct and the recovery plan of the orchestrator exists in every state of the hosts.
\<close>

theorem validated_config_always_plans:
  assumes "Validate order cfg = []" "set order = hc_ID ` set (cf_Hosts cfg)"
  shows "distinct (map hc_ID (cf_Hosts cfg)) \<and> (\<forall>states. BuildRecoveryPlan (toHostConfigs (cf_Hosts cfg)) states \<noteq> None)"
proof -
  note v = Validate_hosts [OF assms(1)]
  have "acyclic (edges (host_graph (cf_Hosts cfg)))"
    using cycles_checked [of order "cf_Hosts cfg"] v(3) assms(2) host_graph_dom [of "cf_Hosts cfg"] by simp
  then have "acyclic (dep_rel (eligible_map (toHostConfigs (cf_Hosts cfg)) states))" for states
    using dep_rel_edges [OF v(1), of states] by (auto intro: acyclic_subset simp: acyclic_converse)
  then show ?thesis using v(1) by (auto simp: plan_fails_iff_cycle)
qed

definition demo_valid_config :: config where
  "demo_valid_config = demo_agent_config
     \<lparr>cf_Mode := ''armed'',
      cf_NUT := (cf_NUT demo_agent_config)\<lparr>nc_Profile := ''local-server'', nc_PowerCycleCapability := ''MONITOR_ONLY'',
        nc_Network := (nc_Network (cf_NUT demo_agent_config))\<lparr>nn_Mode := ''trusted-lan''\<rparr>\<rparr>,
      cf_Recovery := (cf_Recovery demo_agent_config)\<lparr>rc_RechargeTimeSeconds := Some 600\<rparr>,
      cf_Hosts := map (\<lambda>h. host_defaults (h\<lparr>hc_Name := hc_ID h,
          hc_Shutdown := (hc_Shutdown h)\<lparr>sd_SSHUser := Some ''ups'', sd_SSHKeyFile := Some ''/k''\<rparr>,
          hc_Wake := (hc_Wake h)\<lparr>wk_MAC := Some ''00:11:22:33:44:55'', wk_Broadcast := Some ''10.0.0.255''\<rparr>\<rparr>))
        (cf_Hosts demo_agent_config)\<rparr>"

lemma demo_trims:
  "TrimSpace ''ups'' = ''ups''" "TrimSpace ''localhost'' = ''localhost''" "TrimSpace ''nas'' = ''nas''"
  "TrimSpace ''app'' = ''app''" "TrimSpace ''/k'' = ''/k''" "TrimSpace ''10.0.0.255'' = ''10.0.0.255''"
  "TrimSpace ''00:11:22:33:44:55'' = ''00:11:22:33:44:55''"
  by (simp_all add: TrimSpace_plain plain_char_def ascii_space_def)

lemma demo_ip: "ParseIP ''10.0.0.255'' = Some (replicate 10 0 @ [255, 255, 10, 0, 0, 255])"
  by code_simp

lemma demo_mac: "net_ParseMAC ''00:11:22:33:44:55'' = Some [0, 17, 34, 51, 68, 85]"
  by code_simp

lemma demo_names: "validHostname ''nas''" "validHostname ''app''"
  by code_simp+

lemmas demo_texts = demo_trims demo_ip demo_mac demo_names

lemma demo_no_cycle: "validateHostDependencyCycles [''app'', ''nas''] (cf_Hosts demo_valid_config) = []"
  by code_simp

lemmas validate_defs =
  Validate_def validate_nut_def validate_outage_def validate_recovery_def validate_health_def
  validate_host_def validateStatus_def validateWake_def validateIPv4_def validateAddress_def validateID_def
  validateOptionalPercent_def validateOptionalPositive_def nilOrEmpty_def oneOf_def Let_def

lemmas demo_config_defs =
  demo_valid_config_def demo_agent_config_def demo_machine_def zero_host_config_def host_defaults_def
  applyStatusDefaults_def applyWakeDefaults_def

lemma demo_valid: "Validate [''app'', ''nas''] demo_valid_config = []"
proof -
  note cyc = demo_no_cycle [unfolded demo_config_defs, simplified]
  show ?thesis
    by (simp add: validate_defs demo_config_defs demo_texts cyc To4_def)
qed

lemma demo_valid_ids: "set [''app'', ''nas''] = hc_ID ` set (cf_Hosts demo_valid_config)"
  by code_simp

theorem validated_config_always_plans_witness:
  "distinct (map hc_ID (cf_Hosts demo_valid_config))
   \<and> (\<exists>plan. BuildRecoveryPlan (toHostConfigs (cf_Hosts demo_valid_config)) fmempty = Some plan)"
  using validated_config_always_plans [OF demo_valid demo_valid_ids] by blast

text \<open>
  A validated host can be woken: when validation finds no problem and a host has wake-up
  enabled, on no particular interface and with a broadcast address written without surrounding white
  space, the sender builds the magic packet of its hardware address for that broadcast address and port.
\<close>

theorem validated_wake_is_sendable:
  assumes "Validate order cfg = []" "h \<in> set (cf_Hosts cfg)" "wk_Enabled (hc_Wake h)"
    and "TrimSpace (the (wk_Broadcast (hc_Wake h))) = the (wk_Broadcast (hc_Wake h))"
  shows "\<exists>mac dst. net_ParseMAC (the (wk_MAC (hc_Wake h))) = Some mac \<and> length mac = 6
    \<and> prepare_wake ifs \<lparr>rq_MAC = the (wk_MAC (hc_Wake h)), rq_Interface = '''',
          rq_Broadcast = the (wk_Broadcast (hc_Wake h)), rq_Port = wk_Port (hc_Wake h)\<rparr>
      = Inr ([0, 0, 0, 0], dst, wk_Port (hc_Wake h), replicate 6 0xFF @ concat (replicate 16 (map word_of_nat mac)))"
proof -
  let ?w = "hc_Wake h"
  obtain path where "validate_host path h = []" using Validate_hosts(2) [OF assms(1,2)] by blast
  then have w: "validateWake (path @ ''.wake'') ?w = []" by (simp add: validate_host_def)
  have port: "1 \<le> wk_Port ?w" "wk_Port ?w \<le> 65535" using w assms(3) by (auto simp: validateWake_def)
  obtain mac where mac: "net_ParseMAC (the (wk_MAC ?w)) = Some mac" "length mac = 6"
    using w assms(3) by (auto simp: validateWake_def split: if_splits option.splits)
  obtain ip dst where ip: "ParseIP (the (wk_Broadcast ?w)) = Some ip" "To4 ip = Some dst"
    using w assms(3,4) by (auto simp: validateWake_def validateIPv4_def split: if_splits option.splits)
  show ?thesis
    using port mac ip by (auto simp: prepare_wake_def ParseMAC_def magic_packet Let_def)
qed

theorem validated_wake_is_sendable_witness:
  "\<exists>dst packet. prepare_wake (\<lambda>_. None) \<lparr>rq_MAC = ''00:11:22:33:44:55'', rq_Interface = '''',
      rq_Broadcast = ''10.0.0.255'', rq_Port = 9\<rparr> = Inr ([0, 0, 0, 0], dst, 9, packet)"
proof -
  let ?h = "cf_Hosts demo_valid_config ! 0"
  have w: "wk_Enabled (hc_Wake ?h)" "wk_MAC (hc_Wake ?h) = Some ''00:11:22:33:44:55''"
      "wk_Broadcast (hc_Wake ?h) = Some ''10.0.0.255''" "wk_Port (hc_Wake ?h) = 9" "?h \<in> set (cf_Hosts demo_valid_config)"
      "TrimSpace ''10.0.0.255'' = ''10.0.0.255''"
    by code_simp+
  show ?thesis
    using validated_wake_is_sendable [OF demo_valid w(5,1), of "\<lambda>_. None"] w by auto
qed

text \<open>
  A broadcast address with a leading blank passes validation, which trims it, and is refused
  by the sender, which does not: such a host can never be woken.
\<close>

theorem padded_broadcast_never_wakes:
  "validateIPv4 path (Some '' 10.0.0.255'') = []
   \<and> (\<exists>e. prepare_wake ifs (req\<lparr>rq_Broadcast := '' 10.0.0.255''\<rparr>) = Inl e)"
proof
  have "TrimSpace '' 10.0.0.255'' = ''10.0.0.255''" "ParseIP ''10.0.0.255'' = Some (replicate 10 0 @ [255, 255, 10, 0, 0, 255])"
    by code_simp+
  then show "validateIPv4 path (Some '' 10.0.0.255'') = []"
    by (simp add: validateIPv4_def nilOrEmpty_def To4_def)
  have "ParseIP '' 10.0.0.255'' = None" by code_simp
  then show "\<exists>e. prepare_wake ifs (req\<lparr>rq_Broadcast := '' 10.0.0.255''\<rparr>) = Inl e"
    by (auto simp: prepare_wake_def Let_def split: sum.split)
qed

text \<open>
  Defaults are stable: applying them to a configuration that already has them changes nothing,
  so what parsing returns is a validated fixed point.
\<close>

theorem parsed_config_is_stable:
  assumes "Parse yaml order data = Inr cfg"
  shows "applyDefaults cfg = cfg \<and> Validate order cfg = []"
proof -
  have status: "applyStatusDefaults (applyStatusDefaults s) = applyStatusDefaults s" for s
    by (simp add: applyStatusDefaults_def)
  have wake: "applyWakeDefaults (applyWakeDefaults w) = applyWakeDefaults w" for w
    by (simp add: applyWakeDefaults_def)
  have "nut_defaults (nut_defaults n) = nut_defaults n" for n
    by (simp add: nut_defaults_def)
  moreover have "health_defaults (health_defaults h) = health_defaults h" for h
    by (simp add: health_defaults_def)
  moreover have "host_defaults (host_defaults h) = host_defaults h" for h
    by (simp add: host_defaults_def status wake)
  moreover have "dependency_defaults (dependency_defaults d) = dependency_defaults d" for d
    by (simp add: dependency_defaults_def status wake)
  ultimately have "applyDefaults (applyDefaults c) = applyDefaults c" for c
    by (simp add: applyDefaults_def)
  then show ?thesis
    using assms by (auto simp: Parse_def Let_def split: sum.splits trailing.splits if_splits)
qed

theorem parsed_config_is_stable_witness:
  "\<exists>cfg. Parse \<lparr>yd_first = (\<lambda>_. Inr demo_valid_config), yd_next = (\<lambda>_. AtEOF)\<rparr> [''app'', ''nas''] [] = Inr cfg
     \<and> applyDefaults cfg = cfg"
proof -
  let ?cfg = "applyDefaults demo_valid_config"
  have "?cfg = demo_valid_config"
    by (simp add: applyDefaults_def nut_defaults_def health_defaults_def demo_config_defs)
  then have "Validate [''app'', ''nas''] ?cfg = []" using demo_valid by simp
  then have p: "Parse \<lparr>yd_first = (\<lambda>_. Inr demo_valid_config), yd_next = (\<lambda>_. AtEOF)\<rparr> [''app'', ''nas''] [] = Inr ?cfg"
    by (simp add: Parse_def)
  show ?thesis using parsed_config_is_stable [OF p] p by blast
qed

end
