(* ===== verification/Revision_Props.thy ===== *)
theory Revision_Props
  imports Revision_Logic Config_Props
begin

text \<open>
  The configuration history as a whole: every history that can be reached with failing system calls, crashes
  and edits satisfies the invariant; what a startup accepts on a damaged history; that a startup after a
  crash ends on a known-good revision; and that an activation ends and commits. Two small logics carry the
  proofs: \<open>ensures\<close>, which assumes nothing of the files, and \<open>returns\<close>, for runs without failing calls.
\<close>

section \<open>Every reachable history\<close>

lemma manager_defaults_fields [simp]:
  "mg_sha256_hex (manager_defaults m) = mg_sha256_hex m" "mg_encode (manager_defaults m) = mg_encode m"
  "mg_decode (manager_defaults m) = mg_decode m" "mg_yaml (manager_defaults m) = mg_yaml m"
  "mg_order (manager_defaults m) = mg_order m"
  by (simp_all add: manager_defaults_def)

lemma manager_defaults_same [simp]:
  "manager_ok (manager_defaults m) = manager_ok m" "rev_inv (manager_defaults m) hy = rev_inv m hy"
  "safe (manager_defaults m) w = safe m w"
proof -
  have parse: "parse_content (manager_defaults m) = parse_content m" for m :: "'x manager"
    by (rule ext) (simp add: parse_content_def)
  have reads: "read_manifest (manager_defaults m) = read_manifest m" for m :: "'x manager"
    by (intro ext) (simp only: read_manifest_def manager_defaults_fields)
  have "contentMatches (manager_defaults m) = contentMatches m"
    by (intro ext) (simp add: contentMatches_def)
  then show "rev_inv (manager_defaults m) hy = rev_inv m hy" for hy
    by (simp add: rev_inv_def known_good_def may_be_active_def opened_def parses_def parse reads)
  then show "safe (manager_defaults m) w = safe m w" by (simp add: safe_def)
  show "manager_ok (manager_defaults m) = manager_ok m" by (simp add: manager_ok_def)
qed

lemma rev_inv_edit: "rev_inv m (hy\<lparr>hy_active := c\<rparr>) = rev_inv m hy"
proof -
  have "read_pointer (hy\<lparr>hy_active := c\<rparr>) = read_pointer hy" "dir_of (hy\<lparr>hy_active := c\<rparr>) = dir_of hy"
    by (auto simp: fun_eq_iff read_pointer_def dir_of_def)
  then show ?thesis
    by (simp add: rev_inv_def known_good_def may_be_active_def opened_def read_manifest_def)
qed

text \<open>
  The operations of the manager, with arbitrary arguments, runtimes, environments and failing system calls.
  An activation that never comes to the end of its probation has done its first part.
\<close>

inductive manager_op :: "'x manager \<Rightarrow> 'x rev_world \<Rightarrow> 'x rev_world \<Rightarrow> bool" for m where
  "manager_op m w (snd (Begin m source content w))"
| "manager_op m w (snd (activate_candidate (manager_defaults m) rid r w))"
| "ActivateAndValidate m rid r w = Some (res, w') \<Longrightarrow> manager_op m w w'"
| "manager_op m w (snd (Rollback m rid r w))"
| "manager_op m w (snd (RecoverInterrupted m r w))"
| "manager_op m w (snd (RecoverForStartup m r held w))"
| "manager_op m w (snd (BootstrapKnownGood m source content w))"
| "manager_op m w (snd (PruneRevisions m keep w))"

text \<open>
  A history: it starts empty; anyone may edit or delete the active configuration file; an operation leaves
  its last content, or any content it went through when it is cut short by a crash.
\<close>

inductive hist_run :: "'x manager \<Rightarrow> history \<Rightarrow> bool" for m where
  start: "hist_run m \<lparr>hy_pointers = (\<lambda>_. None), hy_revisions = fmempty, hy_active = c\<rparr>"
| edit: "hist_run m hy \<Longrightarrow> hist_run m (hy\<lparr>hy_active := c\<rparr>)"
| operate: "hist_run m (rw_files w) \<Longrightarrow> rw_seen w = [] \<Longrightarrow> manager_op m w w'
    \<Longrightarrow> hy \<in> insert (rw_files w') (set (rw_seen w')) \<Longrightarrow> hist_run m hy"

lemma triple_safe: "triple m (\<lambda>_. True) f Q E \<Longrightarrow> safe m w \<Longrightarrow> safe m (snd (f w))"
  using tripleD [of m "\<lambda>_. True" f Q E w] by (cases "f w"; cases "fst (f w)") (auto simp: wp_def)

lemma triple_safeP: "triple m P f Q E \<Longrightarrow> safe m w \<Longrightarrow> P (rw_files w) \<Longrightarrow> safe m (snd (f w))"
  using tripleD [of m P f Q E w] by (cases "f w"; cases "fst (f w)") (auto simp: wp_def)

lemma ActivateAndValidate_safe:
  assumes "manager_ok m" "safe m w" "ActivateAndValidate m rid r w = Some (res, w')"
  shows "safe m w'"
proof -
  let ?m = "manager_defaults m"
  have ok: "manager_ok ?m" "safe ?m w" using assms(1,2) by simp_all
  obtain a w1 where a: "activate_candidate ?m rid r w = (a, w1)" by (cases "activate_candidate ?m rid r w")
  note act = tripleD [OF triple_activate_candidate [OF ok(1), of rid r] ok(2) TrueI]
  have "safe ?m w'"
  proof (cases a)
    case (Inl e)
    then show ?thesis using act assms(3) a by (simp add: ActivateAndValidate_def wp_def)
  next
    case (Inr p)
    obtain mf rt where p: "p = (mf, rt)" by (cases p)
    have w1: "safe ?m w1" "in_trial ?m mf (rw_files w1)" using act a Inr p by (simp_all add: wp_def)
    have env: "safe ?m (w1\<lparr>rw_env := x\<rparr>)" "in_trial ?m mf (rw_files (w1\<lparr>rw_env := x\<rparr>))" for x
      using w1 by (simp_all add: safe_def)
    have later: "safe ?m (snd (promoteLocked ?m mf (w1\<lparr>rw_env := x\<rparr>)))" for x
      by (rule triple_safeP [OF triple_promoteLocked [OF ok(1)]]) (use env in auto)
    have back_off: "safe ?m (snd (rollbackLocked ?m mf e r (w1\<lparr>rw_env := x\<rparr>) :: (rev_error + manifest) \<times> _))" for e x
      by (rule triple_safeP [OF triple_rollbackLocked [OF ok(1)]]) (use env in auto)
    obtain now x1 where now: "mg_Now ?m (rw_env w1) = (now, x1)" by (cases "mg_Now ?m (rw_env w1)")
    have "\<exists>e x. rollbackLocked ?m mf e r (w1\<lparr>rw_env := x\<rparr>) = (res, w') \<or> promoteLocked ?m mf (w1\<lparr>rw_env := x\<rparr>) = (res, w')"
      using assms(3) by (auto simp: ActivateAndValidate_def Let_def a Inr p now split: option.splits; blast)
    then show ?thesis using later back_off by (metis snd_conv)
  qed
  then show ?thesis by simp
qed

lemma manager_op_safe:
  assumes "manager_op m w w'" "manager_ok m" "safe m w"
  shows "safe m w'"
  using assms(1,3)
proof cases
  case (1 source content)
  have "triple (manager_defaults m) (\<lambda>_. True) (Begin m source content) (\<lambda>_ _. True) (\<lambda>_. True)"
    unfolding Begin_def using assms(2)
    by (intro triple_quiet_then [OF quiet_steps(3)] triple_conseq [OF triple_beginLocked]) auto
  then show ?thesis using triple_safe [of "manager_defaults m"] 1 assms(3) by (metis manager_defaults_same(3))
next
  case (2 rid r)
  then show ?thesis
    using triple_safe [OF triple_activate_candidate, of "manager_defaults m" w] assms(2,3) by simp
next
  case (3 rid r res)
  then show ?thesis using ActivateAndValidate_safe assms(2,3) by blast
next
  case (7 source content)
  then show ?thesis
    using triple_safe [OF triple_BootstrapKnownGood, of m w source content] assms(2,3) by simp
next
  case (8 keep)
  have "triple m (\<lambda>_. True) (PruneRevisions m keep) (\<lambda>_ _. True) (\<lambda>_. True)"
    unfolding PruneRevisions_def
    by (intro triple_if triple_throw triple_quiet_then [OF quiet_steps(3)] triple_conseq [OF triple_prune [of "\<lambda>_. True"]])
      (auto simp: about_pointers_def)
  then show ?thesis using triple_safe 8 assms(3) by blast
next
  case (4 rid r)
  show ?thesis unfolding 4 by (rule triple_safe [OF triple_Rollback assms(3)])
next
  case (5 r)
  show ?thesis unfolding 5 by (rule triple_safe [OF triple_RecoverInterrupted assms(3)])
next
  case (6 r held)
  show ?thesis unfolding 6 by (rule triple_safe [OF triple_RecoverForStartup assms(3)])
qed

lemma hist_run_inv:
  assumes "hist_run m hy" "manager_ok m"
  shows "rev_inv m hy"
  using assms(1)
proof induction
  case (start c)
  show ?case by (simp add: rev_inv_def read_pointer_def read_manifest_def dir_of_def no_files_def)
next
  case (edit hy c)
  then show ?case by (simp add: rev_inv_edit)
next
  case (operate w w' hy)
  then have "safe m w" by (simp add: safe_def)
  then show ?case using manager_op_safe [OF operate(3) assms(2)] operate(4) by (auto simp: safe_def)
qed

section \<open>Startup on a damaged history\<close>

text \<open>
  Triples that assume nothing of the files: from any history, with any failing system calls, \<open>f\<close> ends with
  \<open>Q\<close>, or with \<open>E\<close> when it returns an error.
\<close>

definition ensures :: "(history \<Rightarrow> bool) \<Rightarrow> ('x, 'a) rev_proc \<Rightarrow> ('a \<Rightarrow> history \<Rightarrow> bool) \<Rightarrow> (history \<Rightarrow> bool) \<Rightarrow> bool" where
  "ensures P f Q E \<longleftrightarrow>
     (\<forall>w. P (rw_files w) \<longrightarrow> wp f (\<lambda>r w'. Q r (rw_files w')) (\<lambda>_ w'. E (rw_files w')) w)"

lemma ensuresD:
  assumes "ensures P f Q E" "P (rw_files w)" "f w = (Inr x, w')"
  shows "Q x (rw_files w')"
proof -
  have "wp f (\<lambda>r w'. Q r (rw_files w')) (\<lambda>_ w'. E (rw_files w')) w" using assms(1,2) by (simp add: ensures_def)
  then show ?thesis by (simp add: wp_def assms(3))
qed

lemma ensures_conseq:
  assumes "ensures P f Q E" "\<And>hy. P' hy \<Longrightarrow> P hy" "\<And>x hy. Q x hy \<Longrightarrow> Q' x hy" "\<And>hy. E hy \<Longrightarrow> E' hy"
  shows "ensures P' f Q' E'"
  using assms unfolding ensures_def by (blast intro: wp_conseq)

lemma ensures_return: "(\<And>hy. P hy \<Longrightarrow> Q x hy) \<Longrightarrow> ensures P (return x) Q E"
  by (simp add: ensures_def)

lemma ensures_throw: "(\<And>hy. P hy \<Longrightarrow> E hy) \<Longrightarrow> ensures P (throw e) Q E"
  by (simp add: ensures_def)

lemma ensures_seq:
  assumes "ensures P f R E" "\<And>x. ensures (R x) (g x) Q E"
  shows "ensures P (seqE f g) Q E"
  using assms unfolding ensures_def wp_seqE by (blast intro: wp_conseq)

lemma ensures_try:
  assumes "ensures P f R F" "\<And>e. ensures F (h e) Q E" "\<And>x. ensures (R x) (g x) Q E"
  shows "ensures P (tryE f h g) Q E"
  using assms unfolding ensures_def wp_tryE by (blast intro: wp_conseq)

lemma ensures_if: "(b \<Longrightarrow> ensures P f Q E) \<Longrightarrow> (\<not> b \<Longrightarrow> ensures P g Q E) \<Longrightarrow> ensures P (if b then f else g) Q E"
  by simp

lemma ensures_quiet: "quiet f \<Longrightarrow> ensures P f (\<lambda>_. P) P"
  unfolding ensures_def quiet_def wp_def by (auto split: prod.splits sum.splits) (metis snd_conv)+

lemma ensures_nothing: "ensures P f (\<lambda>_ _. True) (\<lambda>_. True)"
  by (simp add: ensures_def wp_def split: prod.split sum.split)

lemma ensures_always: "ensures (\<lambda>_. True) f Q E \<Longrightarrow> ensures P f Q E"
  by (rule ensures_conseq) auto

lemma ensures_or_else:
  "ensures P f R P \<Longrightarrow> (\<And>e. ensures (\<lambda>_. True) (h e) Q E) \<Longrightarrow> (\<And>x. ensures (R x) (g x) Q E) \<Longrightarrow> ensures P (tryE f h g) Q E"
  by (rule ensures_try [OF _ ensures_always])

lemma ensures_then:
  "ensures P f R P \<Longrightarrow> (\<And>x. ensures (R x) (g x) Q (\<lambda>_. True)) \<Longrightarrow> ensures P (seqE f g) Q (\<lambda>_. True)"
  by (rule ensures_seq [OF ensures_conseq [where P = P and Q = R and E = P and P' = P and Q' = R and E' = "\<lambda>_. True"]]) auto

lemma ensures_change: "(\<And>hy. P hy \<Longrightarrow> Q (f hy)) \<Longrightarrow> ensures P (change f) (\<lambda>_. Q) E"
  by (simp add: ensures_def change_def)

lemma ensures_reads:
  "ensures P (readPointer p) (\<lambda>rid hy. P hy \<and> read_pointer hy p = Inr rid) P"
  "ensures P (readManifest m rid) (\<lambda>mf hy. P hy \<and> read_manifest m hy rid = Inr mf) P"
  "ensures P (readConfig rid) (\<lambda>c hy. P hy \<and> rd_config (dir_of hy rid) = Some c) P"
  "ensures P readActive (\<lambda>c hy. P hy \<and> hy_active hy = Some c) P"
  unfolding ensures_def readPointer_def readManifest_def readConfig_def readActive_def ValidateRevisionID_def
    syscall_def liftR_def wp_def proc_defs
  by (auto simp: Let_def split: sum.splits option.splits)

lemma ensures_writeAtomic:
  assumes "\<And>hy. P hy \<Longrightarrow> R (mkdir hy)" "\<And>hy. R hy \<Longrightarrow> Q (inst hy)"
  shows "ensures P (writeAtomic mkdir inst) (\<lambda>_. Q) (\<lambda>_. True)"
proof -
  have quietly: "quiet f \<Longrightarrow> ensures S f (\<lambda>_. S) (\<lambda>_. True)" for S and f :: "('x, unit) rev_proc"
    by (rule ensures_conseq [OF ensures_quiet]) auto
  show ?thesis
    unfolding writeAtomic_def
    by (rule ensures_seq [OF quietly [OF quiet_basic(1)]], rule ensures_seq [OF ensures_change [where Q = R]], erule assms(1),
        rule ensures_seq [OF quietly [OF quiet_steps(1)]], rule ensures_seq [OF ensures_change [where Q = Q]], erule assms(2),
        rule quietly [OF quiet_steps(1)])
qed

lemma ensures_writeActive:
  "(\<And>hy. P hy \<Longrightarrow> Q (put_active c hy)) \<Longrightarrow> ensures P (writeActive c) (\<lambda>_. Q) (\<lambda>_. True)"
  unfolding writeActive_def by (rule ensures_writeAtomic [where R = P]) auto

lemma ensures_writePointer:
  "(\<And>hy. P hy \<Longrightarrow> revisionIDPattern rid \<Longrightarrow> Q (put_pointer p (rid @ [newline]) hy)) \<Longrightarrow>
   ensures P (writePointer p rid) (\<lambda>_. Q) (\<lambda>_. True)"
  by (cases "revisionIDPattern rid")
    (auto simp: writePointer_def ValidateRevisionID_def intro: ensures_throw intro!: ensures_writeAtomic [where R = P])

text \<open>A manifest on disk that vouches for the content of a revision.\<close>

definition vouched :: "'x manager \<Rightarrow> history \<Rightarrow> string \<Rightarrow> bool" where
  "vouched m hy rid \<longleftrightarrow>
     (\<exists>q mf c. read_manifest m hy q = Inr mf \<and> mf_Status mf = RevisionKnownGood
        \<and> rd_config (dir_of hy rid) = Some c \<and> contentMatches m mf c)"

definition vouched_content :: "'x manager \<Rightarrow> history \<Rightarrow> string \<Rightarrow> bool" where
  "vouched_content m hy c \<longleftrightarrow>
     (\<exists>q mf. read_manifest m hy q = Inr mf \<and> mf_Status mf = RevisionKnownGood \<and> contentMatches m mf c)"

definition on_disk :: "'x manager \<Rightarrow> history \<Rightarrow> manifest \<Rightarrow> bool" where
  "on_disk m hy mf \<longleftrightarrow> mf_Status mf = RevisionKnownGood \<and> (\<exists>q. read_manifest m hy q = Inr mf)"

text \<open>What a startup that goes on has established.\<close>

definition startup_sound :: "'x manager \<Rightarrow> history \<Rightarrow> bool" where
  "startup_sound m hy \<longleftrightarrow>
     (\<exists>rid. read_pointer hy Active = Inr rid \<and>
        (rid = '''' \<or>
         (\<exists>c. hy_active hy = Some c \<and>
            ((\<exists>mf. read_manifest m hy rid = Inr mf \<and> contentMatches m mf c) \<or> vouched_content m hy c))))"

lemma ensures_collect: "ensures P (collect_known_good m rids) (\<lambda>mfs hy. P hy \<and> (\<forall>mf\<in>set mfs. on_disk m hy mf)) P"
proof (induction rids arbitrary: P)
  case (Cons rid rids)
  have "ensures (\<lambda>hy. P hy \<and> read_manifest m hy rid = Inr mf)
      (seqE (collect_known_good m rids) (\<lambda>mfs. return (if mf_Status mf = RevisionKnownGood then mf # mfs else mfs)))
      (\<lambda>mfs hy. P hy \<and> (\<forall>mf\<in>set mfs. on_disk m hy mf)) P" for mf
    by (rule ensures_seq [where R = "\<lambda>mfs hy. (P hy \<and> read_manifest m hy rid = Inr mf) \<and> (\<forall>mf\<in>set mfs. on_disk m hy mf)"],
        rule ensures_conseq [OF Cons [where P = "\<lambda>hy. P hy \<and> read_manifest m hy rid = Inr mf"]])
      (auto intro!: ensures_return simp: on_disk_def)
  then show ?case
    by (auto intro!: ensures_try [OF ensures_reads(2)] Cons)
qed (auto intro: ensures_return)

lemma ensures_KnownGoodRevisions:
  "ensures P (KnownGoodRevisions m) (\<lambda>mfs hy. P hy \<and> (\<forall>mf\<in>set mfs. on_disk m hy mf)) P"
  unfolding KnownGoodRevisions_def
  by (intro ensures_seq [OF ensures_quiet] ensures_seq [OF ensures_collect] quiet_steps quiet_basic)
    (auto intro!: ensures_return simp: newest_first_def)

lemma ensures_if_verified:
  "ensures (\<lambda>hy. P hy \<and> on_disk m hy mf) (if_verified m mf rid) (\<lambda>r hy. P hy \<and> (r = '''' \<or> vouched m hy r)) E"
  unfolding if_verified_def
  by (rule ensures_try [OF ensures_reads(3)]) (auto intro!: ensures_return simp: on_disk_def vouched_def)

lemma ensures_first_verified:
  "ensures (\<lambda>hy. \<forall>mf\<in>set mfs. on_disk m hy mf) (first_verified m mfs) (\<lambda>r hy. r = '''' \<or> vouched m hy r) E"
proof (induction mfs)
  case (Cons mf mfs)
  have "ensures (\<lambda>hy. \<forall>mf\<in>set (mf # mfs). on_disk m hy mf) (if_verified m mf (mf_RevisionID mf))
      (\<lambda>r hy. (\<forall>mf\<in>set mfs. on_disk m hy mf) \<and> (r = '''' \<or> vouched m hy r)) E"
    by (rule ensures_conseq [OF ensures_if_verified [where P = "\<lambda>hy. \<forall>mf\<in>set mfs. on_disk m hy mf" and mf = mf]]) auto
  then show ?case
    unfolding first_verified.simps
    by (rule ensures_seq) (auto intro!: ensures_return ensures_conseq [OF Cons])
qed (auto intro: ensures_return)

lemma ensures_knownGoodForRepair:
  "ensures (\<lambda>_. True) (knownGoodForRepair m) (\<lambda>r hy. r = '''' \<or> vouched m hy r) (\<lambda>_. True)"
proof -
  have pointed: "ensures (\<lambda>_. True) (pointed_known_good m) (\<lambda>r hy. r = '''' \<or> vouched m hy r) (\<lambda>_. True)"
    unfolding pointed_known_good_def or_empty_def
    by (intro ensures_seq [OF ensures_nothing] ensures_if ensures_try [OF ensures_reads(2) [where P = "\<lambda>_. True"]] ensures_return
        ensures_conseq [OF ensures_if_verified [where P = "\<lambda>_. True"]])
      (auto simp: on_disk_def)
  have listed: "ensures (\<lambda>_. True) (tryE (KnownGoodRevisions m) (\<lambda>_. return '''') (first_verified m))
      (\<lambda>r hy. r = '''' \<or> vouched m hy r) (\<lambda>_. True)"
    by (rule ensures_try [OF ensures_KnownGoodRevisions]) (auto intro!: ensures_return ensures_conseq [OF ensures_first_verified])
  show ?thesis
    unfolding knownGoodForRepair_def
    by (rule ensures_seq [OF pointed]) (auto intro!: ensures_return ensures_conseq [OF listed])
qed

lemma ensures_repair: "ensures (\<lambda>_. True) (repairKnownGoodLocked m r cause) (\<lambda>_. startup_sound m) (\<lambda>_. True)"
proof -
  let ?A = "\<lambda>lkg hy. read_pointer hy Active = Inr lkg \<and> (\<exists>c. hy_active hy = Some c \<and> vouched_content m hy c)"
  have put: "vouched_content m (put_active c hy) c' = vouched_content m hy c'"
    "vouched_content m (put_pointer p b hy) c' = vouched_content m hy c'"
    "hy_active (put_pointer p b hy) = hy_active hy" "hy_active (put_active c hy) = Some c" for p b c c' hy
    by (simp_all add: vouched_content_def) (simp_all add: put_pointer_def put_active_def)
  have restore: "ensures (\<lambda>hy. vouched m hy lkg) (restoreKnownGoodLocked lkg r) (\<lambda>_. ?A lkg) (\<lambda>_. True)" for lkg
    unfolding restoreKnownGoodLocked_def
    by (intro ensures_if ensures_throw TrueI
        ensures_seq [OF ensures_conseq [OF ensures_reads(3) [where P = "\<lambda>hy. vouched m hy lkg"]]]
        ensures_seq [OF ensures_writeActive [where Q = "\<lambda>hy. \<exists>c. hy_active hy = Some c \<and> vouched_content m hy c"]]
        ensures_seq [OF ensures_writePointer [where Q = "?A lkg"]]
        ensures_conseq [OF ensures_quiet [OF quiet_steps(6), where P = "?A lkg"]])
      (auto simp: put read_pointer_put vouched_def, auto simp: vouched_content_def)
  have point: "ensures (?A lkg) (writePointer LastKnownGoodPtr lkg) (\<lambda>_. startup_sound m) (\<lambda>_. True)" for lkg
    by (rule ensures_writePointer) (auto simp: startup_sound_def put read_pointer_put)
  have both: "ensures (\<lambda>hy. lkg = '''' \<or> vouched m hy lkg) (tryE (restoreKnownGoodLocked lkg r) (\<lambda>e. throw (Unrepaired cause e))
      (\<lambda>_. tryE (writePointer LastKnownGoodPtr lkg) (\<lambda>e. throw (Unrepaired cause e)) return))
      (\<lambda>_. startup_sound m) (\<lambda>_. True)" if "lkg \<noteq> ''''" for lkg
    by (rule ensures_try [OF ensures_conseq [OF restore [of lkg], where Q' = "\<lambda>_. ?A lkg" and E' = "\<lambda>_. True"]])
      (use that in \<open>auto intro!: ensures_throw ensures_return ensures_try [OF point]\<close>)
  show ?thesis
    unfolding repairKnownGoodLocked_def
    by (intro ensures_seq [OF ensures_knownGoodForRepair] ensures_if ensures_throw both) auto
qed

lemma startup_is_sound:
  assumes "RecoverForStartup m r False w = (Inr (), w')"
  shows "startup_sound m (rw_files w')"
proof -
  have "ensures (\<lambda>_. True) (RecoverForStartup m r False) (\<lambda>_. startup_sound m) (\<lambda>_. True)"
    unfolding RecoverForStartup_def
    by (intro ensures_seq [OF ensures_nothing] ensures_if ensures_repair ensures_or_else [OF ensures_reads(1)]
        ensures_or_else [OF ensures_reads(2)] ensures_or_else [OF ensures_reads(4)] ensures_return ensures_always [OF ensures_repair])
      (auto simp: startup_sound_def)
  from ensuresD [OF this TrueI assms] show ?thesis .
qed

text \<open>However the history and the active configuration file are damaged, and whatever system calls
  fail on the way: when \<^verbatim>\<open>RecoverForStartup\<close>, holding the lock, lets the agent go on, the active pointer is
  readable, and either it is empty (nothing has been bootstrapped), or the active configuration file has the
  hash that the manifest of the active revision records, or a known-good manifest of the history does.\<close>

theorem startup_accepts_only_recorded_content:
  assumes "RecoverForStartup m r False w = (Inr (), w')"
  shows "\<exists>rid. read_pointer (rw_files w') Active = Inr rid \<and>
    (rid = '''' \<or>
     (\<exists>c q mf. hy_active (rw_files w') = Some c \<and> read_manifest m (rw_files w') q = Inr mf \<and> contentMatches m mf c
        \<and> (q = rid \<or> mf_Status mf = RevisionKnownGood)))"
  using startup_is_sound [OF assms] unfolding startup_sound_def vouched_content_def by blast

section \<open>Startup after a crash\<close>

text \<open>
  When no system call fails and the environment stays in \<open>X\<close>, the operations are functions of the files:
  \<open>returns X f hy x hy'\<close> says that \<open>f\<close> started on \<open>hy\<close> returns \<open>x\<close> and leaves \<open>hy'\<close>, \<open>raises X f hy\<close> that it fails and
  leaves \<open>hy\<close>.
\<close>

definition calm :: "'x set \<Rightarrow> 'x rev_world \<Rightarrow> bool" where
  "calm X w \<longleftrightarrow> (\<forall>n. \<not> rw_fault w n) \<and> rw_env w \<in> X"

definition returns :: "'x set \<Rightarrow> ('x, 'a) rev_proc \<Rightarrow> history \<Rightarrow> 'a \<Rightarrow> history \<Rightarrow> bool" where
  "returns X f hy x hy' \<longleftrightarrow>
     (\<forall>w. calm X w \<longrightarrow> rw_files w = hy \<longrightarrow> (\<exists>w'. f w = (Inr x, w') \<and> calm X w' \<and> rw_files w' = hy'))"

definition raises :: "'x set \<Rightarrow> ('x, 'a) rev_proc \<Rightarrow> history \<Rightarrow> bool" where
  "raises X f hy \<longleftrightarrow> (\<forall>w. calm X w \<longrightarrow> rw_files w = hy \<longrightarrow> (\<exists>e w'. f w = (Inl e, w') \<and> calm X w' \<and> rw_files w' = hy))"

lemma returns_return: "returns X (return x) hy x hy"
  by (simp add: returns_def return_def)

lemma returns_seq: "returns X f hy x hy1 \<Longrightarrow> returns X (g x) hy1 y hy2 \<Longrightarrow> returns X (seqE f g) hy y hy2"
  unfolding returns_def seqE_def by (metis (mono_tags, lifting) case_prod_conv old.sum.simps(6))

lemma returns_try: "returns X f hy x hy1 \<Longrightarrow> returns X (g x) hy1 y hy2 \<Longrightarrow> returns X (tryE f h g) hy y hy2"
  unfolding returns_def tryE_def by (metis (mono_tags, lifting) case_prod_conv old.sum.simps(6))

lemma returns_handler: "raises X f hy \<Longrightarrow> (\<And>e. returns X (h e) hy y hy2) \<Longrightarrow> returns X (tryE f h g) hy y hy2"
  unfolding returns_def raises_def tryE_def by (metis (mono_tags, lifting) case_prod_conv old.sum.simps(5))

lemma returns_syscall: "returns X syscall hy () hy"
  by (simp add: returns_def syscall_def calm_def)

lemma returns_syscalls: "returns X (syscalls n) hy () hy"
proof -
  have "returns X (forE xs (\<lambda>_. syscall)) hy () hy" for xs :: "nat list"
    by (induction xs) (auto intro: returns_return returns_seq returns_syscall)
  then show ?thesis by (simp add: syscalls_def)
qed

lemma returns_change: "returns X (change f) hy () (f hy)"
  by (simp add: returns_def change_def modifyS_def calm_def)

lemma returns_writeAtomic: "returns X (writeAtomic mkdir inst) hy () (inst (mkdir hy))"
  unfolding writeAtomic_def
  by (intro returns_seq [OF returns_syscall] returns_seq [OF returns_change] returns_seq [OF returns_syscalls] returns_syscalls)

lemma returns_writeActive: "returns X (writeActive c) hy () (put_active c hy)"
  using returns_writeAtomic [of X id "put_active c" hy] by (simp add: writeActive_def)

lemma returns_writePointer: "revisionIDPattern rid \<Longrightarrow> returns X (writePointer p rid) hy () (put_pointer p (rid @ [newline]) hy)"
  using returns_writeAtomic [of X id "put_pointer p (rid @ [newline])" hy] by (simp add: writePointer_def ValidateRevisionID_def)

lemma returns_reads:
  "read_pointer hy p = Inr rid \<Longrightarrow> returns X (readPointer p) hy rid hy"
  "revisionIDPattern rid \<Longrightarrow> read_manifest m hy rid = Inr mf \<Longrightarrow> returns X (readManifest m rid) hy mf hy"
  "rd_config (dir_of hy rid) = Some c \<Longrightarrow> returns X (readConfig rid) hy c hy"
  "hy_active hy = Some c \<Longrightarrow> returns X readActive hy c hy"
  "hy_active hy = None \<Longrightarrow> raises X readActive hy"
  unfolding returns_def raises_def readPointer_def readManifest_def readConfig_def readActive_def ValidateRevisionID_def
    syscall_def liftR_def proc_defs
  by (auto simp: Let_def calm_def)

lemma returns_or_empty: "returns X f hy x hy' \<Longrightarrow> returns X (or_empty f) hy x hy'"
  unfolding or_empty_def by (rule returns_try [OF _ returns_return])

text \<open>A revision the agent can run: promoted, complete, with the recorded hash.\<close>

definition runnable :: "'x manager \<Rightarrow> history \<Rightarrow> string \<Rightarrow> manifest \<Rightarrow> string \<Rightarrow> bool" where
  "runnable m hy rid mf c \<longleftrightarrow>
     read_manifest m hy rid = Inr mf \<and> mf_Status mf = RevisionKnownGood \<and> rd_config (dir_of hy rid) = Some c
     \<and> contentMatches m mf c \<and> parses m c"

lemma known_good_runnable: "rev_inv m hy \<Longrightarrow> known_good m hy rid \<Longrightarrow> \<exists>mf c. runnable m hy rid mf c"
  by (auto simp: known_good_def runnable_def dest: rev_inv_pointersD(5))

lemma runnable_put [simp]:
  "runnable m (put_pointer p b hy) rid mf c = runnable m hy rid mf c"
  "runnable m (put_active c' hy) rid mf c = runnable m hy rid mf c"
  by (simp_all add: runnable_def)

lemma hy_active_put [simp]: "hy_active (put_pointer p b hy) = hy_active hy" "hy_active (put_active c hy) = Some c"
  by (simp_all add: put_pointer_def put_active_def)

definition restored :: "string \<Rightarrow> string \<Rightarrow> history \<Rightarrow> history" where
  "restored rid c hy = put_pointer Active (rid @ [newline]) (put_active c hy)"

lemma returns_restore:
  assumes "runnable m hy rid mf c" "revisionIDPattern rid"
  shows "returns X (restoreKnownGoodLocked rid None) hy () (restored rid c hy)"
  using assms revisionIDPattern_plain(1) [OF assms(2)]
  by (auto simp: restoreKnownGoodLocked_def try_runtime_def restored_def runnable_def
      intro!: returns_seq [OF returns_reads(3)] returns_seq [OF returns_writeActive] returns_seq [OF returns_writePointer] returns_return)

lemma returns_knownGoodForRepair:
  assumes "read_pointer hy LastKnownGoodPtr = Inr rid" "rid \<noteq> ''''" "runnable m hy rid mf c"
  shows "returns X (knownGoodForRepair m) hy rid hy"
proof -
  have "returns X (if_verified m mf rid) hy rid hy"
    using assms unfolding if_verified_def runnable_def by (auto intro!: returns_try [OF returns_reads(3)] returns_return)
  then have "returns X (pointed_known_good m) hy rid hy"
    using assms read_pointer_pattern [OF assms(1,2)] unfolding pointed_known_good_def runnable_def
    by (auto intro!: returns_seq [OF returns_or_empty [OF returns_reads(1)]] returns_try [OF returns_reads(2)])
  then show ?thesis
    using assms(2) unfolding knownGoodForRepair_def by (auto intro!: returns_seq returns_return)
qed

lemma returns_repair:
  assumes "read_pointer hy LastKnownGoodPtr = Inr rid" "rid \<noteq> ''''" "runnable m hy rid mf c"
  shows "returns X (repairKnownGoodLocked m None cause) hy ()
    (put_pointer LastKnownGoodPtr (rid @ [newline]) (restored rid c hy))"
  unfolding repairKnownGoodLocked_def using assms(2) read_pointer_pattern [OF assms(1,2)]
  by (auto intro!: returns_seq [OF returns_knownGoodForRepair [OF assms]] returns_try [OF returns_restore [OF assms(3)]]
      returns_try [OF returns_writePointer] returns_return)

text \<open>Where the first part of the recovery leads: the active pointer agrees with the last known-good revision.\<close>

definition reconciled :: "'x manager \<Rightarrow> string \<Rightarrow> string \<Rightarrow> history \<Rightarrow> bool" where
  "reconciled m active lkg hy \<longleftrightarrow>
     (\<exists>rid mf c. rid \<in> {active, lkg} \<and> rid \<noteq> '''' \<and> read_pointer hy Active = Inr rid \<and> read_pointer hy LastKnownGoodPtr = Inr rid
        \<and> runnable m hy rid mf c)"

lemma returns_settle:
  assumes inv: "rev_inv m hy"
    and ptr: "read_pointer hy Active = Inr active" "active \<noteq> ''''" "read_pointer hy LastKnownGoodPtr = Inr lkg" "lkg \<noteq> ''''"
  shows "\<exists>hy'. returns X (settle_interrupted m active lkg None) hy () hy' \<and> reconciled m active lkg hy'"
proof -
  note pat = read_pointer_pattern [OF ptr(1,2)] read_pointer_pattern [OF ptr(3,4)]
  obtain lmf c where lkg: "runnable m hy lkg lmf c"
    using known_good_runnable [OF inv rev_inv_pointersD(2) [OF inv ptr(3,4)]] by blast
  obtain mf where mf: "read_manifest m hy active = Inr mf"
    using rev_inv_pointersD(3) [OF inv ptr(1,2)] by (auto simp: may_be_active_def opened_def known_good_def)
  have kind: "opened m hy active \<or> known_good m hy active"
    using rev_inv_pointersD(3) [OF inv ptr(1,2)] by (simp add: may_be_active_def)
  note start = returns_try [OF returns_reads(2) [OF pat(1) mf]]
  consider (same) "active = lkg" | (newer) "active \<noteq> lkg" "known_good m hy active" | (trial) "active \<noteq> lkg" "opened m hy active"
    using kind by blast
  then show ?thesis
  proof cases
    case same
    then have "returns X (settle_interrupted m active lkg None) hy () hy"
      using ptr(2) lkg mf pat
      by (auto simp: settle_interrupted_def runnable_def intro!: returns_try [OF returns_reads(2)] returns_return)
    then show ?thesis using same ptr lkg by (auto simp: reconciled_def)
  next
    case newer
    let ?hy = "put_pointer LastKnownGoodPtr (active @ [newline]) (put_pointer PreviousKnownGoodPtr (lkg @ [newline]) hy)"
    have "mf_Status mf = RevisionKnownGood" using newer mf by (auto simp: known_good_def)
    then have "returns X (settle_interrupted m active lkg None) hy () ?hy"
      using newer ptr pat
      by (auto simp: settle_interrupted_def intro!: start returns_seq [OF returns_writePointer] returns_writePointer)
    moreover have "reconciled m active lkg ?hy"
      using known_good_runnable [OF inv newer(2)] ptr pat by (auto simp: reconciled_def read_pointer_put)
    ultimately show ?thesis by blast
  next
    case trial
    have "in_progress (mf_Status mf)" using trial mf by (auto simp: opened_def)
    then have "returns X (settle_interrupted m active lkg None) hy () (restored lkg c hy)"
      using trial ptr pat lkg
      by (auto simp: settle_interrupted_def in_progress_def intro!: start returns_restore)
    moreover have "reconciled m active lkg (restored lkg c hy)"
      using ptr pat lkg by (auto simp: reconciled_def restored_def read_pointer_put)
    ultimately show ?thesis by blast
  qed
qed

lemma returns_recoverInterrupted:
  assumes "rev_inv m hy"
    and "read_pointer hy Active = Inr active" "active \<noteq> ''''" "read_pointer hy LastKnownGoodPtr = Inr lkg" "lkg \<noteq> ''''"
  shows "\<exists>hy'. returns X (recoverInterruptedLocked m None) hy () hy' \<and> reconciled m active lkg hy'"
  using returns_settle [OF assms] unfolding recoverInterruptedLocked_def
  by (blast intro: returns_try returns_seq returns_reads(1) [OF assms(2)] returns_reads(1) [OF assms(4)] returns_return)

text \<open>The second part: the active file is compared with its manifest, and rewritten when it differs.\<close>

definition check_active :: "'x manager \<Rightarrow> ('x, unit) rev_proc" where
  "check_active m =
     tryE (readPointer Active) (repairKnownGoodLocked m None) (\<lambda>active.
       if active = '''' then return ()
       else
         tryE (readManifest m active) (repairKnownGoodLocked m None) (\<lambda>mf.
         tryE readActive (repairKnownGoodLocked m None) (\<lambda>content.
         if contentMatches m mf content then return ()
         else repairKnownGoodLocked m None ContentMismatch)))"

lemma returns_check_active:
  assumes "read_pointer hy Active = Inr rid" "read_pointer hy LastKnownGoodPtr = Inr rid" "rid \<noteq> ''''" "runnable m hy rid mf c0"
  shows "\<exists>hy' c. returns X (check_active m) hy () hy' \<and> read_pointer hy' Active = Inr rid \<and> read_pointer hy' LastKnownGoodPtr = Inr rid
    \<and> runnable m hy' rid mf c0 \<and> hy_active hy' = Some c \<and> contentMatches m mf c"
proof -
  let ?hy = "put_pointer LastKnownGoodPtr (rid @ [newline]) (restored rid c0 hy)"
  note pat = read_pointer_pattern [OF assms(1,3)]
  have mf: "read_manifest m hy rid = Inr mf" "contentMatches m mf c0" using assms(4) by (simp_all add: runnable_def)
  have start: "returns X (check_active m) hy () hy2"
    if "returns X (tryE readActive (repairKnownGoodLocked m None) (\<lambda>content.
         if contentMatches m mf content then return () else repairKnownGoodLocked m None ContentMismatch)) hy () hy2" for hy2
    unfolding check_active_def
    using assms(3) that by (auto intro!: returns_try [OF returns_reads(1) [OF assms(1)]] returns_try [OF returns_reads(2) [OF pat mf(1)]])
  note fix_up = returns_repair [OF assms(2,3,4)]
  show ?thesis
  proof (cases "\<exists>c. hy_active hy = Some c \<and> contentMatches m mf c")
    case True
    then obtain c where c: "hy_active hy = Some c" "contentMatches m mf c" by blast
    then have "returns X (check_active m) hy () hy"
      by (auto intro!: start returns_try [OF returns_reads(4)] returns_return)
    then show ?thesis using c assms by blast
  next
    case False
    have "returns X (check_active m) hy () ?hy"
    proof (cases "hy_active hy")
      case None
      then show ?thesis by (intro start returns_handler returns_reads(5) fix_up)
    next
      case (Some c)
      then show ?thesis using False by (auto intro!: start returns_try [OF returns_reads(4)] fix_up)
    qed
    moreover have "read_pointer ?hy Active = Inr rid" "read_pointer ?hy LastKnownGoodPtr = Inr rid" "hy_active ?hy = Some c0"
        "runnable m ?hy rid mf c0"
      using assms(4) pat by (simp_all add: restored_def read_pointer_put)
    ultimately show ?thesis using mf(2) by blast
  qed
qed

lemma returns_RecoverForStartup:
  assumes "rev_inv m hy"
    and "read_pointer hy Active = Inr active" "active \<noteq> ''''" "read_pointer hy LastKnownGoodPtr = Inr lkg" "lkg \<noteq> ''''"
  shows "\<exists>hy' rid mf c0 c. returns X (RecoverForStartup m None False) hy () hy' \<and> rid \<in> {active, lkg}
    \<and> read_pointer hy' Active = Inr rid \<and> read_pointer hy' LastKnownGoodPtr = Inr rid \<and> runnable m hy' rid mf c0
    \<and> hy_active hy' = Some c \<and> contentMatches m mf c"
proof -
  obtain hy1 where hy1: "returns X (recoverInterruptedLocked m None) hy () hy1" "reconciled m active lkg hy1"
    using returns_recoverInterrupted [OF assms] by blast
  then obtain rid mf c0 where r: "rid \<in> {active, lkg}" "rid \<noteq> ''''" "read_pointer hy1 Active = Inr rid"
      "read_pointer hy1 LastKnownGoodPtr = Inr rid" "runnable m hy1 rid mf c0"
    by (auto simp: reconciled_def)
  obtain hy2 c where hy2: "returns X (check_active m) hy1 () hy2" "read_pointer hy2 Active = Inr rid"
      "read_pointer hy2 LastKnownGoodPtr = Inr rid" "runnable m hy2 rid mf c0" "hy_active hy2 = Some c" "contentMatches m mf c"
    using returns_check_active [OF r(3,4,2,5)] by blast
  have "returns X (RecoverForStartup m None False) hy () hy2"
    unfolding RecoverForStartup_def Ensure_def check_active_def [symmetric] if_False
    by (intro returns_seq [OF returns_syscalls] returns_seq [OF returns_syscall] returns_seq [OF hy1(1)] hy2(1))
  then show ?thesis using r(1) hy2 by blast
qed

lemma returnsD:
  "returns X f (rw_files w) x hy' \<Longrightarrow> \<forall>n. \<not> rw_fault w n \<Longrightarrow> rw_env w \<in> X \<Longrightarrow>
   \<exists>w'. f w = (Inr x, w') \<and> rw_files w' = hy' \<and> calm X w'"
  unfolding returns_def calm_def by blast


section \<open>A concrete history\<close>

lemma returns_consult: "(\<And>x. x \<in> X \<Longrightarrow> fst (f x) = y \<and> snd (f x) \<in> X) \<Longrightarrow> returns X (consult f) hy y hy"
  by (auto simp: returns_def consult_def calm_def split: prod.split) (metis fst_conv snd_conv)+

lemma returns_files: "returns X (getS (\<lambda>w. g (rw_files w))) hy (g hy) hy"
  by (simp add: returns_def getS_def)

lemma returns_drop_error: "returns X f hy () hy' \<Longrightarrow> returns X (drop_error f) hy () hy'"
  unfolding drop_error_def by (rule returns_try [OF _ returns_return])

lemma returns_lock: "returns X lock hy () hy"
  unfolding lock_def Ensure_def by (intro returns_seq [OF returns_syscalls] returns_syscalls)

lemma returns_writeManifest:
  "revisionIDPattern (mf_RevisionID mf) \<Longrightarrow>
   returns X (writeManifest m mf) hy () (put_manifest (mf_RevisionID mf) (mg_encode m mf) (make_dir (mf_RevisionID mf) hy))"
  using returns_writeAtomic [of X "make_dir (mf_RevisionID mf)" "put_manifest (mf_RevisionID mf) (mg_encode m mf)" hy]
  by (simp add: writeManifest_def ValidateRevisionID_def)

text \<open>Pruning a history whose only revision is the one all pointers name.\<close>

lemma returns_prune_single:
  fixes m :: "'x manager" and X :: "'x set"
  assumes "keep \<ge> 1" "fmdom (hy_revisions hy) = {|rid|}" "revisionIDPattern rid" "read_manifest m hy rid = Inr mf"
    and "mf_RevisionID mf = rid" "mf_Status mf = RevisionKnownGood"
    and "read_pointer hy Active = Inr rid" "read_pointer hy LastKnownGoodPtr = Inr rid" "read_pointer hy PreviousKnownGoodPtr = Inr ''''"
  shows "returns X (pruneRevisionsLocked m keep) hy () hy"
proof -
  let ?ids = "protected_ids :: pointer list \<Rightarrow> ('x, string list) rev_proc"
  have next_one: "returns X (?ids (p # ps)) hy (if q \<noteq> '''' then q # qs else qs) hy"
    if "read_pointer hy p = Inr q" "returns X (?ids ps) hy qs hy" for p ps q qs
    unfolding protected_ids.simps by (intro returns_seq [OF returns_reads(1) [OF that(1)]] returns_seq [OF that(2)] returns_return)
  have "returns X (?ids []) hy [] hy" by (simp add: returns_return)
  from next_one [OF assms(9) this] have "returns X (?ids [PreviousKnownGoodPtr]) hy [] hy" by simp
  from next_one [OF assms(7) next_one [OF assms(8) this]]
  have protected: "returns X (?ids [Active, LastKnownGoodPtr, PreviousKnownGoodPtr]) hy [rid, rid] hy"
    using revisionIDPattern_plain(1) [OF assms(3)] by simp
  have sorted: "sorted_list_of_fset {|rid|} = [rid]" by (simp add: sorted_list_of_fset.rep_eq)
  have "returns X (collect_known_good m [rid]) hy [mf] hy"
    using returns_try [OF returns_reads(2) [OF assms(3,4)]] assms(6)
    by (auto intro!: returns_try [OF returns_reads(2) [OF assms(3,4)]] returns_seq [OF returns_return] returns_return)
  then have listed: "returns X (KnownGoodRevisions m) hy [mf] hy"
    unfolding KnownGoodRevisions_def Ensure_def
    by (intro returns_seq [OF returns_syscalls] returns_seq [OF returns_syscall]
        returns_seq [OF returns_files [where g = "\<lambda>hy. sorted_list_of_fset (fmdom (hy_revisions hy))"]])
      (auto simp: assms(2) sorted newest_first_def intro!: returns_seq returns_return)
  show ?thesis
    unfolding pruneRevisionsLocked_def
    using assms(1,5) by (auto intro!: returns_seq [OF protected] returns_seq [OF listed] returns_seq [OF returns_return] returns_return
        simp: Let_def simp del: protected_ids.simps)
qed

text \<open>A bootstrap on an empty history: begin, promote.\<close>

lemma manager_defaults_more [simp]:
  "mg_Now (manager_defaults m) = mg_Now m" "parse_content (manager_defaults m) = parse_content m"
  "read_manifest (manager_defaults m) = read_manifest m" "1 \<le> mg_RevisionKeep (manager_defaults m)"
proof -
  show "read_manifest (manager_defaults m) = read_manifest m"
    by (intro ext) (simp only: read_manifest_def manager_defaults_fields)
qed (auto simp: manager_defaults_def defaultRevisionKeep_def fun_eq_iff parse_content_def)

lemma returns_first_free:
  assumes "fmlookup (hy_revisions hy) base = None"
  shows "returns X (first_free_id base (0 # ns)) hy base hy"
  using assms unfolding first_free_id.simps Let_def
  by (auto intro!: returns_seq [OF returns_syscall]
      returns_seq [OF returns_files [where g = "\<lambda>hy. fmlookup (hy_revisions hy) base"]] returns_return)

lemma returns_beginLocked:
  assumes "hy_revisions hy = fmempty" "read_pointer hy Active = Inr ''''" "parse_content m content = Inr cfg"
    and "8 \<le> length (mg_sha256_hex m content)" "\<And>x. x \<in> X \<Longrightarrow> fst (mg_Now m x) = t \<and> snd (mg_Now m x) \<in> X"
    and "rid = ''cfg-'' @ compact_stamp t @ ''-'' @ take 8 (mg_sha256_hex m content)" "revisionIDPattern rid"
  shows "\<exists>hy'. returns X (beginLocked m source content) hy (new_manifest rid t source '''' (mg_sha256_hex m content)) hy'
    \<and> fmdom (hy_revisions hy') = {|rid|} \<and> hy_pointers hy' = hy_pointers hy
    \<and> dir_of hy' rid = \<lparr>rd_config = Some content,
        rd_manifest = Some (mg_encode m (new_manifest rid t source '''' (mg_sha256_hex m content)))\<rparr>"
proof -
  let ?mf = "new_manifest rid t source '''' (mg_sha256_hex m content)"
  let ?hy1 = "put_revision_config rid content (make_dir rid (make_dir rid hy))"
  let ?hy2 = "put_manifest rid (mg_encode m ?mf) (make_dir rid ?hy1)"
  have clock: "returns X (consult (mg_Now m)) hy' t hy'" for hy' by (rule returns_consult) (rule assms(5))
  have "[0..<maxRevisionIDAttempts] = 0 # [1..<maxRevisionIDAttempts]"
    by (simp add: maxRevisionIDAttempts_def upt_conv_Cons)
  then have "returns X (first_free_id rid [0..<maxRevisionIDAttempts]) hy rid hy"
    using returns_first_free [of hy rid X "[1..<maxRevisionIDAttempts]"] assms(1) by simp
  from returns_seq [OF clock, where g = "\<lambda>now. first_free_id
      (''cfg-'' @ compact_stamp now @ ''-'' @ take 8 (mg_sha256_hex m content)) [0..<maxRevisionIDAttempts]",
      OF this [unfolded assms(6)]]
  have rid: "returns X (uniqueRevisionID m (mg_sha256_hex m content)) hy rid hy"
    using assms(4) by (simp add: uniqueRevisionID_def assms(6))
  have "returns X (beginLocked m source content) hy ?mf ?hy2"
    unfolding beginLocked_def assms(3) sum.case Let_def
    by (intro returns_seq [OF rid] returns_seq [OF returns_or_empty [OF returns_reads(1) [OF assms(2)]]]
        returns_seq [OF returns_syscall] returns_seq [OF returns_change] returns_seq [OF returns_writeAtomic]
        returns_seq [OF clock] returns_seq [OF _ returns_return])
      (use returns_writeManifest [of ?mf X m ?hy1] assms(7) in \<open>simp add: new_manifest_def\<close>)
  moreover have "fmdom (hy_revisions ?hy2) = {|rid|}" "hy_pointers ?hy2 = hy_pointers hy"
    using assms(1) by (simp_all add: put_manifest_def put_revision_config_def make_dir_def put_dir_def)
  moreover have "dir_of ?hy2 rid = \<lparr>rd_config = Some content, rd_manifest = Some (mg_encode m ?mf)\<rparr>"
    by simp
  ultimately show ?thesis by blast
qed

lemma returns_promoteLocked:
  assumes "manager_ok m" "mg_RevisionKeep m \<ge> 1" "revisionIDPattern (mf_RevisionID mf)" "fmdom (hy_revisions hy) = {|mf_RevisionID mf|}"
    and none: "read_pointer hy LastKnownGoodPtr = Inr ''''" "read_pointer hy PreviousKnownGoodPtr = Inr ''''"
  shows "\<exists>hy'. returns X (promoteLocked m mf) hy (with_status RevisionKnownGood '''' mf) hy'
    \<and> read_pointer hy' Active = Inr (mf_RevisionID mf) \<and> read_pointer hy' LastKnownGoodPtr = Inr (mf_RevisionID mf)"
proof -
  let ?rid = "mf_RevisionID mf" and ?mf = "with_status RevisionKnownGood '''' mf"
  let ?hy1 = "put_manifest ?rid (mg_encode m ?mf) (make_dir ?rid hy)"
  let ?hy2 = "put_pointer Active (?rid @ [newline]) (put_pointer LastKnownGoodPtr (?rid @ [newline]) ?hy1)"
  have rid: "mf_RevisionID ?mf = ?rid" by (simp add: with_status_def)
  obtain mf' where mf': "mg_decode m (mg_encode m ?mf) = Some mf'" "mf_Status mf' = RevisionKnownGood" "mf_RevisionID mf' = ?rid"
    using manifest_reads_back [OF assms(1), of ?mf] assms(3) rid by (auto simp: with_status_def)
  have "fmdom (hy_revisions ?hy2) = {|?rid|}"
    using assms(4) by (simp add: put_pointer_def put_manifest_def make_dir_def put_dir_def)
  moreover have "read_manifest m ?hy2 ?rid = Inr mf'" by (simp add: read_manifest_put mf'(1))
  moreover have ptr: "read_pointer ?hy2 Active = Inr ?rid" "read_pointer ?hy2 LastKnownGoodPtr = Inr ?rid"
      "read_pointer ?hy2 PreviousKnownGoodPtr = Inr ''''"
    by (simp_all add: read_pointer_put [OF assms(3)] none)
  ultimately have pruned: "returns X (pruneRevisionsLocked m (mg_RevisionKeep m)) ?hy2 () ?hy2"
    using returns_prune_single [OF assms(2)] assms(3) mf'(2,3) by blast
  have "returns X (or_empty (readPointer LastKnownGoodPtr)) ?hy1 '''' ?hy1"
    by (intro returns_or_empty returns_reads(1)) (simp add: none)
  then have "returns X (promoteLocked m mf) hy ?mf ?hy2"
    unfolding promoteLocked_def Let_def rid
    using returns_writeManifest [of ?mf X m hy, unfolded rid, OF assms(3)]
    by (auto intro!: returns_seq returns_writePointer [OF assms(3)] returns_drop_error [OF pruned] returns_return)
  then show ?thesis using ptr by blast
qed

text \<open>Concrete stand-ins for JSON, SHA-256 and YAML: text is stored behind its length in unary.\<close>

definition put_text :: "string \<Rightarrow> string" where
  "put_text s = replicate (length s) (CHR ''1'') @ CHR ''0'' # s"

definition get_text :: "string \<Rightarrow> string \<times> string" where
  "get_text b = (let n = length (takeWhile (\<lambda>c. c = CHR ''1'') b); r = drop (Suc n) b in (take n r, drop n r))"

lemma get_put_text [simp]: "get_text (put_text s @ r) = (s, r)"
proof -
  have "takeWhile (\<lambda>c. c = CHR ''1'') (put_text s @ r) = replicate (length s) (CHR ''1'')"
    by (simp add: put_text_def takeWhile_append)
  then show ?thesis by (simp add: get_text_def Let_def put_text_def)
qed

fun status_text :: "revision_status \<Rightarrow> string" where
  "status_text RevisionCandidate = ''candidate''"
| "status_text RevisionValidating = ''validating''"
| "status_text RevisionKnownGood = ''known-good''"
| "status_text RevisionFailed = ''failed''"
| "status_text RevisionRolledBack = ''rolled-back''"
| "status_text (RevisionOther s) = CHR ''?'' # s"

definition read_status :: "string \<Rightarrow> revision_status" where
  "read_status s =
     (if s = ''candidate'' then RevisionCandidate else if s = ''validating'' then RevisionValidating
      else if s = ''known-good'' then RevisionKnownGood else if s = ''failed'' then RevisionFailed
      else if s = ''rolled-back'' then RevisionRolledBack else RevisionOther (tl s))"

definition demo_encode :: "manifest \<Rightarrow> string" where
  "demo_encode mf = put_text (mf_RevisionID mf) @ put_text (mf_ContentSHA256 mf) @ status_text (mf_Status mf)"

definition demo_decode :: "string \<Rightarrow> manifest option" where
  "demo_decode b =
     (let (rid, r) = get_text b; (hash, st) = get_text r in
      Some \<lparr>mf_RevisionID = rid, mf_CreatedAt = '''', mf_Source = '''', mf_SchemaVersion = 1, mf_ParentRevision = '''',
        mf_Status = read_status st, mf_ContentSHA256 = hash, mf_FailureReason = ''''\<rparr>)"

definition demo_manager :: "unit manager" where
  "demo_manager =
     \<lparr>mg_Probation = 0, mg_HealthInterval = 0, mg_RevisionKeep = 0, mg_Now = (\<lambda>x. (0, x)), mg_Sleep = (\<lambda>_ x. (None, x)),
      mg_sha256_hex = (\<lambda>c. if c = ''good'' then ''0123456789abcdef'' else ''fedcba9876543210''),
      mg_encode = demo_encode, mg_decode = demo_decode,
      mg_yaml = \<lparr>yd_first = (\<lambda>_. Inr demo_valid_config), yd_next = (\<lambda>_. AtEOF)\<rparr>,
      mg_order = (\<lambda>_. [''app'', ''nas'']), mg_config_first = (\<lambda>_. True), mg_error_text = (\<lambda>_. ''failed'')\<rparr>"

definition demo_world :: "history \<Rightarrow> unit rev_world" where
  "demo_world hy = \<lparr>rw_files = hy, rw_seen = [], rw_fault = (\<lambda>_. False), rw_calls = 0, rw_env = ()\<rparr>"

definition demo_rid :: string where "demo_rid = ''cfg-19700101T000000Z-01234567''"

definition demo_start :: history where
  "demo_start = \<lparr>hy_pointers = (\<lambda>_. None), hy_revisions = fmempty, hy_active = Some ''good''\<rparr>"

lemma read_status_text [simp]: "read_status (status_text st) = st"
  by (cases st) (simp_all add: read_status_def)

lemma demo_manager_ok: "manager_ok demo_manager"
  by (simp add: manager_ok_def demo_manager_def demo_encode_def demo_decode_def lower_hex_def is_digit_def)

lemma demo_rid_pattern: "revisionIDPattern demo_rid"
  by (simp add: revisionIDPattern_def demo_rid_def numeral_eq_Suc is_digit_def lower_hex_def Let_def)

lemma demo_stamp: "compact_stamp 0 = ''19700101T000000Z''"
  by code_simp

lemma demo_parses: "\<exists>cfg. parse_content demo_manager c = Inr cfg"
proof -
  have "applyDefaults demo_valid_config = demo_valid_config"
    by (simp add: applyDefaults_def nut_defaults_def health_defaults_def demo_config_defs)
  then show ?thesis using demo_valid by (simp add: parse_content_def Parse_def demo_manager_def Let_def)
qed

text \<open>The history a bootstrap leaves, after which somebody deletes the active configuration file.\<close>

definition demo_history :: history where
  "demo_history = rw_files (snd (BootstrapKnownGood demo_manager ''installer'' ''good'' (demo_world demo_start)))\<lparr>hy_active := None\<rparr>"

lemma demo_bootstrap:
  "hist_run demo_manager demo_history \<and> read_pointer demo_history Active = Inr demo_rid
   \<and> read_pointer demo_history LastKnownGoodPtr = Inr demo_rid"
proof -
  let ?m = "manager_defaults demo_manager" and ?sum = "''0123456789abcdef''"
  let ?mf = "new_manifest demo_rid 0 ''installer'' '''' ?sum"
  obtain cfg where cfg: "parse_content demo_manager ''good'' = Inr cfg" using demo_parses by blast
  have none: "read_pointer demo_start p = Inr ''''" for p by (simp add: read_pointer_def demo_start_def)
  have hash: "mg_sha256_hex ?m ''good'' = ?sum" by (simp add: demo_manager_def)
  obtain hy1 where hy1: "returns UNIV (beginLocked ?m ''installer'' ''good'') demo_start ?mf hy1"
      "fmdom (hy_revisions hy1) = {|demo_rid|}" "hy_pointers hy1 = (\<lambda>_. None)"
    using returns_beginLocked [of demo_start ?m "''good''" cfg UNIV 0 demo_rid "''installer''"] none cfg hash demo_rid_pattern
    by (auto simp: demo_start_def demo_stamp demo_rid_def demo_manager_def)
  obtain mf2 hy2 where hy2: "returns UNIV (promoteLocked ?m ?mf) hy1 mf2 hy2"
      "read_pointer hy2 Active = Inr demo_rid" "read_pointer hy2 LastKnownGoodPtr = Inr demo_rid"
    using returns_promoteLocked [of ?m ?mf hy1 UNIV] demo_manager_ok demo_rid_pattern hy1
    by (auto simp: new_manifest_def read_pointer_def)
  have "returns UNIV (BootstrapKnownGood demo_manager ''installer'' ''good'') demo_start mf2 hy2"
    unfolding BootstrapKnownGood_def Let_def
    by (auto intro!: returns_seq [OF returns_lock] returns_seq [OF returns_reads(1) [OF none]] returns_seq [OF hy1(1)] hy2(1) simp: cfg)
  then obtain w' where w': "BootstrapKnownGood demo_manager ''installer'' ''good'' (demo_world demo_start) = (Inr mf2, w')"
      "rw_files w' = hy2"
    using returnsD [of UNIV _ "demo_world demo_start"] by (fastforce simp: demo_world_def)
  have "hist_run demo_manager (rw_files w')"
    by (rule hist_run.operate [of demo_manager "demo_world demo_start" w'])
      (use w'(1) hist_run.start [of demo_manager "Some ''good''"] manager_op.intros(7) [of demo_manager "demo_world demo_start" "''installer''" "''good''"]
        in \<open>auto simp: demo_world_def demo_start_def\<close>)
  then have "hist_run demo_manager demo_history"
    using hist_run.edit [of demo_manager _ None] w' by (simp add: demo_history_def)
  then show ?thesis using hy2 w' by (simp add: demo_history_def read_pointer_def)
qed

lemma demo_recovers:
  "\<exists>w'. RecoverForStartup demo_manager None False (demo_world demo_history) = (Inr (), w')
     \<and> read_pointer (rw_files w') Active = Inr demo_rid"
proof -
  have "rev_inv demo_manager demo_history" using hist_run_inv demo_bootstrap demo_manager_ok by blast
  moreover have "demo_rid \<noteq> []" by (simp add: demo_rid_def)
  ultimately obtain hy' where "returns UNIV (RecoverForStartup demo_manager None False) (rw_files (demo_world demo_history)) () hy'"
      "read_pointer hy' Active = Inr demo_rid"
    using returns_RecoverForStartup [of demo_manager demo_history demo_rid demo_rid UNIV] demo_bootstrap
    by (auto simp: demo_world_def)
  then show ?thesis using returnsD by (fastforce simp: demo_world_def)
qed


theorem startup_accepts_only_recorded_content_witness:
  "\<exists>w' c q mf. RecoverForStartup demo_manager None False (demo_world demo_history) = (Inr (), w')
     \<and> hy_active (rw_files w') = Some c \<and> read_manifest demo_manager (rw_files w') q = Inr mf \<and> contentMatches demo_manager mf c"
proof -
  obtain w' where w': "RecoverForStartup demo_manager None False (demo_world demo_history) = (Inr (), w')"
      "read_pointer (rw_files w') Active = Inr demo_rid"
    using demo_recovers by blast
  show ?thesis
    using startup_accepts_only_recorded_content [OF w'(1)] w' by (auto simp: demo_rid_def)
qed

text \<open>Claim C33. In every history reached by any use of the manager, with any failing system calls, a crash at any
  point and any edits of the active file: all pointers are readable; the last known-good pointer, once set, names
  a revision that is complete, marked known good, has its recorded hash and parses; and the active pointer, once
  set, names such a revision or one whose transaction is still open.\<close>

theorem history_always_keeps_known_good:
  assumes "manager_ok m" "hist_run m hy"
  shows "(\<forall>p. \<exists>rid. read_pointer hy p = Inr rid)
    \<and> (\<forall>rid. read_pointer hy LastKnownGoodPtr = Inr rid \<longrightarrow> rid \<noteq> '''' \<longrightarrow>
         (\<exists>mf c cfg. read_manifest m hy rid = Inr mf \<and> mf_Status mf = RevisionKnownGood
            \<and> rd_config (dir_of hy rid) = Some c \<and> contentMatches m mf c \<and> parse_content m c = Inr cfg))
    \<and> (\<forall>rid. read_pointer hy Active = Inr rid \<longrightarrow> rid \<noteq> '''' \<longrightarrow>
         (\<exists>mf. read_manifest m hy rid = Inr mf
            \<and> mf_Status mf \<in> {RevisionCandidate, RevisionValidating, RevisionFailed, RevisionKnownGood}))"
proof -
  have inv: "rev_inv m hy" by (rule hist_run_inv [OF assms(2,1)])
  show ?thesis
  proof (intro conjI allI impI)
    show "\<exists>rid. read_pointer hy p = Inr rid" for p by (rule rev_inv_pointersD(1) [OF inv])
  next
    fix rid assume "read_pointer hy LastKnownGoodPtr = Inr rid" "rid \<noteq> ''''"
    then show "\<exists>mf c cfg. read_manifest m hy rid = Inr mf \<and> mf_Status mf = RevisionKnownGood
        \<and> rd_config (dir_of hy rid) = Some c \<and> contentMatches m mf c \<and> parse_content m c = Inr cfg"
      using known_good_runnable [OF inv rev_inv_pointersD(2) [OF inv]] by (auto simp: runnable_def parses_def)
  next
    fix rid assume "read_pointer hy Active = Inr rid" "rid \<noteq> ''''"
    then show "\<exists>mf. read_manifest m hy rid = Inr mf
        \<and> mf_Status mf \<in> {RevisionCandidate, RevisionValidating, RevisionFailed, RevisionKnownGood}"
      using rev_inv_pointersD(3) [OF inv]
      by (fastforce simp: may_be_active_def opened_def known_good_def in_progress_def)
  qed
qed

theorem history_always_keeps_known_good_witness:
  "\<exists>mf c cfg. read_manifest demo_manager demo_history demo_rid = Inr mf \<and> mf_Status mf = RevisionKnownGood
     \<and> rd_config (dir_of demo_history demo_rid) = Some c \<and> contentMatches demo_manager mf c \<and> parse_content demo_manager c = Inr cfg"
proof -
  have "demo_rid \<noteq> ''''" by (simp add: demo_rid_def)
  then show ?thesis
    using history_always_keeps_known_good [OF demo_manager_ok] demo_bootstrap by blast
qed

section \<open>Activation\<close>

text \<open>
  What the probation relies on: the clock never goes back, and a sleep that is not interrupted lasts as long as
  it was asked to.
\<close>

definition clock_moves :: "'x manager \<Rightarrow> 'x runtime \<Rightarrow> ('x \<Rightarrow> instant) \<Rightarrow> bool" where
  "clock_moves m rt clock \<longleftrightarrow>
     (\<forall>x. fst (mg_Now m x) = clock x \<and> clock x \<le> clock (snd (mg_Now m x)))
     \<and> (\<forall>d x. fst (mg_Sleep m d x) = None \<longrightarrow> clock x + d \<le> clock (snd (mg_Sleep m d x)))
     \<and> (\<forall>x. clock x \<le> clock (snd (rt_Healthy rt x)))"

text \<open>No trouble from the runtime, and no interruption.\<close>

definition untroubled :: "'x manager \<Rightarrow> 'x runtime \<Rightarrow> bool" where
  "untroubled m rt \<longleftrightarrow>
     (\<forall>c x. fst (rt_Apply rt c x) = None) \<and> (\<forall>x. fst (rt_Healthy rt x) = None) \<and> (\<forall>d x. fst (mg_Sleep m d x) = None)"

lemma clock_movesD:
  assumes "clock_moves m rt clock"
  shows "mg_Now m x = (now, x') \<Longrightarrow> now = clock x \<and> clock x \<le> clock x'"
    and "mg_Sleep m d x = (None, x') \<Longrightarrow> clock x + d \<le> clock x'"
    and "rt_Healthy rt x = (h, x') \<Longrightarrow> clock x \<le> clock x'"
  using assms unfolding clock_moves_def by (metis fst_conv snd_conv)+

lemma time_Sub_positive: "a < b \<Longrightarrow> 0 < time_Sub b (Some a)"
  by (simp add: time_Sub_def sat64_def)

lemma probation_returns:
  assumes "clock_moves m rt clock" "0 < mg_HealthInterval m"
  shows "\<exists>e x'. probation_loop m rt deadline x = Some (e, x') \<and> (untroubled m rt \<longrightarrow> e = None)"
proof (induction "nat (deadline - clock x)" arbitrary: x rule: less_induct)
  case less
  note moves = clock_movesD [OF assms(1)]
  obtain now x1 where now: "mg_Now m x = (now, x1)" by (cases "mg_Now m x")
  obtain now2 x2 where now2: "mg_Now m x1 = (now2, x2)" by (cases "mg_Now m x1")
  define d where "d = min (mg_HealthInterval m) (time_Sub deadline (Some now2))"
  obtain slept x3 where x3: "(if d > 0 then mg_Sleep m d x2 else (None, x2)) = (slept, x3)"
    by (cases "if d > 0 then mg_Sleep m d x2 else (None, x2)")
  obtain h x4 where x4: "rt_Healthy rt x3 = (h, x4)" by (cases "rt_Healthy rt x3")
  have again: "\<exists>e x'. probation_loop m rt deadline x4 = Some (e, x') \<and> (untroubled m rt \<longrightarrow> e = None)" if "now < deadline" "slept = None"
  proof (cases "d > 0")
    case True
    then have "mg_Sleep m d x2 = (None, x3)" using x3 that(2) by simp
    then have "clock x + 1 \<le> clock x4" using moves(1) [OF now] moves(1) [OF now2] moves(2) moves(3) [OF x4] True by fastforce
    then show ?thesis using less [of x4] that(1) moves(1) [OF now] by simp
  next
    case False
    then have "deadline \<le> now2" using time_Sub_positive [of now2 deadline] assms(2) unfolding d_def by linarith
    then have "deadline \<le> clock x4"
      using False x3 moves(1) [OF now2] moves(3) [OF x4] by simp
    then show ?thesis using less [of x4] that(1) moves(1) [OF now] by simp
  qed
  have quiet_sleep: "untroubled m rt \<Longrightarrow> slept = None"
    using x3 unfolding untroubled_def by (metis fst_conv)
  have quiet_health: "untroubled m rt \<Longrightarrow> h = None"
    using x4 unfolding untroubled_def by (metis fst_conv)
  show ?case
    unfolding probation_loop.simps [of m rt deadline x] Let_def now now2 d_def [symmetric] prod.case x3 x4
    using again quiet_sleep quiet_health by (auto split: option.split)
qed

text \<open>Only the successful path returns a manifest: the one that was read, with another status.\<close>

lemma ensures_refused: "ensures P (rollbackLocked m mf e r) (\<lambda>_ _. False) (\<lambda>_. True)"
    "ensures P (failLocked m mf e) (\<lambda>_ _. False) (\<lambda>_. True)"
  unfolding rollbackLocked_def failLocked_def Let_def
  by (intro ensures_seq [OF ensures_nothing] ensures_if ensures_throw ensures_try [OF ensures_nothing] TrueI)+

lemma ensures_first_trial: "ensures P (first_trial m mf r) (\<lambda>(mf', rt) _. mf' = mf \<and> r = Some rt) (\<lambda>_. True)"
  unfolding first_trial_def
  by (cases r) (auto intro!: ensures_conseq [OF ensures_refused(1)] ensures_try [OF ensures_nothing] ensures_return)

lemma ensures_switch_active:
  "ensures P (switch_active m rid mf content r) (\<lambda>(mf', rt) _. mf_RevisionID mf' = mf_RevisionID mf \<and> r = Some rt) (\<lambda>_. True)"
  unfolding switch_active_def Let_def
  by (intro ensures_try [OF ensures_nothing] ensures_seq [OF ensures_nothing] ensures_conseq [OF ensures_refused(1)]
      ensures_conseq [OF ensures_refused(2)] ensures_conseq [OF ensures_first_trial])
    (auto simp: with_status_def)

lemma activated_manifest:
  assumes "activate_candidate m rid r w = (Inr (mf, rt), w')"
  shows "(\<exists>mf0. read_manifest m (rw_files w) rid = Inr mf0 \<and> mf_RevisionID mf = mf_RevisionID mf0) \<and> r = Some rt"
proof -
  let ?Q = "\<lambda>(mf, rt) _. (\<exists>mf0. read_manifest m (rw_files w) rid = Inr mf0 \<and> mf_RevisionID mf = mf_RevisionID mf0) \<and> r = Some rt"
  have tail: "ensures (\<lambda>hy. hy = rw_files w \<and> read_manifest m hy rid = Inr mf)
      (if mf_Status mf \<noteq> RevisionCandidate \<and> mf_Status mf \<noteq> RevisionValidating
       then throw (NotActivatable rid (mf_Status mf))
       else seqE (readConfig rid) (\<lambda>content.
         if \<not> contentMatches m mf content then failLocked m mf ContentMismatch
         else (case parse_content m content of
                 Inl e \<Rightarrow> failLocked m mf (ConfigRejected e)
               | Inr _ \<Rightarrow> switch_active m rid mf content r))) ?Q (\<lambda>_. True)" for mf
  proof (cases "read_manifest m (rw_files w) rid = Inr mf")
    case True
    show ?thesis
      by (intro ensures_if ensures_throw ensures_seq [OF ensures_nothing] ensures_conseq [OF ensures_refused(2)])
        (auto split: sum.split intro!: ensures_conseq [OF ensures_refused(2)] ensures_conseq [OF ensures_switch_active] simp: True)
  next
    case False
    then show ?thesis by (auto simp: ensures_def)
  qed
  have "ensures (\<lambda>hy. hy = rw_files w) (activate_candidate m rid r) ?Q (\<lambda>_. True)"
    unfolding activate_candidate_def
    by (intro ensures_then [OF ensures_quiet [OF quiet_steps(3)]] ensures_then [OF ensures_reads(2)] tail)
  from ensuresD [OF this refl assms] show ?thesis by simp
qed

lemma activate_pattern: "activate_candidate m rid r w = (Inr p, w') \<Longrightarrow> revisionIDPattern rid"
proof (rule ccontr)
  assume "\<not> revisionIDPattern rid"
  then have "ensures (\<lambda>_. True) (activate_candidate m rid r) (\<lambda>_ _. False) (\<lambda>_. True)"
    unfolding activate_candidate_def readManifest_def ValidateRevisionID_def
    using ensures_nothing [of "\<lambda>_. True" lock] by (simp add: ensures_def)
  moreover assume "activate_candidate m rid r w = (Inr p, w')"
  ultimately show False by (rule ensuresD [OF _ TrueI])
qed

text \<open>Claim C35. On a clock that moves, \<^verbatim>\<open>ActivateAndValidate\<close> comes to an end, whatever system calls fail; started on a
  reachable history it returns a manifest only when the active and the last known-good pointer both name the
  activated revision, which is complete, known good and has the recorded hash.\<close>

theorem activation_ends_and_commits:
  assumes "manager_ok m" "hist_run m (rw_files w)" "rw_seen w = []" "clock_moves m rt clock"
  shows "\<exists>res w'. ActivateAndValidate m rid (Some rt) w = Some (res, w')
    \<and> (\<forall>mf. res = Inr mf \<longrightarrow> read_pointer (rw_files w') Active = Inr rid \<and> read_pointer (rw_files w') LastKnownGoodPtr = Inr rid
        \<and> (\<exists>mf' c. read_manifest m (rw_files w') rid = Inr mf' \<and> mf_Status mf' = RevisionKnownGood
             \<and> rd_config (dir_of (rw_files w') rid) = Some c \<and> contentMatches m mf' c))"
proof -
  let ?m = "manager_defaults m"
  have inv: "rev_inv m (rw_files w)" by (rule hist_run_inv [OF assms(2,1)])
  have ok: "manager_ok ?m" "safe ?m w" using assms(1,3) inv by (simp_all add: safe_def)
  have moves: "clock_moves ?m rt clock" "0 < mg_HealthInterval ?m"
    using assms(4) by (auto simp: clock_moves_def manager_defaults_def Second_def)
  obtain a w1 where a: "activate_candidate ?m rid (Some rt) w = (a, w1)" by (cases "activate_candidate ?m rid (Some rt) w")
  show ?thesis
  proof (cases a)
    case (Inl e)
    then show ?thesis using a by (simp add: ActivateAndValidate_def)
  next
    case (Inr p)
    obtain mf rt1 where p: "p = (mf, rt1)" by (cases p)
    have rt: "rt1 = rt" and mf: "mf_RevisionID mf = rid"
      using activated_manifest [OF a [unfolded Inr p]] rev_inv_pointersD(4) [OF inv] by auto
    have trial: "safe ?m w1" "in_trial ?m mf (rw_files w1)"
      using tripleD [OF triple_activate_candidate [OF ok(1), of rid "Some rt"] ok(2) TrueI] a Inr p by (simp_all add: wp_def)
    obtain now x1 where now: "mg_Now ?m (rw_env w1) = (now, x1)" by (cases "mg_Now ?m (rw_env w1)")
    obtain e x2 where loop: "probation_loop ?m rt (now + mg_Probation ?m) x1 = Some (e, x2)"
      using probation_returns [OF moves] by blast
    have promoted: "settled rid (rw_files w') \<and> safe ?m w'"
      if "promoteLocked ?m mf (w1\<lparr>rw_env := x2\<rparr>) = (Inr mf', w')" for mf' w'
    proof -
      have "safe ?m (w1\<lparr>rw_env := x2\<rparr>)" "in_trial ?m mf (rw_files (w1\<lparr>rw_env := x2\<rparr>))" using trial by (simp_all add: safe_def)
      from tripleD [OF triple_promoteLocked [OF ok(1)] this] show ?thesis unfolding wp_def that mf by simp
    qed
    have refused: "fst (rollbackLocked ?m mf e (Some rt) w2 :: (rev_error + manifest) \<times> _) \<noteq> Inr mf'" for e w2 mf'
      using ensuresD [OF ensures_refused(1) TrueI] by (metis prod.collapse)
    have committed: "read_pointer hy Active = Inr rid \<and> read_pointer hy LastKnownGoodPtr = Inr rid
        \<and> (\<exists>mf' c. read_manifest m hy rid = Inr mf' \<and> mf_Status mf' = RevisionKnownGood
             \<and> rd_config (dir_of hy rid) = Some c \<and> contentMatches m mf' c)" if "settled rid hy" "rev_inv m hy" for hy
    proof -
      have "rid \<noteq> ''''" using revisionIDPattern_plain(1) [OF activate_pattern] a Inr by blast
      then show ?thesis
        using known_good_runnable [OF that(2) rev_inv_pointersD(2) [OF that(2)]] that(1) by (auto simp: settled_def runnable_def)
    qed
    show ?thesis
    proof (cases e)
      case None
      obtain res w' where "promoteLocked ?m mf (w1\<lparr>rw_env := x2\<rparr>) = (res, w')" by (cases "promoteLocked ?m mf (w1\<lparr>rw_env := x2\<rparr>)")
      then show ?thesis using promoted committed a Inr p rt now loop None by (auto simp: ActivateAndValidate_def safe_def)
    next
      case (Some err)
      obtain res w' where "(rollbackLocked ?m mf err (Some rt) (w1\<lparr>rw_env := x2\<rparr>) :: (rev_error + manifest) \<times> _) = (res, w')"
        by (cases "rollbackLocked ?m mf err (Some rt) (w1\<lparr>rw_env := x2\<rparr>) :: (rev_error + manifest) \<times> _")
      then show ?thesis using refused [of err "w1\<lparr>rw_env := x2\<rparr>"] a Inr p rt now loop Some by (auto simp: ActivateAndValidate_def)
    qed
  qed
qed

definition still :: "'x set \<Rightarrow> 'x runtime \<Rightarrow> bool" where
  "still X rt \<longleftrightarrow> (\<forall>x\<in>X. (\<forall>c. fst (rt_Apply rt c x) = None \<and> snd (rt_Apply rt c x) \<in> X)
     \<and> fst (rt_Healthy rt x) = None \<and> snd (rt_Healthy rt x) \<in> X)"

lemma returns_trial:
  assumes "still X rt"
  shows "returns X (apply_runtime rt) hy () hy" "returns X (healthy_runtime rt) hy () hy"
proof -
  show "returns X (apply_runtime rt) hy () hy"
    unfolding apply_runtime_def
    by (intro returns_seq [OF returns_files [where g = hy_active]] returns_seq [OF returns_consult [where y = None]])
      (use assms in \<open>auto simp: still_def lift_text_def returns_return\<close>)
  show "returns X (healthy_runtime rt) hy () hy"
    unfolding healthy_runtime_def
    by (intro returns_seq [OF returns_consult [where y = None]])
      (use assms in \<open>auto simp: still_def lift_text_def returns_return\<close>)
qed

lemma returns_activate:
  assumes "manager_ok m" "still X rt" "revisionIDPattern rid" "fmdom (hy_revisions hy) = {|rid|}"
    and "read_manifest m hy rid = Inr mf" "mf_Status mf = RevisionCandidate" "mf_RevisionID mf = rid"
    and "rd_config (dir_of hy rid) = Some content" "contentMatches m mf content" "parse_content m content = Inr cfg"
  shows "\<exists>hy'. returns X (activate_candidate m rid (Some rt)) hy (with_status RevisionValidating '''' mf, rt) hy'
    \<and> fmdom (hy_revisions hy') = {|rid|} \<and> (\<forall>p. p \<noteq> Active \<longrightarrow> read_pointer hy' p = read_pointer hy p)"
proof -
  let ?mf = "with_status RevisionValidating '''' mf"
  let ?hy1 = "put_pointer Active (rid @ [newline]) (put_active content hy)"
  let ?hy2 = "put_manifest rid (mg_encode m ?mf) (make_dir rid ?hy1)"
  have trial: "returns X (first_trial m ?mf (Some rt)) ?hy2 (?mf, rt) ?hy2"
    unfolding first_trial_def option.case
    by (intro returns_try [OF returns_trial(1) [OF assms(2)]] returns_try [OF returns_trial(2) [OF assms(2)]] returns_return)
  have "returns X (writeManifest m ?mf) ?hy1 () ?hy2"
    using returns_writeManifest [of ?mf X m ?hy1] assms(3,7) by (simp add: with_status_def)
  from returns_seq [OF this, where g = "\<lambda>_. first_trial m ?mf (Some rt)", OF trial]
  have "returns X (switch_active m rid mf content (Some rt)) hy (?mf, rt) ?hy2"
    unfolding switch_active_def Let_def
    by (intro returns_try [OF returns_writeActive] returns_try [OF returns_writePointer [OF assms(3)]])
  then have "returns X (activate_candidate m rid (Some rt)) hy (?mf, rt) ?hy2"
    unfolding activate_candidate_def
    by (intro returns_seq [OF returns_lock] returns_seq [OF returns_reads(2) [OF assms(3,5)]])
      (use assms(6,9,10) in \<open>auto intro!: returns_seq [OF returns_reads(3) [OF assms(8)]]\<close>)
  moreover have "fmdom (hy_revisions ?hy2) = {|rid|}"
    using assms(4) by (simp add: put_manifest_def make_dir_def put_dir_def put_pointer_def put_active_def)
  moreover have "read_pointer ?hy2 p = read_pointer hy p" if "p \<noteq> Active" for p
    using that assms(3) by (simp add: read_pointer_put)
  ultimately show ?thesis by blast
qed

text \<open>A runtime that is always healthy, on a clock that sleeping advances.\<close>

definition ticking_manager :: "int manager" where
  "ticking_manager =
     \<lparr>mg_Probation = 3 * Second, mg_HealthInterval = 2 * Second, mg_RevisionKeep = 0, mg_Now = (\<lambda>t. (t, t)),
      mg_Sleep = (\<lambda>d t. (None, t + d)), mg_sha256_hex = mg_sha256_hex demo_manager,
      mg_encode = demo_encode, mg_decode = demo_decode, mg_yaml = mg_yaml demo_manager,
      mg_order = mg_order demo_manager, mg_config_first = (\<lambda>_. True), mg_error_text = (\<lambda>_. ''failed'')\<rparr>"

definition healthy_demo :: "int runtime" where
  "healthy_demo = \<lparr>rt_Apply = (\<lambda>_ t. (None, t)), rt_Healthy = (\<lambda>t. (None, t))\<rparr>"

definition ticking_world :: "int rev_world" where
  "ticking_world = \<lparr>rw_files = demo_start, rw_seen = [], rw_fault = (\<lambda>_. False), rw_calls = 0, rw_env = 0\<rparr>"

definition candidate_world :: "int rev_world" where
  "candidate_world = (snd (Begin ticking_manager ''cli'' ''good'' ticking_world))\<lparr>rw_seen := []\<rparr>"

lemma ticking_manager_ok: "manager_ok ticking_manager"
  using demo_manager_ok by (simp add: manager_ok_def ticking_manager_def demo_manager_def)

lemma ticking_same:
  "mg_sha256_hex ticking_manager = mg_sha256_hex demo_manager" "parse_content ticking_manager = parse_content demo_manager"
  "contentMatches (manager_defaults ticking_manager) = contentMatches demo_manager"
  by (simp_all add: fun_eq_iff ticking_manager_def parse_content_def contentMatches_def manager_defaults_def)

lemma ticking_untroubled:
  "untroubled (manager_defaults ticking_manager) healthy_demo" "clock_moves ticking_manager healthy_demo id"
  by (simp_all add: untroubled_def clock_moves_def healthy_demo_def ticking_manager_def manager_defaults_def)

lemma ticking_run: "hist_run ticking_manager (rw_files candidate_world)"
proof -
  have "hist_run ticking_manager demo_start" using hist_run.start [of ticking_manager "Some ''good''"] by (simp add: demo_start_def)
  then show ?thesis
    using hist_run.operate [OF _ _ manager_op.intros(1) [of ticking_manager ticking_world "''cli''" "''good''"]]
    by (simp add: candidate_world_def ticking_world_def)
qed

lemma ticking_activation:
  "\<exists>mf w'. ActivateAndValidate ticking_manager demo_rid (Some healthy_demo) candidate_world = Some (Inr mf, w')"
proof -
  let ?m = "manager_defaults ticking_manager" and ?sum = "''0123456789abcdef''"
  obtain cfg where cfg: "parse_content ticking_manager ''good'' = Inr cfg" using demo_parses by (auto simp: ticking_same)
  have none: "read_pointer demo_start p = Inr ''''" for p by (simp add: read_pointer_def demo_start_def)
  have hash: "mg_sha256_hex ?m ''good'' = ?sum" by (simp add: ticking_same demo_manager_def)
  let ?mf = "new_manifest demo_rid 0 ''cli'' '''' ?sum"
  obtain hy1 where hy1: "returns {0} (beginLocked ?m ''cli'' ''good'') demo_start ?mf hy1" "fmdom (hy_revisions hy1) = {|demo_rid|}"
      "hy_pointers hy1 = hy_pointers demo_start" "dir_of hy1 demo_rid = \<lparr>rd_config = Some ''good'', rd_manifest = Some (mg_encode ?m ?mf)\<rparr>"
    using returns_beginLocked [of demo_start ?m "''good''" cfg "{0}" 0 demo_rid "''cli''"] none cfg hash demo_rid_pattern
    by (auto simp: demo_start_def demo_stamp demo_rid_def ticking_manager_def)
  have "returns {0} (Begin ticking_manager ''cli'' ''good'') demo_start ?mf hy1"
    unfolding Begin_def by (intro returns_seq [OF returns_lock] hy1(1))
  then have begun: "rw_files candidate_world = hy1" "calm {0} candidate_world"
    using returnsD [of "{0}" _ ticking_world] by (fastforce simp: candidate_world_def ticking_world_def calm_def)+
  obtain mf where mf: "read_manifest ?m hy1 demo_rid = Inr mf" "mf_Status mf = RevisionCandidate" "mf_RevisionID mf = demo_rid"
      "mf_ContentSHA256 mf = ?sum"
    using hy1(4) by (simp add: read_manifest_def ticking_manager_def demo_encode_def demo_decode_def new_manifest_def manager_defaults_def read_status_def)
  have "contentMatches ?m mf ''good''" using mf(4) hash by (simp add: contentMatches_def)
  then obtain hy2 where hy2: "returns {0} (activate_candidate ?m demo_rid (Some healthy_demo)) hy1
      (with_status RevisionValidating '''' mf, healthy_demo) hy2" "fmdom (hy_revisions hy2) = {|demo_rid|}"
      "\<forall>p. p \<noteq> Active \<longrightarrow> read_pointer hy2 p = read_pointer hy1 p"
    using returns_activate [of ?m "{0}" healthy_demo demo_rid hy1 mf "''good''" cfg] ticking_manager_ok demo_rid_pattern hy1 mf cfg
    by (auto simp: still_def healthy_demo_def)
  obtain w1 where w1: "activate_candidate ?m demo_rid (Some healthy_demo) candidate_world
      = (Inr (with_status RevisionValidating '''' mf, healthy_demo), w1)" "rw_files w1 = hy2" "calm {0} w1"
    using returnsD [of "{0}" _ candidate_world] hy2(1) begun by (fastforce simp: calm_def)
  have "read_pointer hy2 p = Inr ''''" if "p \<noteq> Active" for p
    using that hy2(3) hy1(3) none [of p] by (simp add: read_pointer_def)
  then obtain mf3 hy3 where "returns UNIV (promoteLocked ?m (with_status RevisionValidating '''' mf)) hy2 mf3 hy3"
    using returns_promoteLocked [of ?m "with_status RevisionValidating '''' mf" hy2 UNIV] ticking_manager_ok demo_rid_pattern mf(3) hy2(2)
    by (auto simp: with_status_def)
  then have promoted: "\<exists>w'. promoteLocked ?m (with_status RevisionValidating '''' mf) (w1\<lparr>rw_env := x\<rparr>) = (Inr mf3, w')" for x
    using returnsD [of UNIV _ "w1\<lparr>rw_env := x\<rparr>"] w1(2,3) by (fastforce simp: calm_def)
  have now: "mg_Now ticking_manager t = (t, t)" for t by (simp add: ticking_manager_def)
  have moves: "clock_moves ?m healthy_demo id" "0 < mg_HealthInterval ?m"
    using ticking_untroubled(2) by (simp_all add: clock_moves_def manager_defaults_def ticking_manager_def Second_def)
  obtain x2 where "probation_loop ?m healthy_demo (0 + mg_Probation ?m) 0 = Some (None, x2)"
    using probation_returns [OF moves, of "0 + mg_Probation ?m" 0] ticking_untroubled(1) by auto
  then show ?thesis
    using w1 promoted [of x2] now by (auto simp: ActivateAndValidate_def calm_def)
qed

theorem activation_ends_and_commits_witness:
  "\<exists>mf w'. ActivateAndValidate ticking_manager demo_rid (Some healthy_demo) candidate_world = Some (Inr mf, w')
     \<and> read_pointer (rw_files w') Active = Inr demo_rid \<and> read_pointer (rw_files w') LastKnownGoodPtr = Inr demo_rid"
proof -
  have "rw_seen candidate_world = []" by (simp add: candidate_world_def)
  then show ?thesis
    using activation_ends_and_commits [OF ticking_manager_ok ticking_run _ ticking_untroubled(2), of demo_rid] ticking_activation
    by auto
qed

end
