(* ===== verification/Wake_Gates.thy ===== *)
theory Wake_Gates
  imports Orchestrator_Props
begin

text \<open>
  No wake without live gates: a tick of the controller whose observation does not pass the gates of the policy
  engine sends no wake packet. A transaction that is not in \<^verbatim>\<open>RESTORE_HOSTS\<close> stays out of it through every operation
  of the outage and shutdown phases, and only that state reaches the waker.
\<close>

section \<open>The gates of a step\<close>

definition gates_open :: "inputs \<Rightarrow> bool" where
  "gates_open inp \<longleftrightarrow> safe_sample inp \<and> in_HealthSafe inp \<and> in_NetworkReady inp"

lemma Step_starts_restore:
  assumes "fst (Step now inp e) = Inr d" "d_Action d = ActionStartRestore"
  shows "st_PowerState (eng_st (snd (Step now inp e))) = RestoreHosts"
proof (cases "st_PowerState (eng_st e) \<in> {ShutdownInProgress, ShutdownCommitted}")
  case True
  then show ?thesis using assms by (auto simp: Step_def split: if_splits)
next
  case False
  then show ?thesis using Step_leads [OF assms(1)] assms(2) by (simp add: leads_def)
qed

section \<open>Phases without wakes\<close>

definition no_wakes :: "event list \<Rightarrow> bool" where
  "no_wakes tr \<longleftrightarrow> list_all (\<lambda>ev. command_of ev \<noteq> Wake_Command) tr"

text \<open>Not restoring, and no wake since the trace had length \<open>n\<close>.\<close>

definition dormant :: "nat \<Rightarrow> ('w, 'x) controller \<Rightarrow> bool" where
  "dormant n c \<longleftrightarrow> st_PowerState (ctl_state c) \<noteq> RestoreHosts \<and> no_wakes (drop n (ct_trace c)) \<and> n \<le> length (ct_trace c)"

lemma dormant_frame [simp]:
  "dormant n (c\<lparr>ct_env := x\<rparr>) = dormant n c"
  "dormant n (c\<lparr>ct_nutFSDTransactionID := tx\<rparr>) = dormant n c"
  "dormant n (c\<lparr>ct_nutFSDNextAttempt := g\<rparr>) = dormant n c"
  "dormant n (c\<lparr>ct_lastRecoveryWakeAt := g\<rparr>) = dormant n c"
  "dormant n (c\<lparr>ct_lastRecoveryWakeHostID := tx\<rparr>) = dormant n c"
  "dormant n (c\<lparr>ct_resumeWakeDelayEvaluated := b\<rparr>) = dormant n c"
  by (simp_all add: dormant_def)

lemma dormant_event: "dormant n c \<Longrightarrow> command_of ev \<noteq> Wake_Command \<Longrightarrow> dormant n (c\<lparr>ct_trace := ct_trace c @ [ev]\<rparr>)"
  by (simp add: dormant_def no_wakes_def)

context durable_ctl
begin

lemma dormant_write:
  assumes "dormant n c" "st_PowerState st \<noteq> RestoreHosts"
    and "\<And>st' s. dormant n s \<Longrightarrow> Q st' s" "\<And>e s. dormant n s \<Longrightarrow> E e s"
  shows "wp (policy_write su st) Q E c"
proof (rule wp_policy_write [OF put])
  fix st' :: power_txn and p :: "'w coordinator"
  assume "txn_content st' = txn_content st" "Coordinator_State p = st'"
  then show "Q st' (c\<lparr>ct_policy := p, ct_persisted := Some st'\<rparr>)"
    using assms(1,2) txn_contentD [of st' st] by (intro assms(3)) (simp add: dormant_def)
next
  fix e and p :: "'w coordinator"
  assume "co_engine p = co_engine (ct_policy c)"
  then show "E (PolicyFailed e) (c\<lparr>ct_policy := p\<rparr>)"
    using assms(1) by (intro assms(4)) (simp add: dormant_def ctl_state_def Coordinator_State_def)
qed

lemma dormant_persist:
  assumes "dormant n c" "\<And>s. dormant n s \<Longrightarrow> Q () s" "\<And>e s. dormant n s \<Longrightarrow> E e s"
  shows "wp (persistHost su hid hs) Q E c"
proof -
  have "st_PowerState (put_host hid hs (cloneState (ctl_state c))) \<noteq> RestoreHosts"
    using assms(1) by (simp add: dormant_def put_host_def)
  then show ?thesis
    unfolding persistHost_def wp_seqE wp_getS wp_return by (rule dormant_write [OF assms(1)]) (simp_all add: assms)
qed

lemma dormant_decide:
  assumes "dormant n c" "st_PowerState (eng_st e') \<noteq> RestoreHosts"
    and "\<And>s. dormant n s \<Longrightarrow> Q d s" "\<And>e s. dormant n s \<Longrightarrow> E e s"
  shows "wp (policy_decide (\<lambda>p. commit_decision (su_put su) (ctl_state c) d e' p)) Q E c"
proof -
  obtain r w' where p: "su_put su (co_store (ct_policy c)) (eng_st e') = (r, w')" by fastforce
  show ?thesis
  proof (cases r)
    case (Inl err)
    then show ?thesis
      using p assms by (simp add: wp_def policy_decide_def commit_decision_def dormant_def Coordinator_State_def)
  next
    case (Inr st)
    then have "txn_content st = txn_content (eng_st e')"
      using preserves_contentD [OF put] p by simp
    then have "st_PowerState st \<noteq> RestoreHosts" using txn_contentD(1) [of st "eng_st e'"] assms(2) by simp
    then show ?thesis
      using Inr p assms by (simp add: wp_def policy_decide_def commit_decision_def dormant_def Coordinator_State_def)
  qed
qed

lemma dormant_phase_complete:
  assumes "dormant n c"
  shows "wp (phase_complete su) (\<lambda>_. dormant n) (\<lambda>_. dormant n) c"
proof -
  let ?m = "MarkShutdownPhaseComplete (co_engine (ct_policy c))"
  have "st_PowerState (eng_st (snd ?m)) \<noteq> RestoreHosts"
    using assms by (auto simp: MarkShutdownPhaseComplete_def dormant_def ctl_state_def Coordinator_State_def)
  then have "wp (policy_decide (commit_decision (su_put su) (ctl_state c) (fst ?m) (snd ?m))) (\<lambda>_. dormant n) (\<lambda>_. dormant n) c"
    by (rule dormant_decide [OF assms])
  then show ?thesis
    by (simp add: phase_complete_def wp_def policy_decide_def Coordinator_MarkShutdownPhaseComplete_def ctl_state_def
        split_def Let_def)
qed


lemmas dormant_rules = wp_ask wp_draw dormant_persist dormant_event

lemma dormant_failed_safe:
  assumes "dormant n c" "\<And>s. dormant n s \<Longrightarrow> Q () s" "\<And>e s. dormant n s \<Longrightarrow> E e s"
  shows "wp (enterShutdownFailedSafe su hid hs reason) Q E c"
  unfolding enterShutdownFailedSafe_def wp_seqE wp_getS wp_return
  by (rule dormant_write [OF assms(1)]) (simp_all add: assms)

lemma dormant_await_offline: "dormant n c \<Longrightarrow> wp (await_offline su pb h) (\<lambda>_. dormant n) (\<lambda>_. dormant n) c"
  by (auto simp: await_offline_def split: sum.split intro!: dormant_rules)

lemma dormant_direct_result: "dormant n c \<Longrightarrow> wp (direct_result su pb h r) (\<lambda>_. dormant n) (\<lambda>_. dormant n) c"
  by (auto simp: direct_result_def Let_def split: sum.split shutdown_disposition.split
      intro!: dormant_rules dormant_failed_safe dormant_await_offline)

lemma dormant_attempt_direct:
  assumes "dormant n c"
  shows "wp (attempt_direct su pb sd h tx hs) (\<lambda>_. dormant n) (\<lambda>_. dormant n) c"
proof -
  have "wp (seqE (record_event (EvShutdown hid)) (\<lambda>_. seqE (ask (sd h)) (direct_result su pb h))) (\<lambda>_. dormant n) (\<lambda>_. dormant n) s"
    if "dormant n s" for s hid
    using dormant_event [OF that, of "EvShutdown hid (ct_persisted s)"] by (auto intro!: wp_ask dormant_direct_result)
  then show ?thesis
    using assms unfolding attempt_direct_def Let_def
    by (intro wp_if) (auto intro!: dormant_failed_safe dormant_persist simp del: wp_record_event)
qed

lemma dormant_reconcile_direct: "dormant n c \<Longrightarrow> wp (reconcile_direct su pb sd h tx hs) (\<lambda>_. dormant n) (\<lambda>_. dormant n) c"
  by (auto simp: reconcile_direct_def Let_def split: sum.split intro!: dormant_rules dormant_attempt_direct)

lemma dormant_settleDirect: "dormant n c \<Longrightarrow> wp (settleDirect su pb sd h) (\<lambda>_. dormant n) (\<lambda>_. dormant n) c"
  by (auto simp: settleDirect_def Let_def intro!: dormant_failed_safe dormant_attempt_direct dormant_reconcile_direct)

lemma dormant_settle_all: "dormant n c \<Longrightarrow> wp (settle_all su pb sd ids) (\<lambda>_. dormant n) (\<lambda>_. dormant n) c"
proof (induction ids arbitrary: c)
  case (Cons hid ids)
  show ?case
    unfolding settle_all.simps wp_tryE
    by (rule wp_conseq [OF dormant_settleDirect [OF Cons.prems]]) (simp_all add: Cons.IH)
qed simp

lemma dormant_join:
  assumes "dormant n c" "\<And>hid s. dormant n s \<Longrightarrow> wp (f hid) (\<lambda>_. dormant n) (\<lambda>_. dormant n) s"
  shows "wp (raise_joined (forJoin ids f)) (\<lambda>_. dormant n) (\<lambda>_. dormant n) c"
  unfolding wp_raise_joined by (rule wp_conseq [OF wp_forJoin [OF assms]]) (simp_all split: if_split)

lemma dormant_prepare: "dormant n c \<Longrightarrow> wp (prepareNUTGroup su pb ids) (\<lambda>_. dormant n) (\<lambda>_. dormant n) c"
  unfolding prepareNUTGroup_def
  by (rule wp_forE [where I = "\<lambda>_. dormant n"]) (auto simp: Let_def split: sum.split intro!: dormant_rules)

lemma dormant_marks:
  assumes "dormant n c"
  shows "wp (markNUTRequested su ids) (\<lambda>_. dormant n) (\<lambda>_. dormant n) c"
    and "wp (markNUTAcknowledged su ids) (\<lambda>_. dormant n) (\<lambda>_. dormant n) c"
    and "wp (markNUTError su ids cause) (\<lambda>_. dormant n) (\<lambda>_. dormant n) c"
    and "wp (verifyNUTGroup su pb ids) (\<lambda>_. dormant n) (\<lambda>_. dormant n) c"
  unfolding markNUTRequested_def markNUTAcknowledged_def markNUTError_def verifyNUTGroup_def
  by (rule dormant_join [OF assms], auto simp: Let_def split: sum.split intro!: dormant_rules)+

lemma dormant_group_failed_safe:
  assumes "dormant n c"
  shows "wp (enterNUTGroupFailedSafe su ids reason) (\<lambda>_. dormant n) (\<lambda>_. dormant n) c"
  unfolding enterNUTGroupFailedSafe_def wp_seqE wp_getS wp_return
  by (rule dormant_write [OF assms]) simp_all

lemma dormant_request_fsd:
  assumes "dormant n c"
  shows "wp (request_group_fsd su pb fsd now ids tx attempt) (\<lambda>_. dormant n) (\<lambda>_. dormant n) c"
proof -
  have acknowledged: "wp (seqE (clearNUTFSDRetry tx) (\<lambda>_. seqE (markNUTAcknowledged su ids) (\<lambda>_.
      seqE (verifyNUTGroup su pb ids) (\<lambda>_. phase_complete su)))) (\<lambda>_. dormant n) (\<lambda>_. dormant n) s" if "dormant n s" for s
    using that by (auto simp: clearNUTFSDRetry_def intro!: wp_conseq [OF dormant_marks(2)] wp_conseq [OF dormant_marks(4)]
        dormant_phase_complete)
  have failed: "wp (tryE (markNUTError su ids err) (\<lambda>e. throw (Joined [Message err, e])) (\<lambda>_. scheduleNUTFSDRetry now tx attempt))
      (\<lambda>_. dormant n) (\<lambda>_. dormant n) s" if "dormant n s" for s err
    using that by (auto simp: scheduleNUTFSDRetry_def intro!: wp_conseq [OF dormant_marks(3)])
  have sent: "dormant n (s\<lparr>ct_trace := ct_trace s @ [EvFSD ups p]\<rparr>)" if "dormant n s" for s ups p
    using dormant_event [OF that] by simp
  show ?thesis
    unfolding request_group_fsd_def Let_def wp_seqE [of "markNUTRequested su ids"]
    by (rule wp_conseq [OF dormant_marks(1) [OF assms]])
      (auto simp: sent simp del: wp_seqE wp_tryE intro!: acknowledged failed wp_ask split: sum.split
        simp: wp_seqE [of "record_event ev" for ev] wp_seqE [of "ask f" for f])
qed

lemma dormant_nut_group: "dormant n c \<Longrightarrow> wp (shutdown_nut_group su pb now ids) (\<lambda>_. dormant n) (\<lambda>_. dormant n) c"
  by (auto simp: shutdown_nut_group_def shouldAttemptNUTFSD_def split: option.split
      intro!: wp_conseq [OF dormant_prepare] dormant_group_failed_safe dormant_request_fsd)

lemma dormant_executeShutdown: "dormant n c \<Longrightarrow> wp (executeShutdown su now) (\<lambda>_. dormant n) (\<lambda>_. dormant n) c"
  by (auto simp: executeShutdown_def Let_def split: option.split
      intro!: wp_conseq [OF dormant_settle_all] dormant_nut_group dormant_phase_complete)

lemma dormant_snapshot:
  assumes "dormant n c"
  shows "wp (snapshotHosts su ok) (\<lambda>_. dormant n) (\<lambda>_. dormant n) c"
proof -
  have loop: "wp (snapshot_loop pb ok hosts st) (\<lambda>st' s. dormant n s \<and> st_PowerState st' \<noteq> RestoreHosts) E s"
    if "dormant n s" "st_PowerState st \<noteq> RestoreHosts" for pb hosts st s E
    using that by (induction hosts arbitrary: st s) (auto simp: Let_def put_host_def intro!: wp_ask)
  have "wp (snapshot_loop pb ok hosts (cloneState (ctl_state c))) (\<lambda>st'. wp (policy_write su st') (\<lambda>_. dormant n) (\<lambda>_. dormant n))
      (\<lambda>_. dormant n) c" for pb hosts
    using assms by (intro wp_conseq [OF loop]) (auto simp: dormant_def [of n c] intro: dormant_write)
  then show ?thesis
    using assms by (auto simp: snapshotHosts_def split: option.split)
qed

lemma dormant_fresh_outage:
  assumes "dormant n c"
  shows "wp (beginFreshOutage su) (\<lambda>_. dormant n) (\<lambda>_. dormant n) c"
proof -
  have "wp (policy_write su (fresh_outage st)) (\<lambda>_. wp (snapshotHosts su True) (\<lambda>_. dormant n) (\<lambda>_. dormant n)) (\<lambda>_. dormant n) s"
    if "dormant n s" "st_PowerState st \<noteq> RestoreHosts" for st s
    using that by (intro dormant_write dormant_snapshot) (simp_all add: fresh_outage_def)
  then show ?thesis
    using assms
    by (auto simp: beginFreshOutage_def resetRecoveryWakeDelay_def dormant_def [of n c] split: option.split intro!: wp_draw)
qed

lemma policy_step_trace: "ct_trace (snd (policy_step su now inp c)) = ct_trace c"
  by (simp add: policy_step_def policy_decide_def split: prod.split sum.split)

lemma policy_step_success:
  assumes "policy_step su now inp c = (Inr d, c')"
  shows "fst (Step now inp (co_engine (ct_policy c))) = Inr d
    \<and> st_PowerState (ctl_state c') = st_PowerState (eng_st (snd (Step now inp (co_engine (ct_policy c)))))"
proof -
  obtain p where p: "Coordinator_Step (su_put su) now inp (ct_policy c) = (Inr d, p)" "ctl_state c' = Coordinator_State p"
    using assms by (auto simp: policy_step_def policy_decide_def split: prod.splits sum.splits)
  have "st_PowerState st = st_PowerState st'" if "su_put su w st' = (Inr st, w')" for w w' st st'
    using preserves_contentD [OF put that] by (rule txn_contentD(1))
  then show ?thesis
    using p
    by (auto simp: Coordinator_Step_def commit_decision_def Coordinator_State_def Let_def split: prod.splits sum.splits if_splits)
qed

text \<open>Without open gates a successful step leaves the controller outside \<^verbatim>\<open>RESTORE_HOSTS\<close>.\<close>

lemma closed_policy_step:
  assumes "no_wakes (drop n (ct_trace c))" "n \<le> length (ct_trace c)" "\<not> gates_open inp"
  shows "wp (policy_step su now inp) (\<lambda>d s. dormant n s \<and> d_Action d \<noteq> ActionStartRestore)
    (\<lambda>_ s. no_wakes (drop n (ct_trace s))) c"
proof -
  let ?e = "co_engine (ct_policy c)"
  obtain r c' where s: "policy_step su now inp c = (r, c')" by fastforce
  have tr: "ct_trace c' = ct_trace c" using policy_step_trace [of now inp c] s by simp
  have closed: "st_PowerState (eng_st (snd (Step now inp ?e))) \<noteq> RestoreHosts"
    using Step_restores [of now inp ?e] assms(3) by (auto simp: gates_open_def)
  show ?thesis
  proof (cases r)
    case (Inr d)
    then have "fst (Step now inp ?e) = Inr d" "st_PowerState (ctl_state c') \<noteq> RestoreHosts"
      using policy_step_success [of now inp c d c'] s closed by simp_all
    moreover from this(1) have "d_Action d \<noteq> ActionStartRestore" using Step_starts_restore closed by blast
    ultimately show ?thesis using Inr s tr assms by (simp add: wp_def dormant_def)
  qed (use s tr assms in \<open>simp add: wp_def\<close>)
qed

lemma dormant_tick_phase:
  assumes "dormant n c"
  shows "wp (tick_phase su now d) (\<lambda>_. dormant n) (\<lambda>_. dormant n) c"
proof -
  have "st_PowerState (ctl_state s) \<noteq> RestoreHosts" if "dormant n s" for s
    using that by (simp add: dormant_def)
  then show ?thesis
    using assms by (auto simp: tick_phase_def intro!: wp_conseq [OF dormant_executeShutdown])
qed

lemma closed_tick:
  assumes "n = length (ct_trace c)" "\<not> gates_open inp"
  shows "no_wakes (drop n (ct_trace (snd (Tick su now inp c))))"
proof -
  let ?N = "\<lambda>_ s. no_wakes (drop n (ct_trace s))"
  have N: "?N x s" if "dormant n s" for x s using that by (simp add: dormant_def)
  have rest: "wp (case d_Action d of
       ActionCommitShutdown \<Rightarrow>
         seqE (policy_step su now inp) (\<lambda>_.
         seqE (executeShutdown su now) (\<lambda>_. tick_phase su now d))
     | ActionStartRestore \<Rightarrow>
         seqE (executeRecoveryStep su now) (\<lambda>_. tick_phase su now d)
     | ActionStopRecovery \<Rightarrow>
         seqE (getS (\<lambda>c. st_PowerState (ctl_state c))) (\<lambda>ps.
         seqE (if ps = OnBattery then beginFreshOutage su else return ()) (\<lambda>_.
         return d))
     | _ \<Rightarrow> tick_phase su now d) ?N ?N s" if "dormant n s" "d_Action d \<noteq> ActionStartRestore" for d s
  proof -
    have phase: "wp (tick_phase su now d) ?N ?N s" if "dormant n s" for s
      by (rule wp_conseq [OF dormant_tick_phase [OF that] N N])
    have step: "wp (policy_step su now inp) (\<lambda>d s. dormant n s \<and> d_Action d \<noteq> ActionStartRestore) ?N s" if "dormant n s" for s
      using that assms(2) by (intro closed_policy_step) (simp_all add: dormant_def)
    have shutdown: "wp (executeShutdown su now) (\<lambda>_. wp (tick_phase su now d) ?N ?N) ?N s" if "dormant n s" for s
      by (rule wp_conseq [OF dormant_executeShutdown [OF that] phase N])
    show ?thesis
    proof (cases "d_Action d")
      case ActionCommitShutdown
      have "wp (policy_step su now inp) (\<lambda>_. wp (executeShutdown su now) (\<lambda>_. wp (tick_phase su now d) ?N ?N) ?N) ?N s"
        using step [OF that(1)] by (rule wp_conseq) (use shutdown in auto)
      then show ?thesis using ActionCommitShutdown by simp
    next
      case ActionStopRecovery
      have "wp (beginFreshOutage su) (\<lambda>_. ?N d) ?N s"
        by (rule wp_conseq [OF dormant_fresh_outage [OF that(1)] N N])
      then show ?thesis using ActionStopRecovery N [OF that(1)] by simp
    qed (use that phase in simp_all)
  qed
  have opens: "wp (if b then beginFreshOutage su else if b' then snapshotHosts su False else return ()) (\<lambda>_. dormant n) ?N s"
    if "dormant n s" for b b' s
    using that N by (auto intro!: wp_conseq [OF dormant_fresh_outage] wp_conseq [OF dormant_snapshot])
  have start: "wp (policy_step su now inp) (\<lambda>d s. dormant n s \<and> d_Action d \<noteq> ActionStartRestore) ?N c"
    using assms by (intro closed_policy_step) (simp_all add: no_wakes_def)
  have "wp (Tick su now inp) ?N ?N c"
    unfolding Tick_def wp_seqE wp_getS
    by (rule wp_conseq [OF start]; (elim conjE, rule wp_conseq [OF opens], assumption, rule rest)?; assumption)
  then show ?thesis by (auto simp: wp_def split: prod.splits sum.splits)
qed

end
end
