(* ===== verification/Armed_Props.thy ===== *)
theory Armed_Props
  imports Armed Revision_Props Wake_Gates
begin

text \<open>
  What the armed runtime guarantees: invariants of its event loop, the pacing of the controller's own forced
  shutdown, the gates in front of every wake packet, the adoption of a stored transaction, its refinement of the
  orchestrator's runs, and where its configuration comes from.
\<close>

section \<open>Invariants of the loop\<close>

text \<open>
  What holds in every state of a run: a property that power ticks and health ticks keep and that does not
  look at the environment, the channels or the beat.
\<close>

locale loop_invariant =
  fixes rn :: "('w, 'x) runtime_deps" and I :: "('w, 'x) agent \<Rightarrow> bool"
  assumes power: "I a \<Longrightarrow> I (snd (armedPowerTick rn a))"
    and health: "I a \<Longrightarrow> I (health_tick rn autofix a)"
    and env: "I a \<Longrightarrow> I (set_env x a)"
    and flags: "I a \<Longrightarrow> I (a\<lparr>ag_server := b\<rparr>)" "I a \<Longrightarrow> I (a\<lparr>ag_watchdog := b\<rparr>)" "I a \<Longrightarrow> I (a\<lparr>ag_beat := b\<rparr>)"
begin

lemma step: "I a \<Longrightarrow> I (snd (loop_step rn ev a))"
  using power [of a] health [of a]
  by (cases ev) (auto simp: flags nonBlockingBeat_def split: option.splits prod.splits)

lemma loop: "I a \<Longrightarrow> I (snd (select_loop (loop_step rn) evs a))"
proof (induction evs arbitrary: a)
  case (Cons ev evs)
  then show ?case using step [of a ev] by (auto split: prod.splits run_state.splits)
qed simp

lemma served: "I a \<Longrightarrow> I (snd (serve os (loop_step rn) evs a))"
proof -
  assume a: "I a"
  have "I a'" if "select_loop (loop_step rn) evs ((set_env x a)\<lparr>ag_beat := True\<rparr>) = (r, a')" for x r a'
    using loop [of "(set_env x a)\<lparr>ag_beat := True\<rparr>" evs] a that by (simp add: env flags)
  then show ?thesis
    using a by (auto simp: serve_def stopping_def nonBlockingBeat_def split: option.splits prod.splits run_state.splits intro: env)
qed

lemma started: "I a \<Longrightarrow> I (snd (run_started rn evs a))"
  using power [of a] served by (auto simp: run_started_def split: option.splits prod.splits)

end

section \<open>Pacing of the controller's FSD\<close>

definition fr_Txn :: "fsd_request \<Rightarrow> string" where
  "fr_Txn r = st_TransactionID (fr_State r)"

text \<open>How many of the last requests belong to the transaction of the very last one.\<close>

definition run_length :: "fsd_request list \<Rightarrow> int" where
  "run_length reqs = int (length (takeWhile (\<lambda>r. fr_Txn r = fr_Txn (last reqs)) (rev reqs)))"

definition paced :: "fsd_request list \<Rightarrow> bool" where
  "paced reqs \<longleftrightarrow> (\<forall>pre r1 r2 post. reqs = pre @ r1 # r2 # post \<longrightarrow> fr_Txn r1 = fr_Txn r2 \<longrightarrow>
     \<not> fr_OK r1 \<and> fr_At r1 + retry_delay (run_length (pre @ [r1])) \<le> fr_At r2)"

lemma run_length_snoc:
  "run_length (reqs @ [r]) = 1 + (if reqs \<noteq> [] \<and> fr_Txn (last reqs) = fr_Txn r then run_length reqs else 0)"
  by (cases reqs rule: rev_cases) (auto simp: run_length_def)

lemma paced_snoc:
  "paced (reqs @ [r]) \<longleftrightarrow> paced reqs \<and>
     (reqs \<noteq> [] \<longrightarrow> fr_Txn (last reqs) = fr_Txn r \<longrightarrow>
        \<not> fr_OK (last reqs) \<and> fr_At (last reqs) + retry_delay (run_length reqs) \<le> fr_At r)"
  (is "_ \<longleftrightarrow> _ \<and> ?last")
proof (intro iffI conjI)
  assume p: "paced (reqs @ [r])"
  show "paced reqs" unfolding paced_def
  proof (intro allI impI)
    fix pre r1 r2 post assume "reqs = pre @ r1 # r2 # post" "fr_Txn r1 = fr_Txn r2"
    then show "\<not> fr_OK r1 \<and> fr_At r1 + retry_delay (run_length (pre @ [r1])) \<le> fr_At r2"
      using p [unfolded paced_def, rule_format, of pre r1 r2 "post @ [r]"] by simp
  qed
  show ?last
    using p [unfolded paced_def, rule_format, of "butlast reqs" "last reqs" r "[]"] by (cases reqs rule: rev_cases) auto
next
  assume p: "paced reqs \<and> ?last"
  show "paced (reqs @ [r])" unfolding paced_def
  proof (intro allI impI)
    fix pre r1 r2 post assume eq: "reqs @ [r] = pre @ r1 # r2 # post" "fr_Txn r1 = fr_Txn r2"
    show "\<not> fr_OK r1 \<and> fr_At r1 + retry_delay (run_length (pre @ [r1])) \<le> fr_At r2"
    proof (cases post rule: rev_cases)
      case Nil
      then have "reqs = pre @ [r1]" "r = r2" using eq(1) by simp_all
      then show ?thesis using p eq(2) by simp
    next
      case (snoc post' z)
      then have "reqs = pre @ r1 # r2 # post'" using eq(1) by simp
      then show ?thesis using p eq(2) unfolding paced_def by blast
    qed
  qed
qed

text \<open>The tracker is what the requests so far make of it.\<close>

definition tracks :: "fsd_request list \<Rightarrow> fsd_tracker \<Rightarrow> bool" where
  "tracks reqs t \<longleftrightarrow>
     (if reqs = [] then t = new_tracker ''''
      else ft_transactionID t = fr_Txn (last reqs) \<and> ft_completed t = fr_OK (last reqs)
        \<and> (\<not> fr_OK (last reqs) \<longrightarrow>
             ft_attempts t = run_length reqs \<and> ft_nextAttempt t = Some (fr_At (last reqs) + retry_delay (run_length reqs))))"

definition fsd_sound :: "config \<Rightarrow> ('w, 'x) agent \<Rightarrow> bool" where
  "fsd_sound cfg a \<longleftrightarrow>
     list_all (\<lambda>r. controller_fsd_due cfg (fr_UPS r) (fr_State r)) (ag_requests a)
     \<and> paced (ag_requests a) \<and> tracks (ag_requests a) (ag_fsd a)"

lemma resetFor_tx [simp]: "ft_transactionID (resetFor tx t) = tx" "resetFor tx (resetFor tx t) = resetFor tx t"
  by (simp_all add: resetFor_def new_tracker_def)

lemma tracks_refused:
  assumes "tracks reqs t" "shouldAttempt now tx t = (False, t')"
  shows "t' = t"
  using assms by (auto simp: shouldAttempt_def resetFor_def new_tracker_def Let_def split: if_splits)

lemma tracks_attempt:
  assumes "tracks reqs t" "shouldAttempt (fr_At r) (fr_Txn r) t = (True, t')"
    and "paced reqs"
  shows "paced (reqs @ [r])"
    and "tracks (reqs @ [r]) (if fr_OK r then markSuccess (fr_Txn r) t' else snd (markFailure (fr_At r) (fr_Txn r) t'))"
proof -
  have t': "t' = resetFor (fr_Txn r) t" and due: "\<not> ft_completed t'" "\<not> time_Before (fr_At r) (ft_nextAttempt t')"
    using assms(2) by (auto simp: shouldAttempt_def Let_def time_Before_def split: option.splits)
  have same: "\<not> fr_OK (last reqs) \<and> fr_At (last reqs) + retry_delay (run_length reqs) \<le> fr_At r"
    and attempts: "ft_attempts t' = run_length reqs" if "reqs \<noteq> []" "fr_Txn (last reqs) = fr_Txn r"
    using assms(1) due that by (auto simp: t' tracks_def resetFor_def time_Before_def)
  show "paced (reqs @ [r])" using assms(3) same by (simp add: paced_snoc)
  have new: "ft_attempts t' = 0" if "reqs = [] \<or> fr_Txn (last reqs) \<noteq> fr_Txn r"
    using assms(1) that by (cases "reqs = []") (auto simp: t' tracks_def resetFor_def new_tracker_def)
  have "ft_attempts t' + 1 = run_length (reqs @ [r])"
    using attempts new by (auto simp: run_length_snoc)
  then show "tracks (reqs @ [r]) (if fr_OK r then markSuccess (fr_Txn r) t' else snd (markFailure (fr_At r) (fr_Txn r) t'))"
    using due by (auto simp: tracks_def markSuccess_def markFailure_def Let_def time_Add_def t')
qed

lemma request_controller_fsd_sound:
  assumes "fsd_sound cfg a"
  shows "fsd_sound cfg (request_controller_fsd nt os cfg now ups a)"
proof -
  let ?st = "ctl_state (ag_ctl a)" let ?tx = "st_TransactionID ?st"
  obtain attempt t where s: "shouldAttempt now ?tx (ag_fsd a) = (attempt, t)" by fastforce
  obtain err x where e: "nt_RequestFSD nt (nc_UPSName (cf_NUT cfg)) (op_UPSMonConfPath os) (ag_env a) = (err, x)" by fastforce
  show ?thesis
  proof (cases "controller_fsd_due cfg ups ?st \<and> attempt")
    case True
    define r where "r = \<lparr>fr_At = now, fr_State = ?st, fr_UPS = ups, fr_OK = (err = None)\<rparr>"
    have r: "fr_At r = now" "fr_Txn r = ?tx" "fr_OK r = (err = None)" "controller_fsd_due cfg (fr_UPS r) (fr_State r)"
      using True by (simp_all add: r_def fr_Txn_def)
    have t: "tracks (ag_requests a) (ag_fsd a)" "paced (ag_requests a)"
      using assms by (simp_all add: fsd_sound_def)
    have sa: "shouldAttempt (fr_At r) (fr_Txn r) (ag_fsd a) = (True, t)" using s r True by simp
    have "request_controller_fsd nt os cfg now ups a =
        (set_env x a)\<lparr>ag_fsd := (if err = None then markSuccess ?tx t else snd (markFailure now ?tx t)),
          ag_requests := ag_requests a @ [r]\<rparr>"
      using True s e by (simp add: request_controller_fsd_def Let_def r_def)
    then show ?thesis
      using tracks_attempt [OF t(1) sa t(2), unfolded r(1,2,3)] assms r(4) by (simp add: fsd_sound_def)
  next
    case False
    then show ?thesis
      using assms s tracks_refused [of "ag_requests a" "ag_fsd a" now ?tx t]
      by (auto simp: request_controller_fsd_def Let_def fsd_sound_def)
  qed
qed

lemma observe_parts:
  "observe rn a = (now, inp, a') \<Longrightarrow> ag_requests a' = ag_requests a \<and> ag_fsd a' = ag_fsd a \<and> ag_latestHealth a' = ag_latestHealth a"
  by (auto simp: observe_def Let_def split: prod.splits)

lemma fsd_sound_frame [simp]:
  "fsd_sound cfg (set_env x a) = fsd_sound cfg a" "fsd_sound cfg (a\<lparr>ag_ctl := c\<rparr>) = fsd_sound cfg a"
  "fsd_sound cfg (a\<lparr>ag_latestHealth := s\<rparr>) = fsd_sound cfg a" "fsd_sound cfg (a\<lparr>ag_health := h\<rparr>) = fsd_sound cfg a"
  "fsd_sound cfg (a\<lparr>ag_server := b\<rparr>) = fsd_sound cfg a" "fsd_sound cfg (a\<lparr>ag_watchdog := b\<rparr>) = fsd_sound cfg a"
  "fsd_sound cfg (a\<lparr>ag_beat := b\<rparr>) = fsd_sound cfg a"
  by (simp_all add: fsd_sound_def set_env_def)

lemma armedPowerTick_fsd_sound:
  assumes "fsd_sound (rn_cfg rn) a"
  shows "fsd_sound (rn_cfg rn) (snd (armedPowerTick rn a))"
proof -
  obtain now inp a' where o: "observe rn a = (now, inp, a')" by (cases "observe rn a") auto
  have "fsd_sound (rn_cfg rn) a'" using assms observe_parts [OF o] by (simp add: fsd_sound_def)
  then show ?thesis
    using o by (auto simp: armedPowerTick_def Let_def request_controller_fsd_sound split: prod.splits sum.splits)
qed

interpretation fsd_pacing: loop_invariant rn "fsd_sound (rn_cfg rn)" for rn
  by unfold_locales (simp_all add: armedPowerTick_fsd_sound health_tick_def Let_def split: prod.splits)

lemma retry_delay_bounds: "5 * Second \<le> retry_delay n \<and> retry_delay n \<le> Minute"
proof -
  have "d \<le> double_below_minute k d" if "0 < d" for k d
    using that
  proof (induction k arbitrary: d)
    case (Suc k)
    have "d * 2 \<le> double_below_minute k (d * 2)" using Suc.prems by (intro Suc.IH) simp
    then have "d \<le> double_below_minute k (d * 2)" using Suc.prems by linarith
    then show ?case by simp
  qed simp
  from this [of "5 * Second" "nat (n - 1)"] show ?thesis by (simp add: retry_delay_def go_arith)
qed

lemma armed_start_parts:
  assumes "armed_start pf nt os cfg hw w = Inr (rn, a)"
  obtains ex where "RuntimeArmedExclusions (pf_local pf (hw_env hw)) cfg = Excluded ex"
    "rn = armed_runtime pf nt os cfg ex" "ag_requests a = []" "ag_fsd a = new_tracker ''''" "ag_streaks a = fmempty"
  using assms
  by (auto simp: armed_start_def Let_def new_agent_def split: armed_check.splits prod.splits sum.splits option.splits ctl_error.splits)

text \<open>
  Claim C21. The controller's own forced shutdown, in every run of the armed runtime: whatever the channels deliver
  and however the commands answer, it is requested only while a committed shutdown waits for utility power, the
  observation of that tick says on battery, the agent is not a remote client and no host is shut down through
  NUT; and of two consecutive requests in the same transaction the first failed and the second comes at least
  the backoff of the failures so far (five seconds, doubling up to a minute) after it.
\<close>

theorem controller_fsd_guarded_and_paced:
  assumes "runArmed pf nt os cfg hw w evs = (r, Some a)"
  shows "(\<forall>q\<in>set (ag_requests a). st_ShutdownCommitted (fr_State q) \<and> st_PowerState (fr_State q) = WaitingForAC
            \<and> us_Utility (fr_UPS q) = UtilityOnBattery \<and> nc_Profile (cf_NUT cfg) \<noteq> ''remote-client''
            \<and> \<not> hasNUTManagedHosts (cf_Hosts cfg))
    \<and> (\<forall>pre r1 r2 post. ag_requests a = pre @ r1 # r2 # post \<longrightarrow> fr_Txn r1 = fr_Txn r2 \<longrightarrow>
         \<not> fr_OK r1 \<and> fr_At r1 + 5 * Second \<le> fr_At r2
         \<and> fr_At r1 + retry_delay (run_length (pre @ [r1])) \<le> fr_At r2)"
proof -
  obtain rn a0 where s: "armed_start pf nt os cfg hw w = Inr (rn, a0)" and a: "a = snd (run_started rn evs a0)"
    using assms by (auto simp: runArmed_def split: sum.splits prod.splits)
  obtain ex where p: "rn = armed_runtime pf nt os cfg ex" "ag_requests a0 = []" "ag_fsd a0 = new_tracker ''''"
    using armed_start_parts [OF s] by metis
  have "fsd_sound (rn_cfg rn) a0" using p by (simp add: fsd_sound_def tracks_def paced_def)
  then have "fsd_sound (rn_cfg rn) a" unfolding a by (rule fsd_pacing.started)
  moreover have "rn_cfg rn = cfg" by (simp add: p armed_runtime_def)
  ultimately have sound: "list_all (\<lambda>r. controller_fsd_due cfg (fr_UPS r) (fr_State r)) (ag_requests a)" "paced (ag_requests a)"
    by (simp_all add: fsd_sound_def)
  have "\<not> fr_OK r1 \<and> fr_At r1 + 5 * Second \<le> fr_At r2 \<and> fr_At r1 + retry_delay (run_length (pre @ [r1])) \<le> fr_At r2"
    if "ag_requests a = pre @ r1 # r2 # post" "fr_Txn r1 = fr_Txn r2" for pre r1 r2 post
    using sound(2) that retry_delay_bounds [of "run_length (pre @ [r1])"] unfolding paced_def by fastforce
  then show ?thesis using sound(1) by (auto simp: list_all_iff controller_fsd_due_def)
qed

section \<open>A machine for the witnesses\<close>

text \<open>
  The environment counts clock readings, a hundred seconds apart. The UPS is on battery; requests for a forced
  shutdown fail until the fourth reading. The persisted transaction waits for utility power.
\<close>

definition always :: "'a \<Rightarrow> 'b \<Rightarrow> 'a" where
  "always v _ = v"

definition stays :: "'r \<Rightarrow> 'x \<Rightarrow> 'r \<times> 'x" where
  "stays r x = (r, x)"

definition demo_clock :: "nat \<Rightarrow> instant \<times> nat" where
  "demo_clock n = (100 * Second * int n, n + 1)"

definition demo_request :: "nat \<Rightarrow> nut_error option \<times> nat" where
  "demo_request n = (if n < 4 then Some RunnerNil else None, n)"

definition demo_nut :: "nat nut_controller" where
  "demo_nut = \<lparr>nt_Query = always (stays (in_UPS (demo_in UtilityOnBattery), None)), nt_RequestFSD = always (always demo_request)\<rparr>"

definition demo_idle_checker :: "'x checker" where
  "demo_idle_checker =
     \<lparr>ck_Progress = None, ck_dial = always (always (stays False)),
      ck_run = always (always (always (stays \<lparr>rr_out = '''', rr_err = None, rr_exited = True, rr_expired = False\<rparr>))),
      ck_ctxErr = always None, ck_after = always (stays None)\<rparr>"

definition demo_platform :: "('x \<Rightarrow> instant \<times> 'x) \<Rightarrow> 'x platform" where
  "demo_platform clock =
     \<lparr>pf_checker = demo_idle_checker, pf_within = always (always demo_idle_checker),
      pf_executor = \<lparr>ex_Progress = None, ex_ProgressInterval = 0,
        ex_run = always (always (always (stays \<lparr>rr_out = '''', rr_err = None, rr_exited = True, rr_expired = False\<rparr>))),
        ex_watch = always (always (always (always undefined)))\<rparr>,
      pf_socket = always (stays None), pf_interfaces = always (always None), pf_local = always demo_files,
      pf_Now = clock, pf_rand = stays (Some [1, 171]), pf_readFile = always (stays (Some ''{}'')),
      pf_sha256_hex = always ''h'', pf_encode_config = always (always (Some ''{}'')),
      pf_encode_health = always (Some ''{}''), pf_decode_health = always (Inr (NewSnapshot\<lparr>sn_CheckedAt := Some (200 * Second)\<rparr>)),
      pf_nut_text = always '''', pf_check_text = always '''', pf_shutdown_text = always '''',
      pf_wake_text = always '''', pf_health_text = always '''', pf_prerequisite_text = always ''''\<rparr>"

definition demo_options :: "'x options" where
  "demo_options =
     \<lparr>op_SocketPath = '''', op_HealthStatePath = '''', op_SystemHealthStatePath = '''', op_SystemHealthMaxAge = 180 * Second,
      op_HealthInterval = 0, op_PowerInterval = 5 * Second, op_StateDir = '''', op_ConfigHistoryDir = '''',
      op_UPSMonConfPath = '''', op_NUT = None, op_Ready = None, op_Stopping = None, op_StartWatchdog = None\<rparr>"

definition demo_armed_config :: config where
  "demo_armed_config = demo_valid_config\<lparr>cf_Hosts := []\<rparr>"

definition demo_waiting_disk :: "power_txn store_world" where
  "demo_waiting_disk = demo_disk\<lparr>sw_disk :=
     \<lparr>dk_current = Some (demo_committed\<lparr>st_ActiveConfigRevision := ''sha256:h'', st_Checksum := ''h''\<rparr>), dk_previous = None\<rparr>\<rparr>"

definition demo_health_file :: "nat health_world" where
  "demo_health_file = \<lparr>hw_file = None, hw_fault = always False, hw_calls = 0, hw_env = 0\<rparr>"


lemma demo_starts: "\<not> isl (armed_start (demo_platform demo_clock) demo_nut demo_options demo_armed_config demo_health_file demo_waiting_disk)"
  by code_simp

lemma runArmed_starts:
  assumes "\<not> isl (armed_start pf nt os cfg hw w)"
  shows "\<exists>r a. runArmed pf nt os cfg hw w evs = (r, Some a)"
proof (cases "armed_start pf nt os cfg hw w")
  case (Inr s)
  then show ?thesis by (cases s; cases "run_started (fst s) evs (snd s)") (simp add: runArmed_def)
qed (use assms in simp)

theorem controller_fsd_guarded_and_paced_witness:
  "\<exists>r a. runArmed (demo_platform demo_clock) demo_nut demo_options demo_armed_config demo_health_file demo_waiting_disk
        [PowerTick, HealthTick, PowerTick, PowerTick] = (r, Some a)
     \<and> (\<forall>q\<in>set (ag_requests a). st_PowerState (fr_State q) = WaitingForAC \<and> us_Utility (fr_UPS q) = UtilityOnBattery)"
proof -
  obtain r a where run: "runArmed (demo_platform demo_clock) demo_nut demo_options demo_armed_config demo_health_file
      demo_waiting_disk [PowerTick, HealthTick, PowerTick, PowerTick] = (r, Some a)"
    using runArmed_starts [OF demo_starts] by blast
  then show ?thesis using controller_fsd_guarded_and_paced [OF run] by blast
qed

section \<open>The gates of a wake\<close>

lemma systemHealthSafe_open:
  assumes "fst (systemHealthSafe decode doc maxAge now)"
  shows "\<exists>b snap t. doc = Some b \<and> decode b = Inr snap \<and> sn_Version snap = 1 \<and> sn_CheckedAt snap = Some t
    \<and> (0 < maxAge \<longrightarrow> 0 \<le> time_Sub now (Some t) \<and> time_Sub now (Some t) \<le> maxAge)
    \<and> sn_State snap \<noteq> HealthFailedSafe \<and> (\<forall>r\<in>set (sn_Results snap). hr_Critical r \<longrightarrow> hr_OK r)"
proof -
  obtain b where b: "doc = Some b" using assms by (auto simp: systemHealthSafe_def split: option.splits)
  obtain snap where snap: "decode b = Inr snap" using assms b by (auto simp: systemHealthSafe_def split: sum.splits)
  obtain t where t: "sn_CheckedAt snap = Some t" using assms b snap by (auto simp: systemHealthSafe_def split: if_splits)
  have "filter (\<lambda>r. hr_Critical r \<and> \<not> hr_OK r) (sn_Results snap) = []"
    using assms b snap t by (auto simp: systemHealthSafe_def Let_def split: if_splits list.splits)
  then show ?thesis
    using assms b snap t by (auto simp: systemHealthSafe_def Let_def filter_empty_conv split: if_splits)
qed

lemma ready_loop_streaks:
  assumes "ready_loop ck deps allReady m x = (True, m', x')"
  shows "allReady \<and> (\<forall>k. streak_of m k \<le> streak_of m' k)
    \<and> (\<forall>dep\<in>set deps. dc_Address dep \<noteq> None \<and> needed (dc_Status dep) \<le> streak_of m' (dc_ID dep))"
  using assms
proof (induction deps arbitrary: allReady m x)
  case (Cons dep deps)
  obtain a where a: "dc_Address dep = Some a" using Cons.prems by (auto split: option.splits)
  obtain r x1 where r: "Check ck a (dc_Status dep) x = (r, x1)" by fastforce
  have ans: "answers_online r"
    using Cons.prems Cons.IH [of False "fmupd (dc_ID dep) 0 m" x1] a r by (auto simp: Let_def split: if_splits)
  let ?n = "streak_of m (dc_ID dep) + 1"
  have ih: "(allReady \<and> ?n \<ge> needed (dc_Status dep)) \<and> (\<forall>k. streak_of (fmupd (dc_ID dep) ?n m) k \<le> streak_of m' k)
      \<and> (\<forall>dep\<in>set deps. dc_Address dep \<noteq> None \<and> needed (dc_Status dep) \<le> streak_of m' (dc_ID dep))"
    using Cons.prems a r ans by (intro Cons.IH) (simp add: Let_def)
  have "streak_of (fmupd (dc_ID dep) ?n m) k = (if k = dc_ID dep then ?n else streak_of m k)" for k
    by (simp add: streak_of_def)
  then show ?case using ih a by (auto split: if_splits) (smt (verit))+
qed simp

lemma Ready_streaks:
  "Ready ck deps m x = (True, m', x') \<Longrightarrow>
     \<forall>dep\<in>set deps. dc_Address dep \<noteq> None \<and> needed (dc_Status dep) \<le> streak_of m' (dc_ID dep)"
  using ready_loop_streaks [of ck deps True m x m' x'] by (cases "deps = []") (auto simp: Ready_def)

text \<open>What an observation that opens the gates says of the machine.\<close>

lemma observe_open:
  assumes "observe rn a = (now, inp, a')" "gates_open inp"
  obtains ups x x1 x2 doc where
    "nt_Query (rn_NUT rn) (nut_target (rn_cfg rn)) (ag_env a) = ((ups, None), x)"
    "us_Utility ups = UtilityOnline" "\<not> us_LowBattery ups" "\<not> us_FSD ups"
    "criticalAgentHealthSafe (ag_latestHealth a)"
    "pf_Now (rn_platform rn) x = (now, x1)"
    "pf_readFile (rn_platform rn) (op_SystemHealthStatePath (rn_options rn)) x1 = (doc, x2)"
    "fst (systemHealthSafe (pf_decode_health (rn_platform rn)) doc (op_SystemHealthMaxAge (rn_options rn)) now)"
    "\<forall>dep\<in>set (cf_Dependencies (rn_cfg rn)). dc_Address dep \<noteq> None \<and> needed (dc_Status dep) \<le> streak_of (ag_streaks a') (dc_ID dep)"
proof -
  obtain st err x where q: "nt_Query (rn_NUT rn) (nut_target (rn_cfg rn)) (ag_env a) = ((st, err), x)"
    by (metis prod.collapse)
  obtain now' x1 where n: "pf_Now (rn_platform rn) x = (now', x1)" by fastforce
  obtain doc x2 where f: "pf_readFile (rn_platform rn) (op_SystemHealthStatePath (rn_options rn)) x1 = (doc, x2)" by fastforce
  obtain ready m x3 where d: "Ready (pf_checker (rn_platform rn)) (cf_Dependencies (rn_cfg rn)) (ag_streaks a) x2 = (ready, m, x3)"
    by (metis prod.collapse)
  obtain safe reason where s: "systemHealthSafe (pf_decode_health (rn_platform rn)) doc (op_SystemHealthMaxAge (rn_options rn)) now'
      = (safe, reason)" by fastforce
  define ups where "ups = (case err of None \<Rightarrow> st | Some _ \<Rightarrow> unknown_status fmempty)"
  have qu: "query_ups (rn_NUT rn) (rn_cfg rn) (ag_env a) = (ups, x)"
    using q by (simp add: query_ups_def ups_def split: option.split)
  have o: "now = now'" "inp = \<lparr>in_UPS = ups, in_NetworkReady = ready, in_HealthSafe = (criticalAgentHealthSafe (ag_latestHealth a) \<and> safe)\<rparr>"
      "ag_streaks a' = m"
    using assms(1) by (auto simp: observe_def Let_def qu n f d s)
  have g: "us_Utility ups = UtilityOnline" "\<not> us_LowBattery ups" "\<not> us_FSD ups" "ready" "safe" "criticalAgentHealthSafe (ag_latestHealth a)"
    using assms(2) by (auto simp: o(2) gates_open_def safe_sample_def online_sample_def)
  have "err = None" "ups = st" using g(1) by (auto simp: ups_def unknown_status_def split: option.splits)
  then show thesis
    using that [of ups x x1 doc x2] q n f s d g o Ready_streaks [of "pf_checker (rn_platform rn)" "cf_Dependencies (rn_cfg rn)" "ag_streaks a" x2 m x3]
    by simp
qed

lemma request_controller_fsd_trace:
  "ct_trace (ag_ctl (request_controller_fsd nt os cfg now ups a)) = ct_trace (ag_ctl a)"
  by (simp add: request_controller_fsd_def Let_def set_env_def split: prod.split)

lemma tick_wakes:
  assumes put: "su_put (rn_deps rn) = store_put" and o: "observe rn a = (now, inp, a')"
    and ev: "EvWake hid p \<in> set (drop (length (ct_trace (ag_ctl a))) (ct_trace (ag_ctl (snd (armedPowerTick rn a)))))"
  shows "gates_open inp"
proof (rule ccontr)
  assume closed: "\<not> gates_open inp"
  have s: "over_store (rn_deps rn) = rn_deps rn" using put by (simp add: over_store_def)
  have tr: "ct_trace (ag_ctl a') = ct_trace (ag_ctl a)"
    using o by (auto simp: observe_def Let_def split: prod.splits)
  have "no_wakes (drop (length (ct_trace (ag_ctl a))) (ct_trace (snd (Tick (rn_deps rn) now inp (ag_ctl a')))))"
    using store_ctl.closed_tick [of "length (ct_trace (ag_ctl a))" "ag_ctl a'" inp "rn_deps rn" now] closed tr s by simp
  moreover have "ct_trace (ag_ctl (snd (armedPowerTick rn a))) = ct_trace (snd (Tick (rn_deps rn) now inp (ag_ctl a')))"
    by (simp add: armedPowerTick_def o request_controller_fsd_trace split: prod.split sum.split)
  ultimately show False using ev by (fastforce simp: no_wakes_def list_all_iff)
qed


text \<open>The recovering fleet of the orchestrator, one tick before its first wake, under the armed runtime.\<close>

definition demo_recovering_runtime :: "(power_txn store_world, unit) runtime_deps" where
  "demo_recovering_runtime =
     \<lparr>rn_platform = demo_platform (stays (201 * Second)),
      rn_NUT = \<lparr>nt_Query = always (stays (in_UPS (demo_in UtilityOnline), None)), nt_RequestFSD = always (always (stays None))\<rparr>,
      rn_options = demo_options, rn_cfg = demo_agent_config, rn_deps = demo_deps,
      rn_supervisor = agent_supervisor (demo_platform (stays 0)) demo_options demo_agent_config []\<rparr>"

definition demo_recovering :: "(power_txn store_world, unit) agent" where
  "demo_recovering = new_agent
     (ticks demo_deps [(0, demo_in UtilityOnline), (200 * Second, demo_in UtilityOnline)]
       (start_ctl demo_deps demo_cfg (put_host ''nas'' (lookup_host fmempty ''nas'') demo_committed) demo_disk () []))
     NewSnapshot \<lparr>hw_file = None, hw_fault = always False, hw_calls = 0, hw_env = ()\<rparr>"

lemma demo_wakes:
  "map command_of (ct_trace (ag_ctl demo_recovering)) = []"
  "map command_of (ct_trace (ag_ctl (snd (armedPowerTick demo_recovering_runtime demo_recovering)))) = [Wake_Command]"
  by code_simp+


section \<open>Adopting a transaction\<close>

lemma write_as_content:
  assumes "write_as failure st w x = (Inr p, w', x')"
  shows "txn_content p = txn_content st"
  using assms preserves_contentD [OF store_put_preserves_content, of w st p w']
  by (auto simp: write_as_def store_put_def split: prod.splits sum.splits)

lemma adopt_cases:
  assumes "adopt pf cfg w x = (Inr p, w', x')"
  obtains (kept) src where "Load (sw_codec w) (sw_fault w (sw_calls w)) (sw_disk w) = Inr (p, src)"
      "configRevision pf cfg = Some (st_ActiveConfigRevision p)" "w' = w"
    | (fresh) tid revision where "txn_content p = txn_content (New_State tid revision)"
      "Load (sw_codec w) (sw_fault w (sw_calls w)) (sw_disk w) = Inl ErrNoValidState"
    | (reconciled) q src tid revision where "Load (sw_codec w) (sw_fault w (sw_calls w)) (sw_disk w) = Inr (q, src)"
      "\<not> in_transaction q" "txn_content p = txn_content (with_revision tid revision q)"
proof (cases "Load (sw_codec w) (sw_fault w (sw_calls w)) (sw_disk w)")
  case (Inl e)
  then show ?thesis
    using assms fresh by (auto simp: adopt_def split: option.splits if_splits prod.splits dest!: write_as_content)
next
  case (Inr r)
  obtain q src where q: "r = (q, src)" by fastforce
  then show ?thesis
    using assms Inr kept reconciled
    by (auto simp: adopt_def split: option.splits if_splits prod.splits dest!: write_as_content)
qed

lemma adopt_inv:
  assumes "adopt pf cfg w x = (Inr p, w', x')"
    and "\<forall>q src. Load (sw_codec w) (sw_fault w (sw_calls w)) (sw_disk w) = Inr (q, src) \<longrightarrow> txn_inv q"
  shows "txn_inv p"
  using assms(1)
proof (cases rule: adopt_cases)
  case (fresh tid revision)
  then show ?thesis
    using txn_contentD(1-3) [OF fresh(1)] by (simp add: txn_inv_def New_State_def)
next
  case (reconciled q src tid revision)
  then show ?thesis
    using txn_contentD(1-3) [OF reconciled(3)] by (simp add: txn_inv_def with_revision_def in_transaction_def)
qed (use assms(2) in blast)

lemma resume_controller_start:
  "resume_controller su pcfg p w x = (None, c) \<Longrightarrow> c = start_ctl su pcfg p w x []"
  by (auto simp: resume_controller_def start_ctl_def Let_def split: if_splits prod.splits sum.splits)

lemma armed_start_controller:
  fixes w :: "'b store_world"
  assumes "armed_start pf nt os cfg hw w = Inr (rn, a)"
  obtains ex p w0 w' x x' where "RuntimeArmedExclusions (pf_local pf (hw_env hw)) cfg = Excluded ex"
    "rn = armed_runtime pf nt os cfg ex" "adopt pf cfg w x = (Inr p, w', x')"
    "resume_controller (rn_deps rn) (policyFromConfig cfg) p w' x' = (None, ag_ctl a)"
proof -
  obtain ex where ex: "RuntimeArmedExclusions (pf_local pf (hw_env hw)) cfg = Excluded ex"
    using assms by (auto simp: armed_start_def split: armed_check.splits)
  obtain snap h where h: "runAgentHealth (pf_health_text pf) (rn_supervisor (armed_runtime pf nt os cfg ex :: ('b store_world, _) runtime_deps)) False hw = (snap, h)"
    by fastforce
  obtain r w' x' where ad: "adopt pf cfg w (hw_env h) = (r, w', x')" by (metis prod.collapse)
  obtain p where p: "r = Inr p" using assms ex h ad by (cases r) (auto simp: armed_start_def Let_def)
  obtain e c where c: "resume_controller (rn_deps (armed_runtime pf nt os cfg ex :: ('b store_world, _) runtime_deps)) (policyFromConfig cfg) p w' x' = (e, c)" by fastforce
  have "e = None" using assms ex h ad p c by (cases e) (auto simp: armed_start_def Let_def split: ctl_error.splits)
  then show thesis
    using that [of ex "hw_env h" p w' x'] assms ex h ad p c by (auto simp: armed_start_def Let_def new_agent_def)
qed

text \<open>
  Claim C22. A restart resumes a committed shutdown: when the armed runtime starts on a stored transaction whose shutdown
  is committed or in progress, it starts under the configuration revision that transaction belongs to (under
  any other it refuses to start), and the transaction goes on as a shutdown in progress, with its identifier
  and the recorded progress of every host, already written to the store before the first tick: no grace period
  is counted again.
\<close>

theorem restart_resumes_shutdown:
  assumes "armed_start pf nt os cfg hw w = Inr (rn, a)"
    and "Load (sw_codec w) (sw_fault w (sw_calls w)) (sw_disk w) = Inr (p, src)"
    and "st_ShutdownCommitted p" "st_PowerState p = ShutdownCommitted \<or> st_PowerState p = ShutdownInProgress"
  shows "configRevision pf cfg = Some (st_ActiveConfigRevision p)
    \<and> st_PowerState (ctl_state (ag_ctl a)) = ShutdownInProgress \<and> st_ShutdownCommitted (ctl_state (ag_ctl a))
    \<and> st_TransactionID (ctl_state (ag_ctl a)) = st_TransactionID p
    \<and> hosts_of (ctl_state (ag_ctl a)) = hosts_of p
    \<and> ct_persisted (ag_ctl a) = Some (ctl_state (ag_ctl a))"
proof -
  obtain ex q w' x x' where s: "rn = armed_runtime pf nt os cfg ex" "adopt pf cfg w x = (Inr q, w', x')"
      "resume_controller (rn_deps rn) (policyFromConfig cfg) q w' x' = (None, ag_ctl a)"
    using armed_start_controller [OF assms(1)] by metis
  have q: "q = p" "configRevision pf cfg = Some (st_ActiveConfigRevision p)"
    using s(2) assms(2-4) by (cases rule: adopt_cases; auto simp: in_transaction_def)+
  let ?p = "p\<lparr>st_PowerState := ShutdownInProgress\<rparr>"
  have r: "resumes_shutdown p" using assms(3,4) by (simp add: resumes_shutdown_def)
  have put: "preserves_content (su_put (rn_deps rn))"
    by (simp add: s(1) armed_runtime_def armed_deps_def Let_def store_put_preserves_content)
  obtain st where "policy_write (rn_deps rn) ?p (boot_ctl (policyFromConfig cfg) p w' x' []) = (Inr st, ag_ctl a)"
    using s(3) r q(1) by (auto simp: resume_controller_def Let_def split: prod.splits sum.splits)
  moreover have "wp (policy_write (rn_deps rn) ?p) (\<lambda>_ c. txn_content (ctl_state c) = txn_content ?p \<and> ct_persisted c = Some (ctl_state c))
      (\<lambda>_ _. True) (boot_ctl (policyFromConfig cfg) p w' x' [])"
    by (rule wp_policy_write [OF put]) auto
  ultimately have "txn_content (ctl_state (ag_ctl a)) = txn_content ?p" "ct_persisted (ag_ctl a) = Some (ctl_state (ag_ctl a))"
    by (auto dest: wpD(1))
  then show ?thesis
    using txn_contentD [of "ctl_state (ag_ctl a)" ?p] txn_content_hosts [of "ctl_state (ag_ctl a)" ?p] assms(3) q(2)
    by (simp add: hosts_of_def)
qed

definition demo_interrupted_disk :: "power_txn store_world" where
  "demo_interrupted_disk = demo_disk\<lparr>sw_disk :=
     \<lparr>dk_current = Some (demo_committed\<lparr>st_PowerState := ShutdownInProgress, st_ActiveConfigRevision := ''sha256:h'', st_Checksum := ''h''\<rparr>),
      dk_previous = None\<rparr>\<rparr>"

lemma demo_interrupted:
  "Load (sw_codec demo_interrupted_disk) (sw_fault demo_interrupted_disk (sw_calls demo_interrupted_disk)) (sw_disk demo_interrupted_disk)
     = Inr (demo_committed\<lparr>st_PowerState := ShutdownInProgress, st_ActiveConfigRevision := ''sha256:h'', st_Checksum := ''h''\<rparr>, SourceCurrent)"
  by code_simp

theorem restart_resumes_shutdown_witness:
  "\<exists>rn a. armed_start (demo_platform demo_clock) demo_nut demo_options demo_armed_config demo_health_file demo_interrupted_disk = Inr (rn, a)
     \<and> st_PowerState (ctl_state (ag_ctl a)) = ShutdownInProgress \<and> st_TransactionID (ctl_state (ag_ctl a)) = ''t''"
proof -
  have "\<not> isl (armed_start (demo_platform demo_clock) demo_nut demo_options demo_armed_config demo_health_file demo_interrupted_disk)"
    by code_simp
  then obtain rn a where s: "armed_start (demo_platform demo_clock) demo_nut demo_options demo_armed_config demo_health_file
      demo_interrupted_disk = Inr (rn, a)"
    by (metis isl_def sum.exhaust surj_pair)
  show ?thesis
    using restart_resumes_shutdown [OF s demo_interrupted] s by (simp add: demo_committed_def New_State_def)
qed

section \<open>The runtime as a run of the orchestrator\<close>

lemma armed_tick_run:
  assumes "ctl_run (rn_deps rn) pcfg (ag_ctl a)"
  shows "ctl_run (rn_deps rn) pcfg (ag_ctl (snd (armedPowerTick rn a)))"
proof -
  obtain now inp a' where o: "observe rn a = (now, inp, a')" by (cases "observe rn a") auto
  then obtain ob x where "ag_ctl a' = (ag_ctl a)\<lparr>ct_policy := ObserveUPS ob (ct_policy (ag_ctl a)), ct_env := x\<rparr>"
    by (auto simp: observe_def Let_def split: prod.splits)
  then have "ctl_run (rn_deps rn) pcfg (ag_ctl a')"
    using ctl_run.world [OF ctl_run.observe [OF assms, of ob], of x] by simp
  then have t: "ctl_run (rn_deps rn) pcfg (snd (Tick (rn_deps rn) now inp (ag_ctl a')))" by (rule ctl_run.tick)
  have "ctl_run (rn_deps rn) pcfg (ag_ctl (request_controller_fsd nt os cfg now ups b))"
    if "ctl_run (rn_deps rn) pcfg (ag_ctl b)" for nt os cfg ups b
    using that by (simp add: request_controller_fsd_def Let_def set_env_def ctl_run.world split: prod.split)
  then show ?thesis
    using t o by (cases "Tick (rn_deps rn) now inp (ag_ctl a')") (simp add: armedPowerTick_def split: sum.split)
qed

interpretation controller_run: loop_invariant rn "\<lambda>a. ctl_run (rn_deps rn) pcfg (ag_ctl a)" for rn pcfg
  by unfold_locales
    (simp_all add: armed_tick_run health_tick_def Let_def set_env_def ctl_run.world split: prod.split)

lemma runtime_ids: "map hc_ID (cf_Hosts (RuntimeConfigWithExclusions cfg ex)) = map hc_ID (cf_Hosts cfg)"
  by (simp add: RuntimeConfigWithExclusions_def exclude_host_simps)


lemma demo_no_hosts_cycle: "validateHostDependencyCycles [] [] = []"
  by code_simp

lemma demo_armed_valid: "Validate [] demo_armed_config = []"
  by (simp add: demo_armed_config_def validate_defs demo_config_defs demo_texts To4_def demo_no_hosts_cycle)

lemma demo_waiting_consistent:
  "\<forall>p src. Load (sw_codec demo_waiting_disk) (sw_fault demo_waiting_disk (sw_calls demo_waiting_disk)) (sw_disk demo_waiting_disk)
     = Inr (p, src) \<longrightarrow> txn_inv p"
proof -
  have "Load (sw_codec demo_waiting_disk) (sw_fault demo_waiting_disk (sw_calls demo_waiting_disk)) (sw_disk demo_waiting_disk)
      = Inr (demo_committed\<lparr>st_ActiveConfigRevision := ''sha256:h'', st_Checksum := ''h''\<rparr>, SourceCurrent)"
    by code_simp
  then show ?thesis by (auto simp: txn_inv_def demo_committed_def New_State_def)
qed


section \<open>Where the configuration comes from\<close>

lemma readActive_files: "readActive w = (Inr c, w') \<Longrightarrow> rw_files w' = rw_files w \<and> hy_active (rw_files w) = Some c"
  by (auto simp: readActive_def syscall_def seqE_def getS_def throw_def return_def Let_def
      split: if_splits option.splits prod.splits sum.splits)


lemma demo_loads: "\<exists>cfg w'. load_config demo_manager False (Revision_Props.demo_world demo_history) = (Inr cfg, w')"
proof -
  have "rev_inv demo_manager demo_history" using hist_run_inv demo_bootstrap demo_manager_ok by blast
  moreover have "demo_rid \<noteq> []" by (simp add: demo_rid_def)
  ultimately obtain hy' c where hy': "returns UNIV (RecoverForStartup demo_manager None False) demo_history () hy'"
      "hy_active hy' = Some c"
    using returns_RecoverForStartup [of demo_manager demo_history demo_rid demo_rid UNIV] demo_bootstrap by auto
  obtain w' where w': "RecoverForStartup demo_manager None False (Revision_Props.demo_world demo_history) = (Inr (), w')"
      "rw_files w' = hy'" "calm UNIV w'"
    using returnsD [of UNIV _ "Revision_Props.demo_world demo_history"] hy'(1) by (fastforce simp: Revision_Props.demo_world_def)
  have "\<exists>w''. readActive w' = (Inr c, w'')"
    using w'(2,3) hy'(2) by (simp add: readActive_def syscall_def seqE_def getS_def return_def Let_def calm_def)
  moreover obtain cfg where "parse_content demo_manager c = Inr cfg" using demo_parses by blast
  ultimately show ?thesis using w'(1) by (auto simp: load_config_def)
qed

definition demo_services :: "unit host_services" where
  "demo_services = \<lparr>dv_NUT = \<lparr>nt_Query = always (stays (in_UPS (demo_in UtilityOnline), None)), nt_RequestFSD = always (always (stays None))\<rparr>,
     dv_Ready = stays None, dv_Stopping = stays None, dv_StartWatchdog = always (stays None)\<rparr>"


end
