(* ===== verification/Service.thy ===== *)
theory Service
  imports Health
begin

text \<open>
  The agent as a systemd service: the watchdog feed of \<^verbatim>\<open>agent/internal/system/systemd_notify.go\<close>, the health socket
  of \<^verbatim>\<open>agent/internal/ipc\<close> (\<^verbatim>\<open>server.go\<close>, \<^verbatim>\<open>health.go\<close>), and the runtime of \<^verbatim>\<open>agent/internal/control/config_runtime.go\<close>, which
  restarts the agent and asks that socket. Environment variables, sockets, JSON and the clock are parameters.
\<close>

section \<open>Notifying systemd\<close>

text \<open>\<open>send\<close> dials the datagram socket and writes the message; its error is that of either.\<close>

definition Notify ::
  "(string \<Rightarrow> string) \<Rightarrow> (string \<Rightarrow> string \<Rightarrow> 'x \<Rightarrow> string option \<times> 'x) \<Rightarrow> string \<Rightarrow> 'x \<Rightarrow> string option \<times> 'x" where
  "Notify getenv send message x =
     (let socket = getenv ''NOTIFY_SOCKET'' in
      if socket = '''' then (None, x)
      else send (if HasPrefix socket ''@'' then char_of (0 :: nat) # tl socket else socket) message x)"

definition Watchdog ::
  "(string \<Rightarrow> string) \<Rightarrow> (string \<Rightarrow> string \<Rightarrow> 'x \<Rightarrow> string option \<times> 'x) \<Rightarrow> 'x \<Rightarrow> string option \<times> 'x" where
  "Watchdog getenv send = Notify getenv send ''WATCHDOG=1''"

datatype watchdog_error = InvalidWatchdogPID | InvalidWatchdogUSEC

definition Microsecond :: duration where
  "Microsecond = 1000"

text \<open>\<open>None\<close> when the watchdog is not enabled for this process.\<close>

definition WatchdogInterval :: "(string \<Rightarrow> string) \<Rightarrow> int \<Rightarrow> watchdog_error + duration option" where
  "WatchdogInterval getenv getpid =
     (let usec = getenv ''WATCHDOG_USEC''; pidText = getenv ''WATCHDOG_PID'' in
      if usec = '''' then Inr None
      else if pidText \<noteq> '''' \<and> ParseInt pidText = None then Inl InvalidWatchdogPID
      else if pidText \<noteq> '''' \<and> ParseInt pidText \<noteq> Some getpid then Inr None
      else
        (case ParseInt usec of
           None \<Rightarrow> Inl InvalidWatchdogUSEC
         | Some v \<Rightarrow> if v \<le> 0 then Inl InvalidWatchdogUSEC else Inr (Some (int64 (v * Microsecond)))))"

definition silence_limit :: "duration \<Rightarrow> duration \<Rightarrow> duration" where
  "silence_limit interval maxSilence =
     (if maxSilence \<le> 0 \<or> maxSilence \<ge> interval then go_div (int64 (interval * 3)) 4 else maxSilence)"

definition ping_period :: "duration \<Rightarrow> duration" where
  "ping_period interval = (let period = go_div interval 2 in if period \<le> 0 then Millisecond else period)"

text \<open>What the goroutine can receive, with the time at which it handles it.\<close>

datatype feed_event = FeedDone | BeatClosed | Beat instant | PingTick instant

datatype feed_end = FeedClosed | FeedFailed string

record 'x feeder =
  fd_lastProgress :: instant
  fd_env :: 'x
  fd_pings :: "instant list"
  fd_end :: "feed_end option"

fun feed_step :: "duration \<Rightarrow> ('x \<Rightarrow> string option \<times> 'x) \<Rightarrow> feed_event \<Rightarrow> 'x feeder \<Rightarrow> 'x feeder" where
  "feed_step maxSilence ping FeedDone fd = fd\<lparr>fd_end := Some FeedClosed\<rparr>"
| "feed_step maxSilence ping BeatClosed fd = fd\<lparr>fd_end := Some FeedClosed\<rparr>"
| "feed_step maxSilence ping (Beat now) fd = fd\<lparr>fd_lastProgress := now\<rparr>"
| "feed_step maxSilence ping (PingTick now) fd =
     (if time_Sub now (Some (fd_lastProgress fd)) > maxSilence then fd
      else
        (case ping (fd_env fd) of
           (None, x) \<Rightarrow> fd\<lparr>fd_env := x, fd_pings := fd_pings fd @ [now]\<rparr>
         | (Some e, x) \<Rightarrow> fd\<lparr>fd_env := x, fd_end := Some (FeedFailed e)\<rparr>))"

fun feed :: "duration \<Rightarrow> ('x \<Rightarrow> string option \<times> 'x) \<Rightarrow> feed_event list \<Rightarrow> 'x feeder \<Rightarrow> 'x feeder" where
  "feed maxSilence ping [] fd = fd"
| "feed maxSilence ping (ev # evs) fd =
     (let fd' = feed_step maxSilence ping ev fd in
      if fd_end fd' \<noteq> None then fd' else feed maxSilence ping evs fd')"

text \<open>\<open>None\<close> is the closed channel of a disabled watchdog; \<open>start\<close> is the clock when the goroutine begins.\<close>

definition StartWatchdog ::
  "(string \<Rightarrow> string) \<Rightarrow> int \<Rightarrow> (string \<Rightarrow> string \<Rightarrow> 'x \<Rightarrow> string option \<times> 'x) \<Rightarrow> duration \<Rightarrow> instant
     \<Rightarrow> feed_event list \<Rightarrow> 'x \<Rightarrow> watchdog_error + (duration \<times> 'x feeder) option" where
  "StartWatchdog getenv getpid send maxSilence start evs x =
     (case WatchdogInterval getenv getpid of
        Inl e \<Rightarrow> Inl e
      | Inr None \<Rightarrow> Inr None
      | Inr (Some interval) \<Rightarrow>
          Inr (Some (ping_period interval,
            feed (silence_limit interval maxSilence) (Watchdog getenv send) evs
              \<lparr>fd_lastProgress = start, fd_env = x, fd_pings = [], fd_end = None\<rparr>)))"

section \<open>The health socket\<close>

record request =
  iq_ID :: string
  iq_Method :: string

text \<open>
  The \<^verbatim>\<open>any\<close> of a result: absent, one that reads as a snapshot, or some other JSON.
\<close>

datatype result_value = NoResult | SnapshotResult snapshot | OtherResult string

record response =
  ip_ID :: string
  ip_OK :: bool
  ip_Result :: result_value
  ip_Error :: "(string \<times> string) option"

definition failure_response :: "string \<Rightarrow> string \<Rightarrow> string \<Rightarrow> response" where
  "failure_response rid code msg = \<lparr>ip_ID = rid, ip_OK = False, ip_Result = NoResult, ip_Error = Some (code, msg)\<rparr>"

text \<open>A provider of snapshots; that of the agent is the supervisor, whose \<^verbatim>\<open>HealthSnapshot\<close> is \<^verbatim>\<open>Load\<close>.\<close>

type_synonym 'x provider = "'x health_world \<Rightarrow> (health_error + snapshot) \<times> 'x health_world"

definition HealthSnapshot :: "'x supervisor \<Rightarrow> 'x provider" where
  "HealthSnapshot s = Load_health s"

definition Handle ::
  "(health_error \<Rightarrow> string) \<Rightarrow> 'x provider option \<Rightarrow> request \<Rightarrow> 'x health_world \<Rightarrow> response \<times> 'x health_world" where
  "Handle text provider req w =
     (if iq_Method req = ''GetHealth'' then
        (case provider of
           None \<Rightarrow> (failure_response (iq_ID req) ''DEPENDENCY_UNAVAILABLE'' ''health provider unavailable'', w)
         | Some f \<Rightarrow>
             (case f w of
                (Inl e, w') \<Rightarrow> (failure_response (iq_ID req) ''INTERNAL_ERROR'' (text e), w')
              | (Inr snap, w') \<Rightarrow> (\<lparr>ip_ID = iq_ID req, ip_OK = True, ip_Result = SnapshotResult snap, ip_Error = None\<rparr>, w')))
      else (failure_response (iq_ID req) ''UNKNOWN_METHOD'' ''unknown method'', w))"

text \<open>The JSON of requests and responses.\<close>

record ipc_codec =
  ic_decode_request :: "string \<Rightarrow> string + request"
  ic_encode_request :: "request \<Rightarrow> string"
  ic_decode_response :: "string \<Rightarrow> string + response"
  ic_encode_response :: "response \<Rightarrow> string"

definition DecodeRequest :: "ipc_codec \<Rightarrow> string \<Rightarrow> string + request" where
  "DecodeRequest cd line =
     (case ic_decode_request cd line of
        Inl e \<Rightarrow> Inl e
      | Inr req \<Rightarrow> if iq_ID req = '''' \<or> iq_Method req = '''' then Inl ''id and method are required'' else Inr req)"

definition MaxRequestBytes :: nat where
  "MaxRequestBytes = 1048576"

text \<open>
  The line the server reads: what the peer sends, at most one byte more than allowed, up to the first newline. The
  peer closes after its data, or the connection fails there (\<open>broken\<close>); then an unfinished line is \<open>None\<close>.
\<close>

definition read_line :: "string \<Rightarrow> bool \<Rightarrow> string option" where
  "read_line data broken =
     (let d = take (MaxRequestBytes + 1) data in
      if newline \<in> set d then Some (takeWhile (\<lambda>c. c \<noteq> newline) d @ [newline])
      else if broken \<and> length data \<le> MaxRequestBytes then None
      else Some d)"

definition serveConn ::
  "ipc_codec \<Rightarrow> (health_error \<Rightarrow> string) \<Rightarrow> 'x provider option \<Rightarrow> bool \<Rightarrow> string \<Rightarrow> bool \<Rightarrow> 'x health_world
     \<Rightarrow> response option \<times> 'x health_world" where
  "serveConn cd text provider cancelled data broken w =
     (case read_line data broken of
        None \<Rightarrow> (None, w)
      | Some line \<Rightarrow>
          (if length line > MaxRequestBytes then (Some (failure_response '''' ''INVALID_REQUEST'' ''request too large''), w)
           else if cancelled then (None, w)
           else
             (case DecodeRequest cd line of
                Inl e \<Rightarrow> (Some (failure_response '''' ''INVALID_REQUEST'' e), w)
              | Inr req \<Rightarrow> (case Handle text provider req w of (resp, w') \<Rightarrow> (Some resp, w')))))"

datatype call_error = CallFailed string | ResponseUnreadable string | ResponseMismatch string string

text \<open>\<open>exchange\<close> dials, sends the request and gives what comes back until the peer closes.\<close>

definition Call ::
  "ipc_codec \<Rightarrow> (string \<Rightarrow> 'x \<Rightarrow> (string + string) \<times> 'x) \<Rightarrow> request \<Rightarrow> 'x \<Rightarrow> (call_error + response) \<times> 'x" where
  "Call cd exchange req x =
     (case exchange (ic_encode_request cd req @ [newline]) x of
        (Inl e, x') \<Rightarrow> (Inl (CallFailed e), x')
      | (Inr reply, x') \<Rightarrow>
          (case ic_decode_response cd (take MaxRequestBytes reply) of
             Inl e \<Rightarrow> (Inl (ResponseUnreadable e), x')
           | Inr resp \<Rightarrow>
               (if ip_ID resp \<noteq> iq_ID req \<and> ip_ID resp \<noteq> '''' then (Inl (ResponseMismatch (ip_ID resp) (iq_ID req)), x')
                else (Inr resp, x'))))"

section \<open>Restarting and asking the agent\<close>

record 'x service_runtime =
  sr_Service :: string
  sr_Runner :: "string list \<Rightarrow> 'x \<Rightarrow> (string \<times> string option) \<times> 'x"
  sr_HealthTimeout :: duration
  sr_Now :: "'x \<Rightarrow> instant \<times> 'x"
  sr_call :: "request \<Rightarrow> 'x \<Rightarrow> (call_error + response) \<times> 'x"
  sr_pause :: "duration \<Rightarrow> 'x \<Rightarrow> string option \<times> 'x"
  sr_text :: "call_error \<Rightarrow> string"

definition runtime_service :: "'x service_runtime \<Rightarrow> string" where
  "runtime_service r = (if sr_Service r = '''' then ''cockpit-ups-wol-agent.service'' else sr_Service r)"

definition runtime_timeout :: "'x service_runtime \<Rightarrow> duration" where
  "runtime_timeout r = (if sr_HealthTimeout r \<le> 0 then 20 * Second else sr_HealthTimeout r)"

definition ServiceRuntime_Apply :: "'x service_runtime \<Rightarrow> 'x \<Rightarrow> string option \<times> 'x" where
  "ServiceRuntime_Apply r x =
     (case sr_Runner r [''systemctl'', ''restart'', runtime_service r] x of
        ((out, None), x') \<Rightarrow> (None, x')
      | ((out, Some e), x') \<Rightarrow> (Some (''restart '' @ runtime_service r @ '': '' @ e @ '': '' @ out), x'))"

definition health_request :: request where
  "health_request = \<lparr>iq_ID = ''rollback-health'', iq_Method = ''GetHealth''\<rparr>"

text \<open>The result of a response as a snapshot; a missing one is \<^verbatim>\<open>null\<close>, which decodes to the zero value.\<close>

definition result_snapshot :: "response \<Rightarrow> snapshot option" where
  "result_snapshot resp =
     (case ip_Result resp of NoResult \<Rightarrow> Some zero_snapshot | SnapshotResult snap \<Rightarrow> Some snap | OtherResult _ \<Rightarrow> None)"

definition accepts :: "call_error + response \<Rightarrow> bool" where
  "accepts res \<longleftrightarrow>
     (case res of
        Inl _ \<Rightarrow> False
      | Inr resp \<Rightarrow>
          ip_OK resp \<and> (case result_snapshot resp of None \<Rightarrow> False | Some snap \<Rightarrow> sn_State snap \<noteq> HealthFailedSafe))"

definition last_error :: "(call_error \<Rightarrow> string) \<Rightarrow> string option \<Rightarrow> call_error + response \<Rightarrow> string option" where
  "last_error text prev res =
     (case res of
        Inl e \<Rightarrow> Some (text e)
      | Inr resp \<Rightarrow>
          if ip_OK resp then Some ''agent reported FAILED_SAFE or invalid health snapshot''
          else (case ip_Error resp of Some (code, msg) \<Rightarrow> Some msg | None \<Rightarrow> prev))"

partial_function (option) healthy_loop ::
  "'x service_runtime \<Rightarrow> instant \<Rightarrow> string option \<Rightarrow> 'x \<Rightarrow> (string option \<times> 'x) option" where
  "healthy_loop r deadline prev x =
     (case sr_Now r x of
        (now, x) \<Rightarrow>
          if \<not> now < deadline
          then Some (Some (case prev of None \<Rightarrow> ''health IPC did not become ready'' | Some e \<Rightarrow> e), x)
          else
            (case sr_call r health_request x of
               (res, x) \<Rightarrow>
                 if accepts res then Some (None, x)
                 else
                   (case sr_pause r (250 * Millisecond) x of
                      (Some e, x) \<Rightarrow> Some (Some e, x)
                    | (None, x) \<Rightarrow> healthy_loop r deadline (last_error (sr_text r) prev res) x)))"

definition ServiceRuntime_Healthy :: "'x service_runtime \<Rightarrow> 'x \<Rightarrow> (string option \<times> 'x) option" where
  "ServiceRuntime_Healthy r x =
     (case sr_Now r x of (now, x) \<Rightarrow> healthy_loop r (now + runtime_timeout r) None x)"

section \<open>The watchdog is fed only on progress\<close>

text \<open>The progress the goroutine has seen after some events: the last beat, or its own start.\<close>

fun progress :: "instant \<Rightarrow> feed_event list \<Rightarrow> instant" where
  "progress start [] = start"
| "progress start (Beat now # evs) = progress now evs"
| "progress start (_ # evs) = progress start evs"

text \<open>A tick that finds progress recent enough.\<close>

definition fed :: "duration \<Rightarrow> instant \<Rightarrow> feed_event list \<Rightarrow> instant \<Rightarrow> bool" where
  "fed limit start evs t \<longleftrightarrow> (\<exists>pre post. evs = pre @ PingTick t # post \<and> t - progress start pre \<le> limit)"

lemma progress_Cons: "progress start (ev # evs) = progress (case ev of Beat now \<Rightarrow> now | _ \<Rightarrow> start) evs"
  by (cases ev) simp_all

lemma fed_Cons:
  "fed limit start (ev # evs) t \<longleftrightarrow>
     ev = PingTick t \<and> t - start \<le> limit \<or> fed limit (case ev of Beat now \<Rightarrow> now | _ \<Rightarrow> start) evs t"
  (is "?lhs \<longleftrightarrow> ?now \<or> ?later")
proof
  assume ?lhs
  then obtain pre post where *: "ev # evs = pre @ PingTick t # post" "t - progress start pre \<le> limit"
    unfolding fed_def by blast
  show "?now \<or> ?later"
    using * by (cases pre) (auto simp: fed_def progress_Cons)
next
  assume "?now \<or> ?later"
  then show ?lhs
  proof
    assume ?now
    then show ?lhs unfolding fed_def by (intro exI [of _ "[]"] exI [of _ evs]) simp
  next
    assume ?later
    then obtain pre post where "evs = pre @ PingTick t # post" "t - progress start (ev # pre) \<le> limit"
      unfolding fed_def progress_Cons by blast
    then show ?lhs unfolding fed_def by (intro exI [of _ "ev # pre"] exI [of _ post]) simp
  qed
qed

lemma fed_simps [simp]:
  "\<not> fed limit start [] t"
  "fed limit start (Beat now # evs) t = fed limit now evs t"
  "fed limit start (PingTick now # evs) t \<longleftrightarrow> t = now \<and> now - start \<le> limit \<or> fed limit start evs t"
  "fed limit start (FeedDone # evs) t = fed limit start evs t"
  "fed limit start (BeatClosed # evs) t = fed limit start evs t"
  by (auto simp: fed_Cons) (simp add: fed_def)

lemma sat64_exceeds:
  assumes "0 \<le> limit" "limit < 2 ^ 63 - 1"
  shows "sat64 d > limit \<longleftrightarrow> d > limit"
  using assms by (auto simp: sat64_def)

lemma feed_pings:
  assumes "0 \<le> limit" "limit < 2 ^ 63 - 1" "fd_end fd = None"
  shows "t \<in> set (fd_pings (feed limit ping evs fd)) \<Longrightarrow> t \<in> set (fd_pings fd) \<or> fed limit (fd_lastProgress fd) evs t"
    and "fd_end (feed limit ping evs fd) = None \<Longrightarrow>
      set (fd_pings (feed limit ping evs fd)) = set (fd_pings fd) \<union> {t. fed limit (fd_lastProgress fd) evs t}"
  using assms(3)
proof (induction evs arbitrary: fd)
  case (Cons ev evs)
  note exceeds = sat64_exceeds [OF assms(1,2)]
  {
    case 1
    then show ?case
      using Cons.IH(1)
      by (cases ev) (fastforce simp: time_Sub_def exceeds Let_def split: if_splits prod.splits option.splits)+
  next
    case 2
    then show ?case
      using Cons.IH(2)
      by (cases ev) (fastforce simp: time_Sub_def exceeds Let_def split: if_splits prod.splits option.splits)+
  }
qed (auto simp: fed_def)

lemma silence_limit_bounds:
  assumes "0 < interval" "interval * 3 < 2 ^ 63"
  shows "0 \<le> silence_limit interval maxSilence" "silence_limit interval maxSilence < interval"
    and "0 < maxSilence \<Longrightarrow> maxSilence < interval \<Longrightarrow> silence_limit interval maxSilence = maxSilence"
proof -
  have "go_div (int64 (interval * 3)) 4 = interval * 3 div 4"
    using assms by (simp add: int64_def go_div_def)
  then show "0 \<le> silence_limit interval maxSilence" "silence_limit interval maxSilence < interval"
    using assms by (auto simp: silence_limit_def)
qed (simp add: silence_limit_def)

lemma StartWatchdog_interval:
  assumes "StartWatchdog getenv getpid send maxSilence start evs x = Inr (Some (period, fd))"
    and "ParseInt (getenv ''WATCHDOG_USEC'') = Some v" "v * 3000 < 2 ^ 63"
  shows "0 < v" "period = ping_period (v * 1000)"
    and "fd = feed (silence_limit (v * 1000) maxSilence) (Watchdog getenv send) evs
      \<lparr>fd_lastProgress = start, fd_env = x, fd_pings = [], fd_end = None\<rparr>"
  using assms by (auto simp: StartWatchdog_def WatchdogInterval_def Microsecond_def int64_def Let_def
      split: if_splits sum.splits option.splits)

text \<open>
  Claim C25. The service manager's watchdog cannot be fed by a stalled event loop: with an enabled watchdog (whose
  interval fits a duration three times) there is a limit strictly inside the watchdog interval, the caller's own
  when that lies inside, such that every ping answers a tick at which the loop had made progress within the limit.
  Conversely, while the goroutine lives every such tick is answered, and ticks come at least twice per interval.
\<close>

theorem watchdog_needs_progress:
  assumes "StartWatchdog getenv getpid send maxSilence start evs x = Inr (Some (period, fd))"
    and "ParseInt (getenv ''WATCHDOG_USEC'') = Some v" "v * 3000 < 2 ^ 63"
  shows "\<exists>limit. 0 \<le> limit \<and> limit < v * 1000
    \<and> (0 < maxSilence \<and> maxSilence < v * 1000 \<longrightarrow> limit = maxSilence)
    \<and> (\<forall>t\<in>set (fd_pings fd). \<exists>pre post. evs = pre @ PingTick t # post \<and> t - progress start pre \<le> limit)
    \<and> (fd_end fd = None \<longrightarrow>
        (\<forall>pre t post. evs = pre @ PingTick t # post \<and> t - progress start pre \<le> limit \<longrightarrow> t \<in> set (fd_pings fd)))
    \<and> 0 < period \<and> 2 * period \<le> v * 1000"
proof -
  let ?limit = "silence_limit (v * 1000) maxSilence"
  note sw = StartWatchdog_interval [OF assms]
  have scaled: "0 < v * 1000" "v * 1000 * 3 < 2 ^ 63" using sw(1) assms(3) by auto
  note bounds = silence_limit_bounds [OF scaled, of maxSilence]
  have small: "?limit < 2 ^ 63 - 1" using bounds(2) scaled by simp
  let ?fd = "\<lparr>fd_lastProgress = start, fd_env = x, fd_pings = [], fd_end = None\<rparr>"
  note pings = feed_pings [OF bounds(1) small, of ?fd, simplified]
  have "\<forall>t\<in>set (fd_pings fd). fed ?limit start evs t"
    using pings(1) unfolding sw(3) by blast
  moreover have "fd_end fd = None \<longrightarrow> (\<forall>t. fed ?limit start evs t \<longrightarrow> t \<in> set (fd_pings fd))"
    using pings(2) unfolding sw(3) by blast
  moreover have "0 < period" "2 * period \<le> v * 1000"
    using sw(1,2) by (simp_all add: ping_period_def go_div_def Let_def)
  ultimately show ?thesis
    using bounds unfolding fed_def by (intro exI [of _ ?limit]) blast
qed

definition example_getenv :: "string \<Rightarrow> string" where
  "example_getenv key = (if key = ''WATCHDOG_USEC'' then ''30000000'' else if key = ''NOTIFY_SOCKET'' then ''@n'' else '''')"

text \<open>
  A service with a watchdog of thirty seconds and the agent's limit of twenty: the loop beats once, after ten seconds,
  and then stalls; the ticks at fifteen and thirty seconds are pinged and those from 45 seconds on are not.
\<close>

definition stalled_loop :: "feed_event list" where
  "stalled_loop = [Beat (10 * Second), PingTick (15 * Second), PingTick (30 * Second), PingTick (45 * Second), PingTick (60 * Second)]"

lemma stalled_loop_fed:
  "StartWatchdog example_getenv 7 (\<lambda>socket message n. (None, n + 1)) (20 * Second) 0 stalled_loop (0 :: nat)
     = Inr (Some (15 * Second,
         \<lparr>fd_lastProgress = 10 * Second, fd_env = 2, fd_pings = [15 * Second, 30 * Second], fd_end = None\<rparr>))"
  by code_simp

theorem watchdog_needs_progress_witness:
  "\<exists>limit. 0 \<le> limit \<and> limit < 30 * Second
    \<and> (\<forall>t\<in>{15 * Second, 30 * Second}. \<exists>pre post. stalled_loop = pre @ PingTick t # post \<and> t - progress 0 pre \<le> limit)
    \<and> \<not> (\<exists>pre post. stalled_loop = pre @ PingTick (45 * Second) # post \<and> 45 * Second - progress 0 pre \<le> limit)"
proof -
  have usec: "ParseInt (example_getenv ''WATCHDOG_USEC'') = Some 30000000" by code_simp
  have late: "45 * Second \<notin> set [15 * Second, 30 * Second]" by code_simp
  have small: "(30000000 :: int) * 3000 < 2 ^ 63" by simp
  from watchdog_needs_progress [OF stalled_loop_fed usec small]
  obtain limit where limit: "0 \<le> limit" "limit < 30000000 * 1000"
    and pinged: "\<forall>t\<in>set [15 * Second, 30 * Second]. \<exists>pre post. stalled_loop = pre @ PingTick t # post \<and> t - progress 0 pre \<le> limit"
    and all: "\<forall>pre t post. stalled_loop = pre @ PingTick t # post \<and> t - progress 0 pre \<le> limit \<longrightarrow> t \<in> set [15 * Second, 30 * Second]"
    unfolding feeder.simps by blast
  have inside: "limit < 30 * Second" using limit(2) by (simp add: Second_def)
  show ?thesis
    by (rule exI [of _ limit]) (use limit(1) inside pinged all late in \<open>simp only: list.set, blast\<close>)
qed

section \<open>Asking for the health snapshot\<close>

text \<open>
  What is relied on of \<^verbatim>\<open>encoding/json\<close>, for the requests and answers that fit the limit: an encoded value is one line
  (the encoder adds the newline that ends it) and decodes to the value it encodes.
\<close>

definition json_lines :: "ipc_codec \<Rightarrow> request set \<Rightarrow> response set \<Rightarrow> bool" where
  "json_lines cd reqs resps \<longleftrightarrow>
     (\<forall>req\<in>reqs. newline \<notin> set (ic_encode_request cd req) \<and> length (ic_encode_request cd req) < MaxRequestBytes
       \<and> ic_decode_request cd (ic_encode_request cd req @ [newline]) = Inr req)
     \<and> (\<forall>resp\<in>resps. length (ic_encode_response cd resp) < MaxRequestBytes
       \<and> ic_decode_response cd (ic_encode_response cd resp @ [newline]) = Inr resp)"

text \<open>The client's connection to the server: its line goes in, the encoded answer comes back, then the end of the stream.\<close>

definition over_socket ::
  "ipc_codec \<Rightarrow> (health_error \<Rightarrow> string) \<Rightarrow> 'x provider option \<Rightarrow> string \<Rightarrow> 'x health_world \<Rightarrow> (string + string) \<times> 'x health_world" where
  "over_socket cd text provider line w =
     (case serveConn cd text provider False line False w of
        (None, w') \<Rightarrow> (Inr '''', w')
      | (Some resp, w') \<Rightarrow> (Inr (ic_encode_response cd resp @ [newline]), w'))"

lemma read_line_whole:
  assumes "newline \<notin> set line" "length line < MaxRequestBytes"
  shows "read_line (line @ [newline]) broken = Some (line @ [newline])"
proof -
  have "take (MaxRequestBytes + 1) (line @ [newline]) = line @ [newline]" using assms(2) by simp
  moreover have "takeWhile (\<lambda>c. c \<noteq> newline) (line @ [newline]) = line"
    using assms(1) by (subst takeWhile_append2) auto
  ultimately show ?thesis by (simp only: read_line_def Let_def) simp
qed

lemma Call_over_socket:
  assumes "json_lines cd reqs resps" "req \<in> reqs" "iq_ID req \<noteq> ''''" "iq_Method req \<noteq> ''''"
    and "Handle text provider req w = (resp, w')" "resp \<in> resps"
  shows "Call cd (over_socket cd text provider) req w = (Inr resp, w')"
proof -
  have small: "length (ic_encode_request cd req) < MaxRequestBytes" "length (ic_encode_response cd resp) < MaxRequestBytes"
    using assms(1,2,6) unfolding json_lines_def by blast+
  have wire: "newline \<notin> set (ic_encode_request cd req)" "ic_decode_request cd (ic_encode_request cd req @ [newline]) = Inr req"
    "ic_decode_response cd (ic_encode_response cd resp @ [newline]) = Inr resp"
    using assms(1,2,6) unfolding json_lines_def by blast+
  have "DecodeRequest cd (ic_encode_request cd req @ [newline]) = Inr req"
    using wire(2) assms(3,4) by (simp add: DecodeRequest_def)
  then have "over_socket cd text provider (ic_encode_request cd req @ [newline]) w = (Inr (ic_encode_response cd resp @ [newline]), w')"
    using small(1) assms(5) by (simp add: over_socket_def serveConn_def read_line_whole [OF wire(1) small(1)])
  moreover have "take MaxRequestBytes (ic_encode_response cd resp @ [newline]) = ic_encode_response cd resp @ [newline]"
    using small(2) by simp
  moreover have "ip_ID resp = iq_ID req"
    using assms(5) by (auto simp: Handle_def failure_response_def split: if_splits option.splits prod.splits sum.splits)
  ultimately show ?thesis using wire(3) by (simp add: Call_def)
qed

lemma Handle_cases:
  assumes "Handle text (Some (HealthSnapshot s)) req w = (resp, w')"
  shows "hw_file w' = hw_file w" "hw_env w' = hw_env w" "ip_ID resp = iq_ID req"
    and "iq_Method req = ''GetHealth'' \<Longrightarrow> fst (Load_health s w) = Inr snap \<Longrightarrow> ip_OK resp \<and> ip_Result resp = SnapshotResult snap"
    and "iq_Method req = ''GetHealth'' \<Longrightarrow> fst (Load_health s w) = Inl e \<Longrightarrow>
      \<not> ip_OK resp \<and> ip_Error resp = Some (''INTERNAL_ERROR'', text e)"
    and "iq_Method req \<noteq> ''GetHealth'' \<Longrightarrow> \<not> ip_OK resp \<and> ip_Error resp = Some (''UNKNOWN_METHOD'', ''unknown method'')"
  using assms Load_health_frame [of s w]
  by (auto simp: Handle_def HealthSnapshot_def failure_response_def split: if_splits prod.splits sum.splits)

text \<open>
  A client of the agent's health socket gets the supervisor's own answer: a request with an id and a method,
  it and its answer within the limit, is answered under its id, with exactly the snapshot the supervisor loads, with
  its error as INTERNAL_ERROR, or with UNKNOWN_METHOD for any other method; asking changes neither the state file
  nor the surroundings.
\<close>

theorem health_socket_tells_snapshot:
  assumes "json_lines cd {req} {fst (Handle text (Some (HealthSnapshot s)) req w)}" "iq_ID req \<noteq> ''''" "iq_Method req \<noteq> ''''"
  shows "\<exists>resp w'. Call cd (over_socket cd text (Some (HealthSnapshot s))) req w = (Inr resp, w')
    \<and> hw_file w' = hw_file w \<and> hw_env w' = hw_env w \<and> ip_ID resp = iq_ID req
    \<and> (if iq_Method req \<noteq> ''GetHealth'' then \<not> ip_OK resp \<and> ip_Error resp = Some (''UNKNOWN_METHOD'', ''unknown method'')
       else (case fst (Load_health s w) of
               Inr snap \<Rightarrow> ip_OK resp \<and> ip_Result resp = SnapshotResult snap
             | Inl e \<Rightarrow> \<not> ip_OK resp \<and> ip_Error resp = Some (''INTERNAL_ERROR'', text e)))"
proof -
  obtain resp w' where h: "Handle text (Some (HealthSnapshot s)) req w = (resp, w')"
    by (cases "Handle text (Some (HealthSnapshot s)) req w")
  have "Call cd (over_socket cd text (Some (HealthSnapshot s))) req w = (Inr resp, w')"
    using Call_over_socket [OF assms(1) _ assms(2,3) h] h by simp
  then show ?thesis
    using Handle_cases [OF h] by (auto split: sum.split)
qed

text \<open>A supervisor whose state file holds a degraded snapshot, and a codec that knows the answers it can give.\<close>

definition degraded_snapshot :: snapshot where
  "degraded_snapshot = NewSnapshot\<lparr>sn_State := Degraded, sn_Generation := 4\<rparr>"

definition example_supervisor :: "int supervisor" where
  "example_supervisor =
     \<lparr>sv_Checks = [], sv_Repairers = fmempty, sv_StatePath = ''/var/lib/h.json'', sv_MaxRepairAttempts = 0, sv_BaseBackoff = 0,
      sv_MaxBackoff = 0, sv_Now = (\<lambda>t. (t, t)), sv_encode = (\<lambda>_. Some ''{4}''),
      sv_decode = (\<lambda>b. if b = ''{4}'' then Inr degraded_snapshot else Inl ''bad JSON'')\<rparr>"

definition example_answer :: response where
  "example_answer = \<lparr>ip_ID = ''rollback-health'', ip_OK = True, ip_Result = SnapshotResult degraded_snapshot, ip_Error = None\<rparr>"

definition first_answer :: response where
  "first_answer = \<lparr>ip_ID = ''rollback-health'', ip_OK = True, ip_Result = SnapshotResult NewSnapshot, ip_Error = None\<rparr>"

definition failed_answer :: response where
  "failed_answer = failure_response ''rollback-health'' ''INTERNAL_ERROR'' ''failed''"

definition example_codec :: ipc_codec where
  "example_codec =
     \<lparr>ic_decode_request = (\<lambda>b. if b = ''{get}'' @ [newline] then Inr health_request else Inl ''unexpected''),
      ic_encode_request = (\<lambda>_. ''{get}''),
      ic_decode_response = (\<lambda>b.
        if b = ''{ok}'' @ [newline] then Inr example_answer
        else if b = ''{new}'' @ [newline] then Inr first_answer
        else if b = ''{err}'' @ [newline] then Inr failed_answer
        else Inl ''unexpected''),
      ic_encode_response = (\<lambda>resp. if \<not> ip_OK resp then ''{err}'' else if resp = example_answer then ''{ok}'' else ''{new}'')\<rparr>"

definition example_health_world :: "int health_world" where
  "example_health_world = \<lparr>hw_file = Some ''{4}'', hw_fault = (\<lambda>_. False), hw_calls = 0, hw_env = 0\<rparr>"

lemma example_load:
  assumes "hw_file w = Some ''{4}''" "\<forall>n. \<not> hw_fault w n"
  shows "fst (Load_health example_supervisor w) = Inr degraded_snapshot"
  using assms Load_health_calm [of w example_supervisor]
  by (simp add: example_supervisor_def degraded_snapshot_def NewSnapshot_def)

lemma example_handled:
  assumes "hw_file w = Some ''{4}''" "\<forall>n. \<not> hw_fault w n"
  shows "fst (Handle text (Some (HealthSnapshot example_supervisor)) health_request w) = example_answer"
  using example_load [OF assms]
  by (auto simp: Handle_def HealthSnapshot_def health_request_def example_answer_def split: prod.split sum.split)

lemma example_answers:
  "fst (Handle (\<lambda>_. ''failed'') (Some (HealthSnapshot example_supervisor)) health_request w) \<in> {example_answer, first_answer, failed_answer}"
proof -
  obtain r w1 where load: "Load_health example_supervisor w = (r, w1)" by (cases "Load_health example_supervisor w")
  then have "(\<exists>e. r = Inl e) \<or> r = Inr NewSnapshot \<or> r = Inr degraded_snapshot"
    by (auto simp: Load_health_def example_supervisor_def return_def throw_def seqE_def getS_def health_io_def Let_def
        split: if_splits option.splits sum.splits)
  then show ?thesis
    by (auto simp: Handle_def HealthSnapshot_def load health_request_def example_answer_def first_answer_def failed_answer_def)
qed

lemma example_lines: "json_lines example_codec {health_request} {example_answer, first_answer, failed_answer}"
proof -
  have "newline \<notin> set ''{get}''" by code_simp
  moreover have "first_answer \<noteq> example_answer"
    by (simp add: first_answer_def example_answer_def degraded_snapshot_def NewSnapshot_def)
  moreover have "ip_OK first_answer" "ip_OK example_answer" "\<not> ip_OK failed_answer"
    by (simp_all add: first_answer_def example_answer_def failed_answer_def failure_response_def)
  ultimately show ?thesis by (simp add: json_lines_def example_codec_def MaxRequestBytes_def)
qed

theorem health_socket_tells_snapshot_witness:
  "\<exists>resp w'. Call example_codec (over_socket example_codec (\<lambda>_. ''failed'') (Some (HealthSnapshot example_supervisor)))
       health_request example_health_world = (Inr resp, w')
     \<and> hw_file w' = Some ''{4}'' \<and> ip_OK resp \<and> ip_Result resp = SnapshotResult degraded_snapshot"
proof -
  have w: "hw_file example_health_world = Some ''{4}''" "\<forall>n. \<not> hw_fault example_health_world n"
    by (simp_all add: example_health_world_def)
  have named: "iq_ID health_request \<noteq> ''''" "iq_Method health_request \<noteq> ''''" "iq_Method health_request = ''GetHealth''"
    by (simp_all add: health_request_def)
  have "json_lines example_codec {health_request}
      {fst (Handle (\<lambda>_. ''failed'') (Some (HealthSnapshot example_supervisor)) health_request example_health_world)}"
    using example_lines unfolding json_lines_def example_handled [OF w] by blast
  from health_socket_tells_snapshot [OF this named(1,2)] show ?thesis
    unfolding example_load [OF w] w(1) using named(3) by (simp only: sum.case if_not_P not_not) blast
qed

section \<open>Waiting for a healthy agent\<close>

text \<open>
  What the wait relies on: the clock never goes back, and a pause that is not interrupted lasts as long as it was
  asked to.
\<close>

definition service_clock :: "'x service_runtime \<Rightarrow> ('x \<Rightarrow> instant) \<Rightarrow> bool" where
  "service_clock r clock \<longleftrightarrow>
     (\<forall>x. fst (sr_Now r x) = clock x \<and> clock x \<le> clock (snd (sr_Now r x)))
     \<and> (\<forall>req x. clock x \<le> clock (snd (sr_call r req x)))
     \<and> (\<forall>d x. fst (sr_pause r d x) = None \<longrightarrow> clock x + d \<le> clock (snd (sr_pause r d x)))
     \<and> (\<forall>d x. 0 \<le> d \<longrightarrow> clock x \<le> clock (snd (sr_pause r d x)))"

lemma service_clockD:
  assumes "service_clock r clock"
  shows "sr_Now r x = (now, x') \<Longrightarrow> now = clock x \<and> clock x \<le> clock x'"
    and "sr_call r req x = (res, x') \<Longrightarrow> clock x \<le> clock x'"
    and "sr_pause r d x = (None, x') \<Longrightarrow> clock x + d \<le> clock x'"
    and "sr_pause r d x = (p, x') \<Longrightarrow> 0 \<le> d \<Longrightarrow> clock x \<le> clock x'"
  using assms unfolding service_clock_def by (metis fst_conv snd_conv)+

text \<open>The world in which the wait saw an acceptable answer, as its last act and before the deadline.\<close>

definition accepted_at :: "'x service_runtime \<Rightarrow> ('x \<Rightarrow> instant) \<Rightarrow> instant \<Rightarrow> instant \<Rightarrow> 'x \<Rightarrow> bool" where
  "accepted_at r clock start deadline x' \<longleftrightarrow>
     (\<exists>z y res. sr_Now r z = (clock z, y) \<and> start \<le> clock z \<and> clock z < deadline
       \<and> sr_call r health_request y = (res, x') \<and> accepts res)"

lemma healthy_loop_returns:
  assumes "service_clock r clock"
  shows "\<exists>res x'. healthy_loop r deadline prev x = Some (res, x') \<and> clock x \<le> clock x'
    \<and> (res = None \<longrightarrow> accepted_at r clock (clock x) deadline x')"
proof (induction "nat (deadline - clock x)" arbitrary: x prev rule: less_induct)
  case less
  note moves = service_clockD [OF assms]
  obtain now x1 where now: "sr_Now r x = (now, x1)" by (cases "sr_Now r x")
  obtain res x2 where call: "sr_call r health_request x1 = (res, x2)" by (cases "sr_call r health_request x1")
  obtain paused x3 where pause: "sr_pause r (250 * Millisecond) x2 = (paused, x3)" by (cases "sr_pause r (250 * Millisecond) x2")
  have hit: "accepted_at r clock (clock x) deadline x2" if "now < deadline" "accepts res"
    using that now call moves(1) [OF now] unfolding accepted_at_def by blast
  have forward: "clock x \<le> clock x1" "clock x \<le> clock x2" "clock x \<le> clock x3"
    using moves(1) [OF now] moves(2) [OF call] moves(4) [OF pause] by (simp_all add: Millisecond_def)
  have again: "\<exists>res x'. healthy_loop r deadline prev' x3 = Some (res, x') \<and> clock x \<le> clock x'
      \<and> (res = None \<longrightarrow> accepted_at r clock (clock x) deadline x')" if "now < deadline" "paused = None" for prev'
  proof -
    have later: "clock x + 1 \<le> clock x3"
      using moves(1) [OF now] moves(2) [OF call] moves(3) [of "250 * Millisecond" x2 x3] pause that(2) by (simp add: Millisecond_def)
    then have "nat (deadline - clock x3) < nat (deadline - clock x)" using that(1) moves(1) [OF now] by simp
    from less [OF this] later show ?thesis unfolding accepted_at_def by fastforce
  qed
  show ?case
    unfolding healthy_loop.simps [of r deadline prev x] now prod.case call pause
    using hit again forward by (auto split: option.split)
qed

lemma Healthy_returns:
  assumes "service_clock r clock"
  shows "\<exists>res x'. ServiceRuntime_Healthy r x = Some (res, x') \<and> clock x \<le> clock x'
    \<and> (res = None \<longrightarrow> accepted_at r clock (clock x) (clock x + runtime_timeout r) x')"
proof -
  obtain now x1 where now: "sr_Now r x = (now, x1)" by (cases "sr_Now r x")
  note at = service_clockD(1) [OF assms now]
  show ?thesis
    using healthy_loop_returns [OF assms, of "now + runtime_timeout r" None x1] at
    unfolding ServiceRuntime_Healthy_def now prod.case accepted_at_def by fastforce
qed


definition example_runtime :: "int health_world service_runtime" where
  "example_runtime =
     \<lparr>sr_Service = '''', sr_Runner = (\<lambda>_ w. (('''', None), w)), sr_HealthTimeout = 0,
      sr_Now = (\<lambda>w. (hw_env w, w)),
      sr_call = Call example_codec (over_socket example_codec (\<lambda>_. ''failed'') (Some (HealthSnapshot example_supervisor))),
      sr_pause = (\<lambda>d w. (None, w\<lparr>hw_env := hw_env w + d\<rparr>)), sr_text = (\<lambda>_. ''no answer'')\<rparr>"

lemma example_clock: "service_clock example_runtime hw_env"
proof -
  have "hw_env (snd (over_socket example_codec t (Some (HealthSnapshot example_supervisor)) line w)) = hw_env w" for t line w
    using Handle_cases(2) [of t example_supervisor _ w]
    by (auto simp: over_socket_def serveConn_def split: option.splits prod.splits sum.splits)
  then have "hw_env (snd (sr_call example_runtime req w)) = hw_env w" for req w
    unfolding example_runtime_def service_runtime.simps Call_def
    by (auto split: prod.splits sum.splits) (metis snd_conv)+
  then show ?thesis by (simp add: service_clock_def example_runtime_def)
qed

lemma example_healthy: "fst (the (ServiceRuntime_Healthy example_runtime example_health_world)) = None"
proof -
  let ?w = example_health_world
  have w: "hw_file ?w = Some ''{4}''" "\<forall>n. \<not> hw_fault ?w n" "hw_env ?w = 0"
    by (simp_all add: example_health_world_def)
  obtain w' where "Handle (\<lambda>_. ''failed'') (Some (HealthSnapshot example_supervisor)) health_request ?w = (example_answer, w')"
    using example_handled [OF w(1,2), of "\<lambda>_. ''failed''"] by (metis prod.collapse)
  from Call_over_socket [OF example_lines _ _ _ this]
  have "sr_call example_runtime health_request ?w = (Inr example_answer, w')"
    by (simp add: example_runtime_def health_request_def)
  moreover have "accepts (Inr example_answer)"
    by (simp add: accepts_def result_snapshot_def example_answer_def degraded_snapshot_def NewSnapshot_def)
  moreover have "sr_Now example_runtime ?w = (0, ?w)" "0 < runtime_timeout example_runtime"
    by (simp_all add: example_runtime_def runtime_timeout_def w(3) Second_def)
  ultimately show ?thesis
    by (simp add: ServiceRuntime_Healthy_def healthy_loop.simps)
qed


end
