(* ===== verification/Commands.thy ===== *)
theory Commands
  imports Service Revision_Props Host_Checks
begin

text \<open>
  The commands an operator and the timers run: \<^verbatim>\<open>agent/cmd/cockpit-ups-wolctl\<close>, \<^verbatim>\<open>agent/cmd/cockpit-ups-wol-health\<close>, and the
  reports of \<^verbatim>\<open>agent/internal/report\<close> they print. Standard input, the user, other processes and the flag parser's
  result are parameters.
\<close>

section \<open>Reports\<close>

record config_status =
  cs_Active :: string
  cs_LastKnownGood :: string
  cs_PreviousKnownGood :: string
  cs_ActiveManifest :: "manifest option"
  cs_LKGManifest :: "manifest option"
  cs_KnownGood :: "manifest list"

definition manifest_of :: "'x manager \<Rightarrow> string \<Rightarrow> ('x, manifest option) rev_proc" where
  "manifest_of m rid = (if rid \<noteq> '''' then seqE (readManifest m rid) (\<lambda>mf. return (Some mf)) else return None)"

definition ReadConfigStatus :: "'x manager \<Rightarrow> ('x, config_status) rev_proc" where
  "ReadConfigStatus m =
     seqE (readPointer Active) (\<lambda>active.
     seqE (readPointer LastKnownGoodPtr) (\<lambda>lkg.
     seqE (readPointer PreviousKnownGoodPtr) (\<lambda>prev.
     seqE (KnownGoodRevisions m) (\<lambda>known.
     seqE (manifest_of m active) (\<lambda>amf.
     seqE (manifest_of m lkg) (\<lambda>lmf.
     return \<lparr>cs_Active = active, cs_LastKnownGood = lkg, cs_PreviousKnownGood = prev,
       cs_ActiveManifest = amf, cs_LKGManifest = lmf, cs_KnownGood = known\<rparr>))))))"

record ups_plan =
  up_Profile :: string
  up_Target :: string
  up_PowerCycleCapability :: string
  up_SynologyCompatibility :: bool

record outage_plan =
  op_GracePeriodSeconds :: int
  op_CriticalBatteryPercent :: "int option"
  op_CriticalRuntimeSeconds :: "int option"
  op_MaxOnBatterySeconds :: "int option"

record restore_conditions =
  rp_Enabled :: bool
  rp_UtilityStableSeconds :: int
  rp_BatteryChargeMin :: "int option"
  rp_RuntimeMinSeconds :: "int option"
  rp_RechargeTimeSeconds :: "int option"
  rp_NetworkWaitSeconds :: int

record dependency_plan =
  dp_ID :: string
  dp_Name :: string
  dp_Startup :: string
  dp_Priority :: int
  dp_Status :: string

record shutdown_entry =
  sp_ID :: string
  sp_Name :: string
  sp_Method :: string
  sp_Priority :: int
  sp_DependsOn :: "string list"

record restore_entry =
  re_ID :: string
  re_Name :: string
  re_RestorePolicy :: string
  re_WakeEnabled :: bool
  re_WakePriority :: int
  re_DependsOn :: "string list"

record power_plan =
  pl_Mode :: string
  pl_UPS :: ups_plan
  pl_Outage :: outage_plan
  pl_Recovery :: restore_conditions
  pl_Dependencies :: "dependency_plan list"
  pl_Shutdown :: "shutdown_entry list"
  pl_Restore :: "restore_entry list"

definition dependency_plan_of :: "dependency_config \<Rightarrow> dependency_plan" where
  "dependency_plan_of d =
     \<lparr>dp_ID = dc_ID d, dp_Name = dc_Name d, dp_Startup = dc_Startup d, dp_Priority = dc_Priority d,
      dp_Status = sc_Method (dc_Status d)\<rparr>"

definition shutdown_entry_of :: "host_config \<Rightarrow> shutdown_entry" where
  "shutdown_entry_of h =
     \<lparr>sp_ID = hc_ID h, sp_Name = hc_Name h, sp_Method = sd_Method (hc_Shutdown h), sp_Priority = sd_Priority (hc_Shutdown h),
      sp_DependsOn = hc_DependsOn h\<rparr>"

definition restore_entry_of :: "host_config \<Rightarrow> restore_entry" where
  "restore_entry_of h =
     \<lparr>re_ID = hc_ID h, re_Name = hc_Name h, re_RestorePolicy = hc_RestorePolicy h, re_WakeEnabled = wk_Enabled (hc_Wake h),
      re_WakePriority = wk_Priority (hc_Wake h), re_DependsOn = hc_DependsOn h\<rparr>"

definition BuildPlan :: "config \<Rightarrow> power_plan" where
  "BuildPlan cfg =
     (let nut = cf_NUT cfg; oc = cf_Outage cfg; rc = cf_Recovery cfg in
      \<lparr>pl_Mode = cf_Mode cfg,
       pl_UPS = \<lparr>up_Profile = nc_Profile nut, up_Target = nc_UPSName nut @ ''@'' @ nc_Host nut @ '':'' @ itoa (nc_Port nut),
         up_PowerCycleCapability = nc_PowerCycleCapability nut, up_SynologyCompatibility = sy_Enabled (nc_Synology nut)\<rparr>,
       pl_Outage = \<lparr>op_GracePeriodSeconds = oc_GracePeriodSeconds oc, op_CriticalBatteryPercent = oc_CriticalBatteryPercent oc,
         op_CriticalRuntimeSeconds = oc_CriticalRuntimeSeconds oc, op_MaxOnBatterySeconds = oc_MaxOnBatterySeconds oc\<rparr>,
       pl_Recovery = \<lparr>rp_Enabled = rc_Enabled rc, rp_UtilityStableSeconds = rc_UtilityStableSeconds rc,
         rp_BatteryChargeMin = rc_BatteryChargeMin rc, rp_RuntimeMinSeconds = rc_RuntimeMinSeconds rc,
         rp_RechargeTimeSeconds = rc_RechargeTimeSeconds rc, rp_NetworkWaitSeconds = rc_NetworkWaitSeconds rc\<rparr>,
       pl_Dependencies = sort_key dp_Priority (map dependency_plan_of (cf_Dependencies cfg)),
       pl_Shutdown = sort_key sp_Priority (map shutdown_entry_of (cf_Hosts cfg)),
       pl_Restore = sort_key re_WakePriority (map restore_entry_of (cf_Hosts cfg))\<rparr>)"

section \<open>The control command\<close>

definition maxCandidateBytes :: nat where
  "maxCandidateBytes = 2097152"

datatype cli_error =
    UsageError
  | UnknownCommand string
  | RootRequired string
  | CandidateUnreadable
  | CandidateEmpty
  | CandidateTooLarge
  | ConfigInvalid config_error
  | CapabilityPanic
  | NotArmable armed_error
  | MissingPrerequisites "(string \<times> prerequisite) list"
  | RevisionError rev_error
  | ExecutableUnknown
  | ActivationFailed string string
  | ArgumentCount string
  | SocketCall call_error
  | JournalFailed string string

datatype cli_output =
    Answer response
  | ActiveContent string
  | Valid power_plan
  | Status config_status
  | ManifestPrinted manifest
  | PlanPrinted power_plan
  | Journal string

text \<open>What the command finds: the user, standard input (which may break off), and the processes it runs.\<close>

record 'x cli =
  cl_euid :: int
  cl_stdin :: string
  cl_stdin_broken :: bool
  cl_files :: local_files
  cl_executable :: "string option"
  cl_socket :: string
  cl_config :: string
  cl_history :: string
  cl_systemd_run :: "string list \<Rightarrow> 'x rev_world \<Rightarrow> (string \<times> string option) \<times> 'x rev_world"
  cl_call :: "request \<Rightarrow> 'x \<Rightarrow> (call_error + response) \<times> 'x"
  cl_journal :: "'x \<Rightarrow> (string \<times> string option) \<times> 'x"
  cl_runtime :: "'x service_runtime"

type_synonym ('x, 'a) cli_proc = "('x rev_world, cli_error, 'a) proc"

definition lift_rev :: "('x, 'a) rev_proc \<Rightarrow> ('x, 'a) cli_proc" where
  "lift_rev f = (\<lambda>w. case f w of (Inl e, w') \<Rightarrow> (Inl (RevisionError e), w') | (Inr a, w') \<Rightarrow> (Inr a, w'))"

definition ask :: "('x \<Rightarrow> 'a \<times> 'x) \<Rightarrow> ('x, 'a) cli_proc" where
  "ask f = (\<lambda>w. let (r, x') = f (rw_env w) in (Inr r, w\<lparr>rw_env := x'\<rparr>))"

definition requireRoot :: "'x cli \<Rightarrow> string \<Rightarrow> ('x, unit) cli_proc" where
  "requireRoot cl command = (if cl_euid cl \<noteq> 0 then throw (RootRequired command) else return ())"

definition readCandidate :: "string \<Rightarrow> bool \<Rightarrow> cli_error + string" where
  "readCandidate data broken =
     (let content = take (maxCandidateBytes + 1) data in
      if broken \<and> length data \<le> maxCandidateBytes then Inl CandidateUnreadable
      else if content = '''' then Inl CandidateEmpty
      else if length content > maxCandidateBytes then Inl CandidateTooLarge
      else Inr content)"

text \<open>What \<^verbatim>\<open>config-validate\<close> and \<^verbatim>\<open>config-apply\<close> check of a candidate.\<close>

definition check_candidate :: "'x cli \<Rightarrow> 'x manager \<Rightarrow> cli_error + string \<times> config" where
  "check_candidate cl m =
     (case readCandidate (cl_stdin cl) (cl_stdin_broken cl) of
        Inl e \<Rightarrow> Inl e
      | Inr content \<Rightarrow>
          (case parse_content m content of
             Inl e \<Rightarrow> Inl (ConfigInvalid e)
           | Inr cfg \<Rightarrow>
               if cf_Mode cfg = ''armed'' then
                 (case ValidateArmedCapabilities (cl_files cl) cfg of
                    None \<Rightarrow> Inl CapabilityPanic
                  | Some (Inl e) \<Rightarrow> Inl (NotArmable e)
                  | Some (Inr []) \<Rightarrow> Inr (content, cfg)
                  | Some (Inr missing) \<Rightarrow> Inl (MissingPrerequisites missing))
               else Inr (content, cfg)))"

definition activation_command :: "'x cli \<Rightarrow> string \<Rightarrow> string \<Rightarrow> string list" where
  "activation_command cl exe rid =
     [''systemd-run'', ''--quiet'', ''--wait'', ''--collect'', ''--unit='' @ ''cockpit-ups-wol-config-'' @ rid, exe,
      ''--socket'', cl_socket cl, ''--config'', cl_config cl, ''--history-dir'', cl_history cl, ''config-activate'', rid]"

definition activateViaSystemd :: "'x cli \<Rightarrow> string \<Rightarrow> ('x, unit) cli_proc" where
  "activateViaSystemd cl rid =
     (case cl_executable cl of
        None \<Rightarrow> throw ExecutableUnknown
      | Some exe \<Rightarrow>
          (\<lambda>w. case cl_systemd_run cl (activation_command cl exe rid) w of
                 ((out, None), w') \<Rightarrow> (Inr (), w')
               | ((out, Some e), w') \<Rightarrow> (Inl (ActivationFailed e out), w')))"

definition health_command :: "'x cli \<Rightarrow> ('x, cli_output) cli_proc" where
  "health_command cl =
     seqE (ask (cl_call cl \<lparr>iq_ID = ''cli-health'', iq_Method = ''GetHealth''\<rparr>)) (\<lambda>res.
     case res of Inl e \<Rightarrow> throw (SocketCall e) | Inr resp \<Rightarrow> return (Answer resp))"

definition get_command :: "('x, cli_output) cli_proc" where
  "get_command = seqE (lift_rev readActive) (\<lambda>content. return (ActiveContent content))"

definition validate_command :: "'x cli \<Rightarrow> 'x manager \<Rightarrow> ('x, cli_output) cli_proc" where
  "validate_command cl m =
     (case check_candidate cl m of Inl e \<Rightarrow> throw e | Inr (content, cfg) \<Rightarrow> return (Valid (BuildPlan cfg)))"

definition status_command :: "'x manager \<Rightarrow> ('x, cli_output) cli_proc" where
  "status_command m = seqE (lift_rev (ReadConfigStatus m)) (\<lambda>status. return (Status status))"

definition apply_command :: "'x cli \<Rightarrow> 'x manager \<Rightarrow> ('x, cli_output) cli_proc" where
  "apply_command cl m =
     seqE (requireRoot cl ''config-apply'') (\<lambda>_.
     case check_candidate cl m of
       Inl e \<Rightarrow> throw e
     | Inr (content, cfg) \<Rightarrow>
         seqE (lift_rev (Begin m ''cockpit'' content)) (\<lambda>mf.
         seqE (activateViaSystemd cl (mf_RevisionID mf)) (\<lambda>_.
         status_command m)))"

text \<open>
  The runtime the manager tries a revision on. The health trial returns on every clock that moves, so the text of
  the other case is never seen.
\<close>

definition service_as_runtime :: "'x service_runtime \<Rightarrow> 'x runtime" where
  "service_as_runtime r =
     \<lparr>rt_Apply = (\<lambda>_. ServiceRuntime_Apply r),
      rt_Healthy = (\<lambda>x. case ServiceRuntime_Healthy r x of Some res \<Rightarrow> res | None \<Rightarrow> (Some ''never returns'', x))\<rparr>"

text \<open>The revision a worker command is given, for root only.\<close>

definition revision_argument :: "'x cli \<Rightarrow> string \<Rightarrow> string list \<Rightarrow> cli_error + string" where
  "revision_argument cl command args =
     (if cl_euid cl \<noteq> 0 then Inl (RootRequired command)
      else if length args \<noteq> 2 then Inl (ArgumentCount command)
      else (case ValidateRevisionID (args ! 1) of Some e \<Rightarrow> Inl (RevisionError e) | None \<Rightarrow> Inr (args ! 1)))"

definition activate_command ::
  "'x cli \<Rightarrow> 'x manager \<Rightarrow> string list \<Rightarrow> 'x rev_world \<Rightarrow> ((cli_error + cli_output) \<times> 'x rev_world) option" where
  "activate_command cl m args w =
     (case revision_argument cl ''config-activate'' args of
        Inl e \<Rightarrow> Some (Inl e, w)
      | Inr rid \<Rightarrow>
          (case ActivateAndValidate m rid (Some (service_as_runtime (cl_runtime cl))) w of
             None \<Rightarrow> None
           | Some (Inl e, w') \<Rightarrow> Some (Inl (RevisionError e), w')
           | Some (Inr mf, w') \<Rightarrow> Some (Inr (ManifestPrinted mf), w')))"

definition rollback_command :: "'x cli \<Rightarrow> 'x manager \<Rightarrow> string list \<Rightarrow> ('x, cli_output) cli_proc" where
  "rollback_command cl m args =
     (case revision_argument cl ''config-rollback'' args of
        Inl e \<Rightarrow> throw e
      | Inr rid \<Rightarrow>
          seqE (lift_rev (Rollback m rid (Some (service_as_runtime (cl_runtime cl))))) (\<lambda>_. status_command m))"

definition plan_command :: "'x manager \<Rightarrow> ('x, cli_output) cli_proc" where
  "plan_command m =
     seqE (lift_rev readActive) (\<lambda>content.
     case parse_content m content of
       Inl e \<Rightarrow> throw (ConfigInvalid e)
     | Inr cfg \<Rightarrow> return (PlanPrinted (BuildPlan cfg)))"

definition logs_command :: "'x cli \<Rightarrow> ('x, cli_output) cli_proc" where
  "logs_command cl =
     seqE (ask (cl_journal cl)) (\<lambda>(out, err).
     case err of Some e \<Rightarrow> throw (JournalFailed e out) | None \<Rightarrow> return (Journal out))"

definition bootstrap_command :: "'x manager \<Rightarrow> ('x, cli_output) cli_proc" where
  "bootstrap_command m =
     seqE (lift_rev readActive) (\<lambda>content.
     seqE (lift_rev (BootstrapKnownGood m ''installer'' content)) (\<lambda>mf.
     return (ManifestPrinted mf)))"

text \<open>The arguments the flag parser leaves.\<close>

definition wolctl ::
  "'x cli \<Rightarrow> 'x manager \<Rightarrow> string list \<Rightarrow> 'x rev_world \<Rightarrow> ((cli_error + cli_output) \<times> 'x rev_world) option" where
  "wolctl cl m args w =
     (if args = [] then Some (Inl UsageError, w)
      else
        (let command = args ! 0 in
         if command = ''health'' then Some (health_command cl w)
         else if command = ''config-get'' then Some (get_command w)
         else if command = ''config-validate'' then Some (validate_command cl m w)
         else if command = ''config-apply'' then Some (apply_command cl m w)
         else if command = ''config-activate'' then activate_command cl m args w
         else if command = ''config-status'' then Some (status_command m w)
         else if command = ''config-rollback'' then Some (rollback_command cl m args w)
         else if command = ''plan'' then Some (plan_command m w)
         else if command = ''logs'' then Some (logs_command cl w)
         else if command = ''config-bootstrap'' then Some (bootstrap_command m w)
         else Some (Inl (UnknownCommand command), w)))"

definition exit_code :: "cli_error + cli_output \<Rightarrow> nat" where
  "exit_code res =
     (case res of
        Inl UsageError \<Rightarrow> 2
      | Inl (UnknownCommand _) \<Rightarrow> 2
      | Inl _ \<Rightarrow> 1
      | Inr (Answer resp) \<Rightarrow> (if ip_OK resp then 0 else 1)
      | Inr _ \<Rightarrow> 0)"

section \<open>The health command\<close>

definition safetyCriticalUnit :: "string \<Rightarrow> bool" where
  "safetyCriticalUnit unit \<longleftrightarrow> unit \<noteq> ''cockpit.socket''"

definition requiredUnitsForConfig :: "config \<Rightarrow> string list" where
  "requiredUnitsForConfig cfg =
     [''cockpit-ups-wol-agent.service'', ''cockpit.socket'']
     @ (if nc_Profile (cf_NUT cfg) = ''local-server'' then [''nut-server.service'', ''nut-monitor.service''] else [])
     @ (if nn_Mode (nc_Network (cf_NUT cfg)) = ''restricted'' then [''cockpit-ups-wol-firewall.service''] else [])"

definition unit_check :: "'x unit_runner \<Rightarrow> string \<Rightarrow> 'x systemd_unit" where
  "unit_check run unit = \<lparr>su_Runner = run, su_Unit = unit, su_Critical = safetyCriticalUnit unit, su_Timeout = 0\<rparr>"

text \<open>The supervisor the command builds for the units; \<open>base\<close> holds the clock, the codec and the defaults.\<close>

definition unit_supervisor :: "'x unit_runner \<Rightarrow> 'x supervisor \<Rightarrow> string \<Rightarrow> int \<Rightarrow> string list \<Rightarrow> 'x supervisor" where
  "unit_supervisor run base statePath maxAttempts units =
     base\<lparr>sv_StatePath := statePath, sv_MaxRepairAttempts := maxAttempts,
       sv_Checks := map (\<lambda>u. \<lparr>hk_Name = unit_name (unit_check run u), hk_Run = SystemdUnitCheck_Run (unit_check run u)\<rparr>) units,
       sv_Repairers := fold (\<lambda>u m. fmupd (unit_name (unit_check run u)) (SystemdUnitRepair_Repair (unit_check run u)) m) units fmempty\<rparr>"

datatype health_outcome = ConfigUnreadable | ConfigUnparsable config_error | SupervisorFailed health_error | Checked snapshot

definition run_health ::
  "'x unit_runner \<Rightarrow> 'x supervisor \<Rightarrow> (string \<Rightarrow> config_error + config) \<Rightarrow> string option \<Rightarrow> string list \<Rightarrow> string \<Rightarrow> int \<Rightarrow> bool
     \<Rightarrow> 'x health_world \<Rightarrow> health_outcome \<times> 'x health_world" where
  "run_health run base parse configFile requiredUnits statePath maxAttempts repair w =
     (let check = (\<lambda>units.
            case Run (unit_supervisor run base statePath maxAttempts units) repair w of
              (Inl e, w') \<Rightarrow> (SupervisorFailed e, w')
            | (Inr snap, w') \<Rightarrow> (Checked snap, w'))
      in if requiredUnits = [] then
           (case configFile of
              None \<Rightarrow> (ConfigUnreadable, w)
            | Some content \<Rightarrow>
                (case parse content of
                   Inl e \<Rightarrow> (ConfigUnparsable e, w)
                 | Inr cfg \<Rightarrow> check (requiredUnitsForConfig cfg)))
         else check requiredUnits)"

definition health_exit_code :: "health_outcome \<Rightarrow> nat" where
  "health_exit_code out =
     (case out of Checked snap \<Rightarrow> if sn_State snap = HealthFailedSafe then 2 else 0 | _ \<Rightarrow> 1)"

section \<open>Only vetted commands reach the history\<close>

text \<open>A step that leaves the files alone.\<close>

definition leaves_files :: "('x, 'a) cli_proc \<Rightarrow> bool" where
  "leaves_files f \<longleftrightarrow> (\<forall>w. rw_files (snd (f w)) = rw_files w \<and> rw_seen (snd (f w)) = rw_seen w)"

lemma leaves_seqE [intro]:
  assumes "leaves_files f" "\<And>a. leaves_files (g a)"
  shows "leaves_files (seqE f g)"
  using assms unfolding leaves_files_def seqE_def by (auto split: prod.split sum.split) (metis snd_conv)+

lemma leaves_basic [intro]: "leaves_files (throw e)" "leaves_files (return a)" "leaves_files (ask h)"
  by (auto simp: leaves_files_def throw_def return_def ask_def split: prod.split)

lemma leaves_cases [intro]:
  "(\<And>e. leaves_files (f e)) \<Longrightarrow> (\<And>a. leaves_files (g a)) \<Longrightarrow> leaves_files (case_sum f g s)"
  "leaves_files k \<Longrightarrow> (\<And>a. leaves_files (h a)) \<Longrightarrow> leaves_files (case_option k h t)"
  "(\<And>a b. leaves_files (j a b)) \<Longrightarrow> leaves_files (case_prod j p)"
  by (simp_all split: sum.split option.split prod.split)

lemma leaves_lift: "quiet f \<Longrightarrow> leaves_files (lift_rev f)"
  unfolding leaves_files_def quiet_def lift_rev_def by (auto split: prod.split sum.split) (metis snd_conv)+

lemma quiet_ReadConfigStatus: "quiet (ReadConfigStatus m)"
  unfolding ReadConfigStatus_def manifest_of_def
  by (intro quiet_seqE quiet_reads quiet_KnownGoodRevisions quiet_basic) (auto intro!: quiet_seqE quiet_reads quiet_basic)

lemma leaves_status: "leaves_files (status_command m)"
  unfolding status_command_def by (intro leaves_seqE leaves_lift quiet_ReadConfigStatus leaves_basic)

lemma leaves_readers:
  "leaves_files (health_command cl)" "leaves_files (validate_command cl m)" "leaves_files (plan_command m)"
  "leaves_files (logs_command cl)" "leaves_files (get_command :: ('x, cli_output) cli_proc)"
  unfolding health_command_def validate_command_def plan_command_def logs_command_def get_command_def
  by (intro leaves_seqE leaves_cases leaves_lift quiet_reads leaves_basic)+

lemma check_candidate_passed:
  assumes "check_candidate cl m = Inr (content, cfg)"
  shows "readCandidate (cl_stdin cl) (cl_stdin_broken cl) = Inr content" "parse_content m content = Inr cfg"
    and "cf_Mode cfg = ''armed'' \<Longrightarrow> ValidateArmedCapabilities (cl_files cl) cfg = Some (Inr [])"
  using assms by (auto simp: check_candidate_def split: sum.splits option.splits if_splits list.splits)

lemma readCandidate_bounds:
  "readCandidate data broken = Inr content \<Longrightarrow> content = data \<and> content \<noteq> '''' \<and> length content \<le> maxCandidateBytes"
  by (auto simp: readCandidate_def Let_def split: if_splits)

definition touched :: "'x rev_world \<Rightarrow> 'x rev_world \<Rightarrow> bool" where
  "touched w w' \<longleftrightarrow> rw_files w' \<noteq> rw_files w \<or> rw_seen w' \<noteq> rw_seen w"

lemma leaves_untouched: "leaves_files f \<Longrightarrow> f w = (res, w') \<Longrightarrow> \<not> touched w w'"
  unfolding leaves_files_def touched_def by (metis snd_conv)

lemma apply_touches:
  assumes "apply_command cl m w = (res, w')" "touched w w'"
  shows "cl_euid cl = 0 \<and> (\<exists>cfg. check_candidate cl m = Inr (cl_stdin cl, cfg)) \<and> cl_stdin cl \<noteq> ''''
    \<and> length (cl_stdin cl) \<le> maxCandidateBytes"
proof -
  have root: "cl_euid cl = 0"
    using assms by (auto simp: apply_command_def requireRoot_def seqE_def throw_def touched_def split: if_splits)
  obtain content cfg where c: "check_candidate cl m = Inr (content, cfg)"
    using assms root by (cases "check_candidate cl m")
      (auto simp: apply_command_def requireRoot_def seqE_def return_def throw_def touched_def)
  from readCandidate_bounds [OF check_candidate_passed(1) [OF c]] c root show ?thesis by blast
qed

lemma bootstrap_touches:
  assumes "bootstrap_command m w = (res, w')" "touched w w'"
  shows "\<exists>content cfg. hy_active (rw_files w) = Some content \<and> parse_content m content = Inr cfg"
proof -
  obtain r w1 where r: "(readActive :: ('a, string) rev_proc) w = (r, w1)" by (cases "(readActive :: ('a, string) rev_proc) w")
  have same: "rw_files w1 = rw_files w" "rw_seen w1 = rw_seen w"
    using quiet_reads(4) r unfolding quiet_def by (metis snd_conv)+
  obtain content where content: "r = Inr content"
    using assms r same by (cases r) (auto simp: bootstrap_command_def lift_rev_def seqE_def touched_def)
  then have active: "hy_active (rw_files w) = Some content"
    using r by (auto simp: readActive_def seqE_def syscall_def getS_def throw_def return_def Let_def
        split: if_splits option.splits)
  have "quiet (BootstrapKnownGood m source content)" if "parse_content m content = Inl e" for e source
    using that unfolding BootstrapKnownGood_def Let_def
    by (intro quiet_seqE quiet_steps) (simp add: parse_content_def manager_defaults_def quiet_basic)
  then have "leaves_files (lift_rev (BootstrapKnownGood m ''installer'' content))" if "\<forall>cfg. parse_content m content \<noteq> Inr cfg"
    using that by (cases "parse_content m content") (auto intro: leaves_lift)
  then have "leaves_files (bootstrap_rest :: ('a, cli_output) cli_proc)"
    if "\<forall>cfg. parse_content m content \<noteq> Inr cfg"
      "bootstrap_rest = seqE (lift_rev (BootstrapKnownGood m ''installer'' content)) (\<lambda>mf. return (ManifestPrinted mf))" for bootstrap_rest
    using that by (auto intro!: leaves_seqE leaves_basic)
  moreover have "bootstrap_command m w = seqE (lift_rev (BootstrapKnownGood m ''installer'' content)) (\<lambda>mf. return (ManifestPrinted mf)) w1"
    using r content by (simp add: bootstrap_command_def lift_rev_def seqE_def)
  moreover have "touched w1 w'" using assms(2) same by (simp add: touched_def)
  ultimately have "\<exists>cfg. parse_content m content = Inr cfg"
    using assms(1) leaves_untouched by metis
  with active show ?thesis by blast
qed

lemma revision_argument_passed:
  "revision_argument cl command args = Inr rid \<Longrightarrow> cl_euid cl = 0 \<and> length args = 2 \<and> rid = args ! 1 \<and> revisionIDPattern (args ! 1)"
  by (auto simp: revision_argument_def ValidateRevisionID_def split: if_splits option.splits)

text \<open>
  Claim C26. The control command changes the configuration and its history only after the checks its command asks for:
  applying needs root and a candidate within the size limit that is a valid configuration and, when armed, misses no
  shutdown prerequisite; activating and rolling back need root and one well-formed revision identifier; bootstrapping needs a
  valid active file; every other command line leaves every file as it was.
\<close>

theorem control_command_touches_only_vetted:
  assumes "wolctl cl m args w = Some (res, w')" "rw_files w' \<noteq> rw_files w \<or> rw_seen w' \<noteq> rw_seen w"
  shows "hd args = ''config-apply'' \<and> cl_euid cl = 0 \<and> 0 < length (cl_stdin cl) \<and> length (cl_stdin cl) \<le> maxCandidateBytes
      \<and> (\<exists>cfg. parse_content m (cl_stdin cl) = Inr cfg
          \<and> (cf_Mode cfg \<noteq> ''armed'' \<or> ValidateArmedCapabilities (cl_files cl) cfg = Some (Inr [])))
    \<or> hd args \<in> {''config-activate'', ''config-rollback''} \<and> cl_euid cl = 0 \<and> length args = 2 \<and> revisionIDPattern (args ! 1)
    \<or> hd args = ''config-bootstrap''
      \<and> (\<exists>content cfg. hy_active (rw_files w) = Some content \<and> parse_content m content = Inr cfg)"
proof -
  have change: "touched w w'" using assms(2) unfolding touched_def .
  have head: "hd args = args ! 0" if "args \<noteq> []" using that by (simp add: hd_conv_nth)
  have unchanged: "\<not> touched w w" by (simp add: touched_def)
  note idle = leaves_readers [THEN leaves_untouched] leaves_status [THEN leaves_untouched]
  have "\<not> touched w w'
      \<or> (args \<noteq> [] \<and> args ! 0 = ''config-apply'' \<and> apply_command cl m w = (res, w'))
      \<or> (args \<noteq> [] \<and> args ! 0 = ''config-activate'' \<and> activate_command cl m args w = Some (res, w'))
      \<or> (args \<noteq> [] \<and> args ! 0 = ''config-rollback'' \<and> rollback_command cl m args w = (res, w'))
      \<or> (args \<noteq> [] \<and> args ! 0 = ''config-bootstrap'' \<and> bootstrap_command m w = (res, w'))"
    using assms(1) unchanged unfolding wolctl_def Let_def
    by (auto split: if_split_asm dest: idle)
  with change consider
      "args \<noteq> []" "args ! 0 = ''config-apply''" "apply_command cl m w = (res, w')"
    | "args \<noteq> []" "args ! 0 = ''config-activate''" "activate_command cl m args w = Some (res, w')"
    | "args \<noteq> []" "args ! 0 = ''config-rollback''" "rollback_command cl m args w = (res, w')"
    | "args \<noteq> []" "args ! 0 = ''config-bootstrap''" "bootstrap_command m w = (res, w')"
    by blast
  then show ?thesis
  proof cases
    case 1
    from apply_touches [OF 1(3) change] obtain cfg where
      c: "cl_euid cl = 0" "check_candidate cl m = Inr (cl_stdin cl, cfg)" "cl_stdin cl \<noteq> ''''"
        "length (cl_stdin cl) \<le> maxCandidateBytes" by blast
    with check_candidate_passed(2,3) [OF c(2)] 1 head show ?thesis by auto
  next
    case 2
    then obtain rid where "revision_argument cl ''config-activate'' args = Inr rid"
      using change unchanged by (auto simp: activate_command_def split: sum.splits)
    from revision_argument_passed [OF this] 2 head show ?thesis by simp
  next
    case 3
    then obtain rid where "revision_argument cl ''config-rollback'' args = Inr rid"
      using change unchanged by (auto simp: rollback_command_def throw_def split: sum.splits)
    from revision_argument_passed [OF this] 3 head show ?thesis by simp
  next
    case 4
    from bootstrap_touches [OF 4(3) change] 4 head show ?thesis by simp
  qed
qed

section \<open>The control command keeps the history\<close>

text \<open>Every state of the files, the ones passed through included, is one the configuration history can be in.\<close>

definition kept :: "'x manager \<Rightarrow> 'x rev_world \<Rightarrow> bool" where
  "kept m w \<longleftrightarrow> hist_run m (rw_files w) \<and> (\<forall>hy\<in>set (rw_seen w). hist_run m hy)"

lemma kept_operation:
  assumes "hist_run m (rw_files w)" "rw_seen w = []" "manager_op m w w'"
  shows "kept m w'"
  using hist_run.operate [OF assms] unfolding kept_def by blast

lemma kept_untouched: "\<not> touched w w' \<Longrightarrow> kept m w \<Longrightarrow> kept m w'"
  by (simp add: touched_def kept_def)

definition keeps_kept :: "'x manager \<Rightarrow> ('x, 'a) cli_proc \<Rightarrow> bool" where
  "keeps_kept m f \<longleftrightarrow> (\<forall>w. kept m w \<longrightarrow> kept m (snd (f w)))"

lemma keeps_seqE: "keeps_kept m f \<Longrightarrow> (\<And>a. keeps_kept m (g a)) \<Longrightarrow> keeps_kept m (seqE f g)"
  unfolding keeps_kept_def seqE_def by (auto split: prod.split sum.split)

lemma keeps_leaves: "leaves_files f \<Longrightarrow> keeps_kept m f"
  unfolding keeps_kept_def leaves_files_def kept_def by simp

lemma snd_lift_rev: "snd (lift_rev f w) = snd (f w)"
  by (auto simp: lift_rev_def split: prod.split sum.split)

text \<open>An operation of the manager from a settled history, then steps that keep it.\<close>

lemma kept_lifted:
  assumes "hist_run m (rw_files w)" "rw_seen w = []" "manager_op m w (snd (f w))" "\<And>a. keeps_kept m (g a)"
  shows "kept m (snd (seqE (lift_rev f) g w))"
proof -
  have "kept m (snd (lift_rev f w))" using kept_operation [OF assms(1-3)] by (simp add: snd_lift_rev)
  then show ?thesis
    using assms(4) unfolding keeps_kept_def seqE_def by (auto split: prod.split sum.split)
qed

text \<open>The unit that \<^verbatim>\<open>systemd-run\<close> starts is itself one more use of the manager.\<close>

definition worker_keeps :: "'x cli \<Rightarrow> 'x manager \<Rightarrow> bool" where
  "worker_keeps cl m \<longleftrightarrow> (\<forall>args w. kept m w \<longrightarrow> kept m (snd (cl_systemd_run cl args w)))"

lemma keeps_activation:
  assumes "worker_keeps cl m"
  shows "keeps_kept m (activateViaSystemd cl rid)"
proof -
  have worker: "kept m w \<Longrightarrow> cl_systemd_run cl args w = (r, w') \<Longrightarrow> kept m w'" for args w r w'
    using assms unfolding worker_keeps_def by (metis snd_conv)
  show ?thesis
    unfolding keeps_kept_def activateViaSystemd_def throw_def by (auto split: option.split prod.split intro: worker)
qed

lemma apply_keeps:
  assumes "hist_run m (rw_files w)" "rw_seen w = []" "worker_keeps cl m"
  shows "kept m (snd (apply_command cl m w))"
proof -
  have start: "kept m w" using assms(1,2) by (simp add: kept_def)
  have rest: "keeps_kept m (seqE (activateViaSystemd cl rid) (\<lambda>_. status_command m))" for rid
    by (intro keeps_seqE keeps_activation assms(3) keeps_leaves leaves_status)
  have "kept m (snd (seqE (lift_rev (Begin m ''cockpit'' content))
      (\<lambda>mf. seqE (activateViaSystemd cl (mf_RevisionID mf)) (\<lambda>_. status_command m)) w))" for content
    by (rule kept_lifted [OF assms(1,2) _ rest]) (rule manager_op.intros)
  then show ?thesis
    using start by (cases "check_candidate cl m")
      (auto simp: apply_command_def requireRoot_def seqE_def return_def throw_def split: prod.splits)
qed

lemma activate_keeps:
  assumes "hist_run m (rw_files w)" "rw_seen w = []" "activate_command cl m args w = Some (res, w')"
  shows "kept m w'"
proof (cases "revision_argument cl ''config-activate'' args")
  case (Inr rid)
  then obtain r where "ActivateAndValidate m rid (Some (service_as_runtime (cl_runtime cl))) w = Some (r, w')"
    using assms(3) by (auto simp: activate_command_def split: option.splits sum.splits)
  from kept_operation [OF assms(1,2) manager_op.intros(3) [OF this]] show ?thesis .
qed (use assms in \<open>simp add: activate_command_def kept_def\<close>)

lemma rollback_keeps:
  assumes "hist_run m (rw_files w)" "rw_seen w = []"
  shows "kept m (snd (rollback_command cl m args w))"
proof (cases "revision_argument cl ''config-rollback'' args")
  case (Inr rid)
  show ?thesis
    unfolding rollback_command_def Inr sum.case
    by (rule kept_lifted [OF assms]) (rule manager_op.intros, rule keeps_leaves [OF leaves_status])
qed (use assms in \<open>simp add: rollback_command_def throw_def kept_def\<close>)

lemma bootstrap_keeps:
  assumes "hist_run m (rw_files w)" "rw_seen w = []"
  shows "kept m (snd (bootstrap_command m w))"
proof -
  obtain r w1 where r: "lift_rev readActive w = (r, w1)" by (cases "lift_rev readActive w")
  have same: "rw_files w1 = rw_files w" "rw_seen w1 = rw_seen w"
    using leaves_lift [OF quiet_reads(4)] r unfolding leaves_files_def by (metis snd_conv)+
  have "kept m (snd (seqE (lift_rev (BootstrapKnownGood m ''installer'' content)) (\<lambda>mf. return (ManifestPrinted mf)) w1))" for content
    by (rule kept_lifted) (use assms same in \<open>auto intro: manager_op.intros keeps_leaves\<close>)
  then show ?thesis
    using r same assms by (cases r) (auto simp: bootstrap_command_def seqE_def kept_def split: prod.splits)
qed

text \<open>The clock of the manager never goes back, and its sleep lasts.\<close>

definition manager_clock :: "'x manager \<Rightarrow> ('x \<Rightarrow> instant) \<Rightarrow> bool" where
  "manager_clock m clock \<longleftrightarrow>
     (\<forall>x. fst (mg_Now m x) = clock x \<and> clock x \<le> clock (snd (mg_Now m x)))
     \<and> (\<forall>d x. fst (mg_Sleep m d x) = None \<longrightarrow> clock x + d \<le> clock (snd (mg_Sleep m d x)))"

text \<open>The service's runtime keeps the contract the probation of a revision relies on.\<close>

lemma service_runtime_returns:
  assumes "service_clock r clock"
  shows "ServiceRuntime_Healthy r x = Some (rt_Healthy (service_as_runtime r) x)"
  using Healthy_returns [OF assms, of x] by (auto simp: service_as_runtime_def)

lemma service_runtime_moves:
  assumes "manager_clock m clock" "service_clock r clock"
  shows "clock_moves (manager_defaults m) (service_as_runtime r) clock"
proof -
  have "clock x \<le> clock (snd (rt_Healthy (service_as_runtime r) x))" for x
    using Healthy_returns [OF assms(2), of x] by (auto simp: service_as_runtime_def)
  then show ?thesis using assms(1) by (simp add: clock_moves_def manager_clock_def manager_defaults_def)
qed

lemma activation_returns:
  assumes "clock_moves (manager_defaults m) rt clock"
  shows "ActivateAndValidate m rid (Some rt) w \<noteq> None"
proof -
  let ?m = "manager_defaults m"
  have interval: "0 < mg_HealthInterval ?m" by (simp add: manager_defaults_def Second_def)
  obtain a w1 where a: "activate_candidate ?m rid (Some rt) w = (a, w1)" by (cases "activate_candidate ?m rid (Some rt) w")
  show ?thesis
  proof (cases a)
    case (Inl e)
    then show ?thesis by (simp add: ActivateAndValidate_def a)
  next
    case (Inr p)
    obtain mf rt' where p: "p = (mf, rt')" by (cases p)
    have "rt' = rt" using activated_manifest [of ?m rid "Some rt" w mf rt' w1] a Inr p by simp
    obtain now x1 where now: "mg_Now ?m (rw_env w1) = (now, x1)" by (cases "mg_Now ?m (rw_env w1)")
    obtain e x2 where "probation_loop ?m rt (now + mg_Probation ?m) x1 = Some (e, x2)"
      using probation_returns [OF assms interval] by blast
    then show ?thesis
      using a Inr p now \<open>rt' = rt\<close> by (cases e) (simp_all add: ActivateAndValidate_def Let_def)
  qed
qed

lemma wolctl_returns:
  assumes "manager_clock m clock" "service_clock (cl_runtime cl) clock"
  shows "wolctl cl m args w \<noteq> None"
proof -
  have "ActivateAndValidate m rid (Some (service_as_runtime (cl_runtime cl))) w \<noteq> None" for rid
    by (rule activation_returns [OF service_runtime_moves [OF assms]])
  then have "activate_command cl m args w \<noteq> None"
    unfolding activate_command_def by (auto split: sum.split option.split) (metis option.distinct(1))
  then show ?thesis unfolding wolctl_def Let_def by simp
qed


text \<open>What a worker makes of the activation it runs.\<close>

definition worker_outcome ::
  "'x rev_world \<Rightarrow> ((rev_error + manifest) \<times> 'x rev_world) option \<Rightarrow> (string \<times> string option) \<times> 'x rev_world" where
  "worker_outcome w run =
     (case run of
        None \<Rightarrow> (('''', Some ''hangs''), w)
      | Some (Inl e, w') \<Rightarrow> ((''failed'', Some ''exit 1''), w'\<lparr>rw_seen := rw_seen w @ rw_seen w'\<rparr>)
      | Some (Inr mf, w') \<Rightarrow> (('''', None), w'\<lparr>rw_seen := rw_seen w @ rw_seen w'\<rparr>))"

lemma worker_outcome_kept:
  assumes "kept m w" "\<And>res w'. run = Some (res, w') \<Longrightarrow> kept m w'"
  shows "kept m (snd (worker_outcome w run))"
proof (cases run)
  case (Some p)
  then have "kept m (snd p)" using assms(2) by (cases p) simp
  then show ?thesis
    using assms(1) Some by (cases p; cases "fst p") (auto simp: worker_outcome_def kept_def)
qed (simp add: worker_outcome_def assms(1))

text \<open>
  An operator applies a valid candidate as root; the worker, when the executable is known, activates the revision it is
  given.
\<close>

definition applying_cli :: "string option \<Rightarrow> int cli" where
  "applying_cli exe =
     \<lparr>cl_euid = 0, cl_stdin = ''good'', cl_stdin_broken = False, cl_files = demo_files,
      cl_executable = exe, cl_socket = ''/s'', cl_config = ''/c'', cl_history = ''/h'',
      cl_systemd_run = (\<lambda>args w.
        worker_outcome w (ActivateAndValidate ticking_manager (last args) (Some healthy_demo) (w\<lparr>rw_seen := []\<rparr>))),
      cl_call = (\<lambda>_ x. (Inl (CallFailed ''no agent''), x)), cl_journal = (\<lambda>x. (('''', None), x)),
      cl_runtime = \<lparr>sr_Service = '''', sr_Runner = (\<lambda>_ x. (('''', None), x)), sr_HealthTimeout = 0, sr_Now = (\<lambda>x. (x, x)),
        sr_call = (\<lambda>_ x. (Inl (CallFailed ''no agent''), x)), sr_pause = (\<lambda>d x. (None, x + d)), sr_text = (\<lambda>_. ''no agent'')\<rparr>\<rparr>"

lemma applying_fields:
  "cl_euid (applying_cli exe) = 0" "cl_stdin (applying_cli exe) = ''good''" "cl_stdin_broken (applying_cli exe) = False"
  "cl_files (applying_cli exe) = demo_files" "cl_executable (applying_cli exe) = exe"
  by (simp_all add: applying_cli_def)

lemma applying_worker: "worker_keeps (applying_cli exe) ticking_manager"
  unfolding worker_keeps_def
proof (intro allI impI)
  fix args and w :: "int rev_world"
  assume start: "kept ticking_manager w"
  let ?run = "ActivateAndValidate ticking_manager (last args) (Some healthy_demo) (w\<lparr>rw_seen := []\<rparr>)"
  have clean: "hist_run ticking_manager (rw_files (w\<lparr>rw_seen := []\<rparr>))" "rw_seen (w\<lparr>rw_seen := []\<rparr>) = []"
    using start by (simp_all add: kept_def)
  have "kept ticking_manager (snd (worker_outcome w ?run))"
    using worker_outcome_kept [OF start] kept_operation [OF clean manager_op.intros(3)] by blast
  then show "kept ticking_manager (snd (cl_systemd_run (applying_cli exe) args w))"
    by (simp only: applying_cli_def cli.simps)
qed

lemma applying_parses: "parse_content ticking_manager c = Inr demo_valid_config"
proof -
  have "applyDefaults demo_valid_config = demo_valid_config"
    by (simp add: applyDefaults_def nut_defaults_def health_defaults_def demo_config_defs)
  then show ?thesis using demo_valid by (simp add: ticking_same parse_content_def Parse_def demo_manager_def Let_def)
qed

lemma applying_capable: "ValidateArmedCapabilities demo_files demo_valid_config = Some (Inr [])"
proof -
  have endpoints: "validateEndpoint ''nas'' = None" "validateEndpoint ''app'' = None"
    by (simp_all add: validateEndpoint_def demo_trims HasPrefix_def ContainsAny_def)
  have key: "validateSSHLocalPrerequisites demo_files x ''/k'' = None" for x
    by (simp add: validateSSHLocalPrerequisites_def validateSSHLocalPrerequisitesAt_def demo_trims demo_endpoints
        demo_files_def validateKnownHost_def)
  have "validateStaticArmedCapabilities demo_valid_config = None"
    by (simp add: validateStaticArmedCapabilities_def demo_config_defs armed_host_def armed_shutdown_def armed_wake_def
        blank_def endpoints demo_trims)
  moreover have "exclusion_loop demo_files (cf_Hosts demo_valid_config) fmempty = Some fmempty"
    by (simp add: demo_config_defs key)
  ultimately show ?thesis
    by (simp add: ValidateArmedCapabilities_def RuntimeArmedExclusions_def List.map_filter_def)
qed

lemma applying_checked: "check_candidate (applying_cli exe) ticking_manager = Inr (''good'', demo_valid_config)"
proof -
  have "readCandidate ''good'' False = Inr ''good''" by (simp add: readCandidate_def maxCandidateBytes_def)
  then show ?thesis by (simp add: check_candidate_def applying_fields applying_parses applying_capable)
qed

lemma applying_begins:
  "\<exists>mf w'. Begin ticking_manager ''cockpit'' ''good'' ticking_world = (Inr mf, w') \<and> fmdom (hy_revisions (rw_files w')) = {|demo_rid|}"
proof -
  let ?m = "manager_defaults ticking_manager" and ?sum = "''0123456789abcdef''"
  have hash: "mg_sha256_hex ?m ''good'' = ?sum" by (simp add: ticking_same demo_manager_def)
  have none: "read_pointer demo_start p = Inr ''''" for p by (simp add: read_pointer_def demo_start_def)
  have parsed: "parse_content ticking_manager ''good'' = Inr demo_valid_config" by (rule applying_parses)
  obtain hy where hy: "returns {0} (beginLocked ?m ''cockpit'' ''good'') demo_start (new_manifest demo_rid 0 ''cockpit'' '''' ?sum) hy"
      "fmdom (hy_revisions hy) = {|demo_rid|}"
    using returns_beginLocked [of demo_start ?m "''good''" demo_valid_config "{0}" 0 demo_rid "''cockpit''"] none parsed hash demo_rid_pattern
    by (auto simp: demo_start_def demo_stamp demo_rid_def ticking_manager_def)
  have "returns {0} (Begin ticking_manager ''cockpit'' ''good'') demo_start (new_manifest demo_rid 0 ''cockpit'' '''' ?sum) hy"
    unfolding Begin_def by (intro returns_seq [OF returns_lock] hy(1))
  then show ?thesis
    using hy(2) returnsD [of "{0}" _ ticking_world] by (fastforce simp: ticking_world_def calm_def)
qed

theorem control_command_touches_only_vetted_witness:
  "\<exists>res w' cfg. wolctl (applying_cli None) ticking_manager [''config-apply''] ticking_world = Some (res, w')
    \<and> fmdom (hy_revisions (rw_files w')) = {|demo_rid|} \<and> parse_content ticking_manager ''good'' = Inr cfg
    \<and> ValidateArmedCapabilities demo_files cfg = Some (Inr [])"
proof -
  obtain mf w' where begun: "Begin ticking_manager ''cockpit'' ''good'' ticking_world = (Inr mf, w')"
      "fmdom (hy_revisions (rw_files w')) = {|demo_rid|}" using applying_begins by blast
  have run: "wolctl (applying_cli None) ticking_manager [''config-apply''] ticking_world = Some (Inl ExecutableUnknown, w')"
    by (simp add: wolctl_def apply_command_def requireRoot_def applying_checked applying_fields seqE_def return_def throw_def
        lift_rev_def activateViaSystemd_def begun(1))
  have "fmdom (hy_revisions (rw_files ticking_world)) = {||}" by (simp add: ticking_world_def demo_start_def)
  then have changed: "rw_files w' \<noteq> rw_files ticking_world" using begun(2) by fastforce
  have armed: "cf_Mode demo_valid_config = ''armed''" by (simp add: demo_valid_config_def)
  from control_command_touches_only_vetted [OF run disjI1 [OF changed]]
  have "\<exists>cfg. parse_content ticking_manager (cl_stdin (applying_cli None)) = Inr cfg
      \<and> (cf_Mode cfg \<noteq> ''armed'' \<or> ValidateArmedCapabilities (cl_files (applying_cli None)) cfg = Some (Inr []))"
    by (elim disjE) (simp_all only: list.sel insert_iff empty_iff applying_fields, auto)
  then have "ValidateArmedCapabilities demo_files demo_valid_config = Some (Inr [])"
    using armed by (simp add: applying_fields applying_parses)
  then show ?thesis using begun(2) run applying_parses by blast
qed


section \<open>The management plane never closes the gate\<close>

text \<open>Every result of a run comes from its check, under the check's name.\<close>

lemma check_step_result:
  assumes "hk_Run c x = (res, x')" "check_step s autofix c (snap, x) = (snap', y)"
  shows "sn_Results snap' = sn_Results snap @ [named_result c res]"
proof -
  have "named_result c (fst (hk_Run c x)) = named_result c res" using assms(1) by simp
  then show ?thesis
    using check_step_stepped [of s c x snap autofix] assms(2) unfolding stepped_def by simp
qed

lemma fold_results:
  "\<exists>rs. sn_Results (fst (fold (check_step s autofix) cs (snap, x))) = sn_Results snap @ rs
     \<and> list_all2 (\<lambda>c r. \<exists>x. r = named_result c (fst (hk_Run c x))) cs rs"
proof (induction cs arbitrary: snap x)
  case (Cons c cs)
  obtain res x1 where res: "hk_Run c x = (res, x1)" by (cases "hk_Run c x")
  obtain snap1 y where step: "check_step s autofix c (snap, x) = (snap1, y)" by (cases "check_step s autofix c (snap, x)")
  obtain rs where rs: "sn_Results (fst (fold (check_step s autofix) cs (snap1, y))) = sn_Results snap1 @ rs"
      "list_all2 (\<lambda>c r. \<exists>x. r = named_result c (fst (hk_Run c x))) cs rs"
    using Cons.IH by blast
  have "\<exists>x. named_result c res = named_result c (fst (hk_Run c x))" using res by (metis fst_conv)
  with rs check_step_result [OF res step] step show ?case
    by (intro exI [of _ "named_result c res # rs"]) simp
qed simp

lemma Run_results:
  assumes "Run sv autofix w = (Inr snap, w')"
  shows "list_all2 (\<lambda>c r. \<exists>x. r = named_result c (fst (hk_Run c x))) (sort_key hk_Name (sv_Checks sv)) (sn_Results snap)"
proof -
  obtain now loaded x where "snap = fst (run_checks (supervisor_defaults sv) autofix (fresh_snapshot now loaded) x)"
    using assms unfolding Run_def Let_def seqE_def return_def by (auto split: prod.splits sum.splits) (metis fst_conv)
  then show ?thesis
    using fold_results [of "supervisor_defaults sv" autofix "sort_key hk_Name (sv_Checks sv)" "fresh_snapshot now loaded" x]
    by (auto simp: run_checks_def fresh_snapshot_def)
qed

definition unit_health :: "'x unit_runner \<Rightarrow> string \<Rightarrow> 'x health_check" where
  "unit_health run u = \<lparr>hk_Name = unit_name (unit_check run u), hk_Run = SystemdUnitCheck_Run (unit_check run u)\<rparr>"

lemma unit_result:
  "hr_Name (named_result (unit_health run u) (fst (hk_Run (unit_health run u) x))) = ''systemd:'' @ u"
  "hr_Critical (named_result (unit_health run u) (fst (hk_Run (unit_health run u) x))) \<longleftrightarrow> u \<noteq> ''cockpit.socket''"
  by (auto simp: named_result_def unit_health_def SystemdUnitCheck_Run_def unit_check_def unit_name_def safetyCriticalUnit_def
      Let_def split: prod.split)

lemma unit_results:
  assumes "list_all2 (\<lambda>c r. \<exists>x. r = named_result c (fst (hk_Run c x))) (map (unit_health run) us) rs"
  shows "map hr_Name rs = map (\<lambda>u. ''systemd:'' @ u) us"
    and "\<forall>r\<in>set rs. hr_Critical r \<longleftrightarrow> hr_Name r \<noteq> ''systemd:cockpit.socket''"
  using assms by (induction us arbitrary: rs) (auto simp: list_all2_Cons1 unit_result)

lemma sort_key_map: "sort_key f (map g xs) = map g (sort_key (f \<circ> g) xs)"
proof -
  have "insort_key f (g x) (map g ys) = map g (insort_key (f \<circ> g) x ys)" for x ys by (induction ys) auto
  then show ?thesis by (induction xs) simp_all
qed

definition checked_units :: "(string \<Rightarrow> config_error + config) \<Rightarrow> string option \<Rightarrow> string list \<Rightarrow> string list" where
  "checked_units parse configFile requiredUnits =
     (if requiredUnits \<noteq> [] then requiredUnits
      else (case configFile of
              None \<Rightarrow> []
            | Some content \<Rightarrow> (case parse content of Inl e \<Rightarrow> [] | Inr cfg \<Rightarrow> requiredUnitsForConfig cfg)))"

lemma run_health_checked:
  assumes "run_health run base parse configFile requiredUnits statePath maxAttempts repair w = (Checked snap, w')"
  shows "Run (unit_supervisor run base statePath maxAttempts (checked_units parse configFile requiredUnits)) repair w = (Inr snap, w')"
  using assms by (auto simp: run_health_def checked_units_def Let_def split: if_splits option.splits sum.splits prod.splits)

lemma unit_supervisor_fields:
  "sv_StatePath (unit_supervisor run base statePath n us) = statePath"
  "sv_encode (unit_supervisor run base statePath n us) = sv_encode base"
  "sv_decode (unit_supervisor run base statePath n us) = sv_decode base"
  "sv_Now (unit_supervisor run base statePath n us) = sv_Now base"
  "sv_Checks (unit_supervisor run base statePath n us) = map (unit_health run) us"
  by (simp_all add: unit_supervisor_def unit_health_def)

lemma run_health_results:
  assumes "run_health run base parse configFile requiredUnits statePath maxAttempts repair w = (Checked snap, w')"
  shows "mset (map hr_Name (sn_Results snap)) = mset (map (\<lambda>u. ''systemd:'' @ u) (checked_units parse configFile requiredUnits))"
    and "\<forall>r\<in>set (sn_Results snap). hr_Critical r \<longleftrightarrow> hr_Name r \<noteq> ''systemd:cockpit.socket''"
proof -
  let ?us = "checked_units parse configFile requiredUnits"
  note results = unit_results [OF Run_results [OF run_health_checked [OF assms], unfolded unit_supervisor_fields sort_key_map]]
  show "mset (map hr_Name (sn_Results snap)) = mset (map (\<lambda>u. ''systemd:'' @ u) ?us)"
    unfolding results(1) by (simp only: mset_map mset_sort)
  show "\<forall>r\<in>set (sn_Results snap). hr_Critical r \<longleftrightarrow> hr_Name r \<noteq> ''systemd:cockpit.socket''"
    by (rule results(2))
qed

text \<open>
  Claim C24. Cockpit is monitored but can never stop a safe recovery: after a run of the health command, which checks each
  required unit exactly once per mention, the gate of the armed agent is open at a time \<open>t\<close> if and only if every
  checked unit other than cockpit.socket was healthy and the run is at most \<open>maxAge\<close> old and not from the future.
\<close>

theorem management_plane_never_closes_gate:
  assumes "run_health run base parse configFile requiredUnits statePath maxAttempts repair w = (Checked snap, w')"
    and "statePath \<noteq> ''''" "health_codec_ok (sv_encode base) (sv_decode base)" "0 < maxAge" "maxAge < 2 ^ 63 - 1"
  shows "mset (map hr_Name (sn_Results snap)) = mset (map (\<lambda>u. ''systemd:'' @ u) (checked_units parse configFile requiredUnits))
    \<and> (fst (systemHealthSafe (sv_decode base) (hw_file w') maxAge t) \<longleftrightarrow>
        list_all hr_OK (filter (\<lambda>r. hr_Name r \<noteq> ''systemd:cockpit.socket'') (sn_Results snap))
        \<and> fst (sv_Now base (hw_env w)) \<le> t \<and> t \<le> fst (sv_Now base (hw_env w)) + maxAge)"
proof -
  note results = run_health_results [OF assms(1)]
  have "fst (systemHealthSafe (sv_decode base) (hw_file w') maxAge t) \<longleftrightarrow>
      (\<forall>r\<in>set (sn_Results snap). hr_Critical r \<longrightarrow> hr_OK r)
      \<and> fst (sv_Now base (hw_env w)) \<le> t \<and> t \<le> fst (sv_Now base (hw_env w)) + maxAge"
    using system_gate_reports_last_run [OF run_health_checked [OF assms(1)], of maxAge t] assms(2-5)
    unfolding unit_supervisor_fields by simp
  then show ?thesis using results by (auto simp: list_all_iff)
qed

text \<open>The agent's unit is up and Cockpit's socket is not.\<close>

definition demo_systemctl :: "unit unit_runner" where
  "demo_systemctl timeout argv x =
     ((if argv ! 1 = ''is-enabled'' then ''enabled'' else if argv ! 2 = ''cockpit.socket'' then ''inactive'' else ''active'', None), x)"

definition socket_down :: snapshot where
  "socket_down = NewSnapshot
     \<lparr>sn_State := Degraded, sn_CheckedAt := Some (10 * Second), sn_Generation := 1,
      sn_Results :=
        [\<lparr>hr_Name = ''systemd:a.service'', hr_OK = True, hr_Critical = True, hr_Repairable = True, hr_Message = ''''\<rparr>,
         \<lparr>hr_Name = ''systemd:cockpit.socket'', hr_OK = False, hr_Critical = False, hr_Repairable = True,
          hr_Message = ''service is not active''\<rparr>]\<rparr>"

definition demo_base :: "unit supervisor" where
  "demo_base = demo_supervisor
     \<lparr>sv_Now := (\<lambda>x. (10 * Second, x)), sv_encode := (\<lambda>snap. if snap = socket_down then Some ''1'' else None),
      sv_decode := (\<lambda>b. if b = ''1'' @ [newline] then Inr socket_down else Inl ''bad JSON'')\<rparr>"

lemma demo_base_codec: "health_codec_ok (sv_encode demo_base) (sv_decode demo_base)"
  by (auto simp: health_codec_ok_def demo_base_def split: if_splits)

lemma demo_unit_texts:
  "TrimSpace ''enabled'' = ''enabled''" "TrimSpace ''active'' = ''active''" "TrimSpace ''inactive'' = ''inactive''"
  by (simp_all add: TrimSpace_plain plain_char_def ascii_space_def)

lemma demo_socket_run:
  "\<exists>w'. run_health demo_systemctl demo_base (\<lambda>_. Inr demo_valid_config) None [''a.service'', ''cockpit.socket''] ''/h'' 5 False demo_health_world
     = (Checked socket_down, w')"
  using demo_unit_texts
  by (simp add: run_health_def unit_supervisor_def run_health_defs demo_base_def demo_health_defs demo_systemctl_def socket_down_def
      SystemdUnitCheck_Run_def unit_check_def unit_name_def safetyCriticalUnit_def says_def clear_circuit_def)

theorem management_plane_never_closes_gate_witness:
  "\<exists>w'. run_health demo_systemctl demo_base (\<lambda>_. Inr demo_valid_config) None [''a.service'', ''cockpit.socket''] ''/h'' 5 False
       demo_health_world = (Checked socket_down, w')
     \<and> fst (systemHealthSafe (sv_decode demo_base) (hw_file w') (60 * Second) (20 * Second))"
proof -
  obtain w' where run: "run_health demo_systemctl demo_base (\<lambda>_. Inr demo_valid_config) None [''a.service'', ''cockpit.socket'']
      ''/h'' 5 False demo_health_world = (Checked socket_down, w')" using demo_socket_run by blast
  from management_plane_never_closes_gate [OF run _ demo_base_codec, of "60 * Second" "20 * Second"] run show ?thesis
    by (auto simp: socket_down_def Second_def demo_base_def)
qed

end
