(* ===== verification/Spec2Isabelle.thy ===== *)
theory Spec2Isabelle
  imports Armed_Props Commands
begin

text \<open>
  A verification library for cockpit-ups-wol, the agent that shuts a fleet of machines down when the UPS runs on battery
  and wakes it again when power is back. All paths below are under \<^verbatim>\<open>src/agent\<close>.

  \<^bold>\<open>How the program works.\<close> A runtime (\<^verbatim>\<open>internal/app\<close>) loads the configuration, adopts the durable transaction and
  runs an event loop. On each power tick it queries NUT (\<^verbatim>\<open>internal/nut\<close>), turns the answer into an observation together
  with the health gates (\<^verbatim>\<open>internal/health\<close>) and hands it to the orchestrator (\<^verbatim>\<open>internal/orchestrator\<close>), which steps the
  policy (\<^verbatim>\<open>internal/policy\<close>) through a coordinator. The coordinator writes every changed transaction (\<^verbatim>\<open>internal/state\<close>)
  before the decision counts. The orchestrator then shuts hosts down, requests NUT's forced shutdown, or wakes hosts
  (\<^verbatim>\<open>internal/host\<close>, \<^verbatim>\<open>internal/wol\<close>). The configuration (\<^verbatim>\<open>internal/config\<close>) is changed as a transaction with probation and
  rollback, by the commands of \<^verbatim>\<open>cmd\<close>, which ask the agent over its socket (\<^verbatim>\<open>internal/ipc\<close>, \<^verbatim>\<open>internal/control\<close>).

  \<^bold>\<open>Theories and code.\<close>
  \<^item> \<open>Prelude\<close>, \<open>Go_Strings\<close>, \<open>Go_Net\<close>: Go's integers, durations, times, floats, the error monad \<open>proc\<close> with its
    rules, and the library functions the agent parses with.
  \<^item> \<open>State_Model\<close> (\<^verbatim>\<open>state/model.go\<close>), \<open>State_Writer\<close> (the interface \<^verbatim>\<open>StateWriter\<close>, a locale), \<open>State_Store\<close>
    (\<^verbatim>\<open>state/store.go\<close>: two generations of a transaction on a disk whose every system call may fail).
  \<^item> \<open>Policy_Engine\<close> and \<open>Policy_Reasons\<close> (\<^verbatim>\<open>policy/engine.go\<close>), \<open>Policy_Runs\<close> (runs of observations), \<open>Policy_Props\<close>;
    \<open>Coordinator\<close> (\<^verbatim>\<open>policy/coordinator.go\<close>, over the locale of state writers).
  \<^item> \<open>Host_Plan\<close> (\<^verbatim>\<open>host/plan.go\<close>), \<open>Host_Recovery\<close> (\<^verbatim>\<open>host/recovery.go\<close>), \<open>Orchestrator\<close>
    (\<^verbatim>\<open>orchestrator/controller.go\<close>), \<open>Shutdown_Order\<close>, \<open>Recovery_Order\<close>, \<open>Orchestrator_Props\<close>, \<open>Wake_Gates\<close>: what the
    orchestrator may send, and when, in runs with crashes.
  \<^item> \<open>Host_Checks\<close> (\<^verbatim>\<open>host/status.go\<close>, \<^verbatim>\<open>shutdown.go\<close>, \<^verbatim>\<open>armed_runtime_validation.go\<close>), \<open>NUT_Client\<close> (\<^verbatim>\<open>nut\<close>),
    \<open>Wake_Packet\<close> (\<^verbatim>\<open>wol\<close>).
  \<^item> \<open>Config_Types\<close>, \<open>Config_Validate\<close>, \<open>Config_Props\<close> (\<^verbatim>\<open>config/config.go\<close>, \<^verbatim>\<open>address_validation.go\<close>);
    \<open>Config_Revisions\<close>, \<open>Revision_Logic\<close>, \<open>Revision_Props\<close> (\<^verbatim>\<open>config/revision.go\<close>, \<^verbatim>\<open>startup.go\<close> and their companions).
  \<^item> \<open>Health\<close> (\<^verbatim>\<open>internal/health\<close> and the gates of \<^verbatim>\<open>app\<close>), \<open>Armed\<close> and \<open>Armed_Props\<close> (\<^verbatim>\<open>app/runtime.go\<close>, \<^verbatim>\<open>armed.go\<close>,
    \<^verbatim>\<open>orchestrator/adapters.go\<close>).
  \<^item> \<open>Service\<close> (\<^verbatim>\<open>system/systemd_notify.go\<close>, \<^verbatim>\<open>ipc\<close>, \<^verbatim>\<open>control\<close>), \<open>Commands\<close> (\<^verbatim>\<open>report\<close>, \<^verbatim>\<open>cmd/cockpit-ups-wolctl\<close>,
    \<^verbatim>\<open>cmd/cockpit-ups-wol-health\<close>).

  \<^bold>\<open>How state and operations correspond.\<close> A struct is a record with the fields of the source, an enumeration a datatype
  (with a constructor for strings the source does not name, where a file may hold any), a pointer an option, a map a finite
  map. A method is a definition of its name that takes the receiver and returns it updated; one that may fail returns an
  error value, and one that writes files goes through a world whose fault function decides, call by call, which system call
  fails, and whose trace keeps every content the files have had, so that a crash at any point is a member of the trace.
  Times are integers in nanoseconds and durations wrap at 64 bits where the code computes them. What lies outside (commands,
  sockets, DNS, the clock, randomness, JSON, YAML, SHA-256, the iteration order of Go's maps) is a parameter: a function on an
  environment of arbitrary type. Where a theorem needs a law of one (a codec decodes what it encodes, a clock does
  not go back, equal hashes mean equal contents), the law is a hypothesis with a name, and the theorem has a witness with
  a concrete function.

  \<^bold>\<open>Interfaces.\<close> \<open>state_writer\<close> states what a writer of generations promises; the store is its model, and \<open>coordinated\<close>
  and \<open>durable_ctl\<close> prove the coordinator and the orchestrator over any such writer. \<open>loop_invariant\<close> proves an
  invariant of the event loop from its power tick and is interpreted twice, for the pacing of forced shutdowns and for the
  refinement of the orchestrator's runs.

  \<^bold>\<open>What the theorems show.\<close>
  \<^item> Policy: when a shutdown is committed, and that it is within the configured bounds; that recovery starts and goes on only
    behind stable power, recharge, network and health; the consistency of every reachable transaction.
  \<^item> Durability: a write is crash safe and reads back; a decision counts only once it is durable; the coordinator refines the
    engine.
  \<^item> Orchestration: commands are written ahead, bounded and ordered; the recovery plan is topological and greedy; no wake
    without every gate.
  \<^item> Runtime: the armed loop refines the orchestrator, resumes an interrupted shutdown only under its own configuration, paces
    its own forced shutdowns, and is fed to the watchdog only on progress.
  \<^item> Configuration: what validation guarantees; that the history always keeps a known-good revision and a startup finds it;
    that an activation and its health trial end and mean what they report; that the control command changes nothing unvetted.
  \<^item> Health: repairs are bounded, the gate tells what the last run found, and the management plane cannot close it.

  \<^bold>\<open>Loops and bounds.\<close> Recursion over data is structural. The waits of \<^verbatim>\<open>WaitForConsecutive\<close>, of the probation and of the
  health trial end by the clock or by what they observe: they are partial functions whose \<open>None\<close> is not returning, and that
  they return is proved for clocks that move and bounded waits. Kahn's loop and the cycle check carry their own measures. The
  event loops take the list of channel events, so they end with it.

  \<^bold>\<open>Not modelled.\<close> Logging; the accept loop of the socket server and other plain operating system calls; cancellation of a
  context other than as an error of the call that sees it; the interleaving of goroutines inside one tick; flag parsing
  and printing in the commands, and the agent and \<^verbatim>\<open>wolctl\<close> commands, which do nothing else; version constants and the schema
  fixture; the TypeScript interface, shell scripts and packaging.
\<close>

end
